theory Spec2Isabelle
  imports Complex_Main "HOL-Library.AList" "HOL-Library.Char_ord"
    "HOL-Library.List_Lexorder" "HOL-Library.Product_Lexorder"
begin

section \<open>Errors\<close>

text \<open>
  The exceptions of \<^verbatim>\<open>graphframe.py\<close> and of the pandas calls it makes, as values.
  \<open>InvalidFilter\<close> and \<open>EmptyFilter\<close> are the two exception classes the module declares;
  \<open>RecursionError\<close> is what Python raises when the recursion of \<^verbatim>\<open>rewire\<close> or of a
  traversal is deeper than the interpreter's limit.
\<close>

datatype error = ValueError | KeyError | TypeError | InvalidFilter | EmptyFilter | RecursionError

fun foldE :: "('a \<Rightarrow> 's \<Rightarrow> error + 's) \<Rightarrow> 'a list \<Rightarrow> 's \<Rightarrow> error + 's" where
  "foldE f [] s = Inr s"
| "foldE f (x # xs) s = (case f x s of Inl e \<Rightarrow> Inl e | Inr s' \<Rightarrow> foldE f xs s')"

fun mapE :: "('a \<Rightarrow> error + 'b) \<Rightarrow> 'a list \<Rightarrow> error + 'b list" where
  "mapE f [] = Inr []"
| "mapE f (x # xs) =
     (case f x of Inl e \<Rightarrow> Inl e
      | Inr y \<Rightarrow> (case mapE f xs of Inl e \<Rightarrow> Inl e | Inr ys \<Rightarrow> Inr (y # ys)))"

section \<open>Nodes and graphs\<close>

text \<open>
  Modelled from the spec: the classes \<^verbatim>\<open>Node\<close> and \<^verbatim>\<open>Graph\<close> (modules \<^verbatim>\<open>node\<close> and
  \<^verbatim>\<open>graph\<close>) are imported by \<^verbatim>\<open>graphframe.py\<close> and are not among the sources. A node is
  an object with reference identity: here an address into a store of node objects. It
  carries an immutable frame (an ordered mapping of attributes), a mutable list of
  parents, a mutable list of children and the integer \<^verbatim>\<open>_hatchet_nid\<close>. A graph is an
  object that owns a list of roots; \<open>gid\<close> is its identity (\<^verbatim>\<open>a.graph is b.graph\<close> is
  equality of \<open>gid\<close>).
\<close>

type_synonym node = nat

type_synonym frame = "(string \<times> string) list"

record node_obj =
  frame :: frame
  parents :: "node list"
  children :: "node list"
  hatchet_nid :: int

type_synonym store = "node_obj list"

record graph =
  gid :: nat
  roots :: "node list"

record world =
  nodes :: store
  next_gid :: nat

definition empty_node :: node_obj where
  "empty_node = \<lparr>frame = [], parents = [], children = [], hatchet_nid = -1\<rparr>"

definition obj :: "store \<Rightarrow> node \<Rightarrow> node_obj" where
  "obj st n = (if n < length st then st ! n else empty_node)"

definition kids :: "store \<Rightarrow> node \<Rightarrow> node list" where
  "kids st n = children (obj st n)"

text \<open>
  Modelled from the spec: \<^verbatim>\<open>Node.traverse\<close> and \<^verbatim>\<open>Graph.traverse\<close>, a depth-first
  traversal in pre-order or post-order that yields every reachable node once (a set of
  visited nodes is shared by the roots) and takes the children in a deterministic
  order, here the order of the list of children. The first argument bounds the depth
  of the recursion; the traversal state is the list of visited nodes, the nodes yielded
  so far, and whether some node was reached a second time.
\<close>

type_synonym tstate = "node list \<times> node list \<times> bool"

fun traverse_node :: "nat \<Rightarrow> store \<Rightarrow> bool \<Rightarrow> node \<Rightarrow> tstate \<Rightarrow> tstate option"
  and traverse_list :: "nat \<Rightarrow> store \<Rightarrow> bool \<Rightarrow> node list \<Rightarrow> tstate \<Rightarrow> tstate option" where
  "traverse_node 0 st post n s = None"
| "traverse_node (Suc k) st post n (vis, out, again) =
     (if n \<in> set vis then Some (vis, out, True)
      else (case traverse_list k st post (kids st n)
                   (n # vis, (if post then out else out @ [n]), again) of
              None \<Rightarrow> None
            | Some (vis', out', again') \<Rightarrow>
                Some (vis', (if post then out' @ [n] else out'), again')))"
| "traverse_list k st post [] s = Some s"
| "traverse_list k st post (c # cs) s =
     (case traverse_node k st post c s of
        None \<Rightarrow> None
      | Some s' \<Rightarrow> traverse_list k st post cs s')"

text \<open>
  The depth of a traversal never exceeds the number of node objects, so the traversals
  below run with that bound; \<open>RecursionError\<close> stands for a bound that was too small.
\<close>

definition depth_bound :: "store \<Rightarrow> nat" where
  "depth_bound st = Suc (Suc (length st))"

definition traverse_graph :: "store \<Rightarrow> graph \<Rightarrow> bool \<Rightarrow> error + node list" where
  "traverse_graph st g post =
     (case traverse_list (depth_bound st) st post (roots g) ([], [], False) of
        None \<Rightarrow> Inl RecursionError
      | Some (vis, out, again) \<Rightarrow> Inr out)"

definition traverse_from :: "store \<Rightarrow> node \<Rightarrow> error + node list" where
  "traverse_from st n =
     (case traverse_node (depth_bound st) st False n ([], [], False) of
        None \<Rightarrow> Inl RecursionError
      | Some (vis, out, again) \<Rightarrow> Inr out)"

text \<open>
  Modelled from the spec: \<^verbatim>\<open>Graph.is_tree\<close>, the classification of a graph as a tree
  or a general graph. A graph is a tree when it has at most one root and its traversal
  reaches no node a second time.
\<close>

definition is_tree :: "store \<Rightarrow> graph \<Rightarrow> error + bool" where
  "is_tree st g =
     (if length (roots g) > 1 then Inr False
      else (case traverse_list (depth_bound st) st False (roots g) ([], [], False) of
              None \<Rightarrow> Inl RecursionError
            | Some (vis, out, again) \<Rightarrow> Inr (\<not> again)))"

section \<open>The metric table\<close>

text \<open>
  A pandas DataFrame whose index has the level \<^verbatim>\<open>node\<close> and possibly further levels
  (rank, thread). A row carries its node, the values of the other index levels, and its
  cells by column name; a cell is a number, the missing value NaN, or a text. The calls
  \<^verbatim>\<open>reset_index\<close> and \<^verbatim>\<open>set_index(index_names)\<close>, which the source uses in pairs to read
  and write the node as a column, are the identity on this representation.
\<close>

datatype cell = Num real | NaN | Txt string

record row =
  rnode :: node
  rdims :: "int list"
  rcells :: "(string \<times> cell) list"

record table =
  index_names :: "string list"
  columns :: "string list"
  rows :: "row list"

definition cell_at :: "row \<Rightarrow> string \<Rightarrow> cell" where
  "cell_at r c = (case map_of (rcells r) c of None \<Rightarrow> NaN | Some v \<Rightarrow> v)"

definition set_cell :: "string \<Rightarrow> cell \<Rightarrow> row \<Rightarrow> row" where
  "set_cell c v r = r\<lparr>rcells := AList.update c v (rcells r)\<rparr>"

definition is_multi_index :: "table \<Rightarrow> bool" where
  "is_multi_index df = (length (index_names df) > 1)"

definition has_node :: "table \<Rightarrow> node \<Rightarrow> bool" where
  "has_node df n = list_ex (\<lambda>r. rnode r = n) (rows df)"

definition has_column :: "table \<Rightarrow> string \<Rightarrow> bool" where
  "has_column df c = (c \<in> set (columns df))"

text \<open>\<^verbatim>\<open>df[out] = df[col]\<close>: \<open>KeyError\<close> when \<open>col\<close> is no column; a new column goes last.\<close>

definition copy_column :: "string \<Rightarrow> string \<Rightarrow> table \<Rightarrow> error + table" where
  "copy_column col out df =
     (if \<not> has_column df col then Inl KeyError
      else Inr (df\<lparr>columns := (if has_column df out then columns df else columns df @ [out]),
                   rows := map (\<lambda>r. set_cell out (cell_at r col) r) (rows df)\<rparr>))"

text \<open>
  \<^verbatim>\<open>df.loc[labels, col]\<close> on a single-level index: the cells of the rows of each label, in
  the order of the labels; \<open>KeyError\<close> when a label has no row or \<open>col\<close> is no column.
\<close>

definition loc_nodes :: "table \<Rightarrow> node list \<Rightarrow> string \<Rightarrow> error + cell list" where
  "loc_nodes df ns col =
     (if has_column df col \<and> list_all (has_node df) ns
      then Inr (concat (map (\<lambda>n. map (\<lambda>r. cell_at r col) (filter (\<lambda>r. rnode r = n) (rows df))) ns))
      else Inl KeyError)"

text \<open>
  \<^verbatim>\<open>df.loc[(labels,) + dims, col]\<close> on a multi-level index: the cells of the rows whose
  node is one of the labels and whose other levels are \<open>dims\<close>, in the order of the
  table; \<open>KeyError\<close> when a label has no row at all or \<open>col\<close> is no column.
\<close>

definition loc_nodes_dims :: "table \<Rightarrow> node list \<Rightarrow> int list \<Rightarrow> string \<Rightarrow> error + cell list" where
  "loc_nodes_dims df ns d col =
     (if has_column df col \<and> list_all (has_node df) ns
      then Inr (map (\<lambda>r. cell_at r col)
                  (filter (\<lambda>r. rnode r \<in> set ns \<and> rdims r = d) (rows df)))
      else Inl KeyError)"

text \<open>\<^verbatim>\<open>df.loc[node, col] = v\<close> and \<^verbatim>\<open>df.loc[(node,) + dims, col] = v\<close>.\<close>

definition set_loc_node :: "node \<Rightarrow> string \<Rightarrow> cell \<Rightarrow> table \<Rightarrow> table" where
  "set_loc_node n col v df =
     df\<lparr>rows := map (\<lambda>r. if rnode r = n then set_cell col v r else r) (rows df)\<rparr>"

definition set_loc_node_dims :: "node \<Rightarrow> int list \<Rightarrow> string \<Rightarrow> cell \<Rightarrow> table \<Rightarrow> table" where
  "set_loc_node_dims n d col v df =
     df\<lparr>rows := map (\<lambda>r. if rnode r = n \<and> rdims r = d then set_cell col v r else r) (rows df)\<rparr>"

text \<open>\<^verbatim>\<open>df.loc[(node), out_columns].index.unique()\<close>: the distinct values of the other levels.\<close>

definition node_dims :: "table \<Rightarrow> node \<Rightarrow> string list \<Rightarrow> error + int list list" where
  "node_dims df n cols =
     (if list_all (has_column df) cols \<and> has_node df n
      then Inr (remdups (map rdims (filter (\<lambda>r. rnode r = n) (rows df))))
      else Inl KeyError)"

subsection \<open>Sums that keep "no data"\<close>

text \<open>
  \<^verbatim>\<open>x.sum(min_count=1)\<close> on a numeric series: the missing values are skipped, and the
  sum of a series with no value at all is NaN, not 0. On texts the sum is Python's
  \<open>+\<close>, and a series that mixes texts with numbers or missing values raises.

  The numbers of the table are real numbers and their sum is the exact sum. The
  rounding of the sums of 64-bit floating-point columns and the wrap-around of the sums
  of 64-bit integer columns belong to the library and are not part of this model: what
  is proved about a sum below is proved about the exact sum of the same cells in the
  same order.
\<close>

definition nums :: "cell list \<Rightarrow> real list" where
  "nums cs = concat (map (\<lambda>c. case c of Num x \<Rightarrow> [x] | _ \<Rightarrow> []) cs)"

definition txts :: "cell list \<Rightarrow> string list" where
  "txts cs = concat (map (\<lambda>c. case c of Txt s \<Rightarrow> [s] | _ \<Rightarrow> []) cs)"

definition sum_min_count1 :: "cell list \<Rightarrow> error + cell" where
  "sum_min_count1 cs =
     (if txts cs = [] then Inr (if nums cs = [] then NaN else Num (sum_list (nums cs)))
      else if length (txts cs) = length cs then Inr (Txt (concat (txts cs)))
      else Inl TypeError)"


subsection \<open>Arithmetic on cells\<close>

text \<open>Python's \<open>+\<close> and \<open>-\<close> on a number and a cell: NaN propagates, a text raises.\<close>

fun cell_add :: "cell \<Rightarrow> cell \<Rightarrow> error + cell" where
  "cell_add (Num a) (Num b) = Inr (Num (a + b))"
| "cell_add (Txt a) _ = Inl TypeError"
| "cell_add _ (Txt b) = Inl TypeError"
| "cell_add _ _ = Inr NaN"

fun cell_sub :: "cell \<Rightarrow> cell \<Rightarrow> error + cell" where
  "cell_sub (Num a) (Num b) = Inr (Num (a - b))"
| "cell_sub (Txt a) _ = Inl TypeError"
| "cell_sub _ (Txt b) = Inl TypeError"
| "cell_sub _ _ = Inr NaN"

text \<open>
  \<^verbatim>\<open>df.loc[node, col]\<close> and \<^verbatim>\<open>df.loc[(node,) + dims, col]\<close> read as one number.
  \<open>KeyError\<close> when there is no such row or column. With several rows under the key
  pandas returns a series instead of a number; the readers never produce such a table,
  and the model stops there with \<open>ValueError\<close>.
\<close>

definition loc_scalar :: "table \<Rightarrow> node \<Rightarrow> int list \<Rightarrow> string \<Rightarrow> error + cell" where
  "loc_scalar df n d col =
     (if \<not> has_column df col then Inl KeyError
      else (case filter (\<lambda>r. rnode r = n \<and> rdims r = d) (rows df) of
              [] \<Rightarrow> Inl KeyError
            | [r] \<Rightarrow> Inr (cell_at r col)
            | _ \<Rightarrow> Inl ValueError))"

section \<open>GraphFrame\<close>

record graphframe =
  graph :: graph
  dataframe :: table
  exc_metrics :: "string list"
  inc_metrics :: "string list"
  default_metric :: string
  metadata :: "(string \<times> string) list"

text \<open>
  \<^verbatim>\<open>GraphFrame.__init__\<close>. The checks for a missing graph or table are checks against
  \<^verbatim>\<open>None\<close>, which the types exclude.
\<close>

definition GraphFrame ::
  "graph \<Rightarrow> table \<Rightarrow> string list \<Rightarrow> string list \<Rightarrow> string \<Rightarrow> (string \<times> string) list
     \<Rightarrow> error + graphframe" where
  "GraphFrame g df exc inc dm md =
     (if ''node'' \<notin> set (index_names df) then Inl ValueError
      else Inr \<lparr>graph = g, dataframe = df, exc_metrics = exc, inc_metrics = inc,
                default_metric = dm, metadata = md\<rparr>)"

text \<open>\<^verbatim>\<open>GraphFrame.copy\<close>: the graph is shared, the table and the lists are copied.\<close>

definition copy_gf :: "graphframe \<Rightarrow> error + graphframe" where
  "copy_gf self = GraphFrame (graph self) (dataframe self) (exc_metrics self) (inc_metrics self)
                    (default_metric self) (metadata self)"

section \<open>Aggregation\<close>

text \<open>\<^verbatim>\<open>GraphFrame._init_sum_columns\<close>: the columns are copied before the lengths are compared.\<close>

definition init_sum_columns ::
  "string list \<Rightarrow> string list option \<Rightarrow> table \<Rightarrow> error + (string list \<times> table)" where
  "init_sum_columns cols out_columns df =
     (case out_columns of
        None \<Rightarrow> Inr (cols, df)
      | Some outs \<Rightarrow>
          (case foldE (\<lambda>(col, out). copy_column col out) (zip cols outs) df of
             Inl e \<Rightarrow> Inl e
           | Inr df' \<Rightarrow> if length cols \<noteq> length outs then Inl ValueError else Inr (outs, df')))"

text \<open>
  The body of the loop of \<^verbatim>\<open>GraphFrame.subtree_sum\<close> for one node: with a multi-level
  index once for each value of the other levels, otherwise once, and in both cases for
  each output column.
\<close>

definition sum_into_dims ::
  "(cell list \<Rightarrow> error + cell) \<Rightarrow> node \<Rightarrow> node list \<Rightarrow> int list \<Rightarrow> string \<Rightarrow> table \<Rightarrow> error + table" where
  "sum_into_dims func n ns d col df =
     (case loc_nodes_dims df ns d col of
        Inl e \<Rightarrow> Inl e
      | Inr cs \<Rightarrow> (case func cs of Inl e \<Rightarrow> Inl e | Inr v \<Rightarrow> Inr (set_loc_node_dims n d col v df)))"

definition sum_into ::
  "(cell list \<Rightarrow> error + cell) \<Rightarrow> node \<Rightarrow> node list \<Rightarrow> string \<Rightarrow> table \<Rightarrow> error + table" where
  "sum_into func n ns col df =
     (case loc_nodes df ns col of
        Inl e \<Rightarrow> Inl e
      | Inr cs \<Rightarrow> (case func cs of Inl e \<Rightarrow> Inl e | Inr v \<Rightarrow> Inr (set_loc_node n col v df)))"

definition subtree_sum_node ::
  "store \<Rightarrow> (cell list \<Rightarrow> error + cell) \<Rightarrow> string list \<Rightarrow> node \<Rightarrow> table \<Rightarrow> error + table" where
  "subtree_sum_node st func outs n df =
     (if kids st n = [] then Inr df
      else if is_multi_index df then
        (case node_dims df n outs of
           Inl e \<Rightarrow> Inl e
         | Inr ds \<Rightarrow>
             foldE (\<lambda>d. foldE (\<lambda>col. sum_into_dims func n (n # kids st n) d col) outs) ds df)
      else foldE (\<lambda>col. sum_into func n (n # kids st n) col) outs df)"

definition subtree_sum ::
  "store \<Rightarrow> graphframe \<Rightarrow> string list \<Rightarrow> string list option \<Rightarrow> (cell list \<Rightarrow> error + cell)
     \<Rightarrow> error + graphframe" where
  "subtree_sum st self cols out_columns func =
     (case init_sum_columns cols out_columns (dataframe self) of
        Inl e \<Rightarrow> Inl e
      | Inr (outs, df0) \<Rightarrow>
          (case traverse_graph st (graph self) True of
             Inl e \<Rightarrow> Inl e
           | Inr po \<Rightarrow>
               (case foldE (subtree_sum_node st func outs) po df0 of
                  Inl e \<Rightarrow> Inl e
                | Inr df \<Rightarrow> Inr (self\<lparr>dataframe := df\<rparr>))))"

text \<open>
  The body of the loop of \<^verbatim>\<open>GraphFrame.subgraph_sum\<close> on a general graph. With a
  single-level index the input columns are summed over the rows of the subgraph and
  the sums are stored in the output columns; with a multi-level index the output
  columns themselves are summed, as the source has it.
\<close>

definition subgraph_sum_node ::
  "store \<Rightarrow> (cell list \<Rightarrow> error + cell) \<Rightarrow> string list \<Rightarrow> string list \<Rightarrow> node \<Rightarrow> table
     \<Rightarrow> error + table" where
  "subgraph_sum_node st func cols outs n df =
     (case traverse_from st n of
        Inl e \<Rightarrow> Inl e
      | Inr subgraph_nodes \<Rightarrow>
          if is_multi_index df then
            (case node_dims df n outs of
               Inl e \<Rightarrow> Inl e
             | Inr ds \<Rightarrow>
                 foldE (\<lambda>d. foldE (\<lambda>col. sum_into_dims func n subgraph_nodes d col) outs) ds df)
          else
            (case mapE (\<lambda>col. case loc_nodes df subgraph_nodes col of
                                Inl e \<Rightarrow> Inl e | Inr cs \<Rightarrow> func cs) cols of
               Inl e \<Rightarrow> Inl e
             | Inr vs \<Rightarrow> Inr (fold (\<lambda>(out, v). set_loc_node n out v) (zip outs vs) df)))"

definition subgraph_sum ::
  "store \<Rightarrow> graphframe \<Rightarrow> string list \<Rightarrow> string list option \<Rightarrow> (cell list \<Rightarrow> error + cell)
     \<Rightarrow> error + graphframe" where
  "subgraph_sum st self cols out_columns func =
     (case is_tree st (graph self) of
        Inl e \<Rightarrow> Inl e
      | Inr True \<Rightarrow> subtree_sum st self cols out_columns func
      | Inr False \<Rightarrow>
          (case init_sum_columns cols out_columns (dataframe self) of
             Inl e \<Rightarrow> Inl e
           | Inr (outs, df0) \<Rightarrow>
               (case traverse_graph st (graph self) False of
                  Inl e \<Rightarrow> Inl e
                | Inr pre \<Rightarrow>
                    (case foldE (subgraph_sum_node st func cols outs) pre df0 of
                       Inl e \<Rightarrow> Inl e
                     | Inr df \<Rightarrow> Inr (self\<lparr>dataframe := df\<rparr>)))))"


section \<open>Exclusive and inclusive columns\<close>

text \<open>
  Python's \<^verbatim>\<open>str.endswith\<close> and \<^verbatim>\<open>str.strip\<close>. A string is a list of characters with
  code points below 256. \<^verbatim>\<open>str.strip\<close> removes the characters for which \<^verbatim>\<open>str.isspace\<close>
  holds; below 256 these are the space, the control characters 0x09 to 0x0D and 0x1C to
  0x1F, the next-line character 0x85 and the no-break space 0xA0.
\<close>

definition endswith :: "string \<Rightarrow> string \<Rightarrow> bool" where
  "endswith s suf = (length suf \<le> length s \<and> drop (length s - length suf) s = suf)"

definition is_space :: "char \<Rightarrow> bool" where
  "is_space c = (c \<in> set [CHR '' '', CHR 0x09, CHR 0x0A, CHR 0x0B, CHR 0x0C, CHR 0x0D,
                          CHR 0x1C, CHR 0x1D, CHR 0x1E, CHR 0x1F, CHR 0x85, CHR 0xA0])"

definition strip :: "string \<Rightarrow> string" where
  "strip s = rev (dropWhile is_space (rev (dropWhile is_space s)))"

text \<open>\<^verbatim>\<open>s[: -len(suf)]\<close> for a suffix of five characters.\<close>

definition chop5 :: "string \<Rightarrow> string" where
  "chop5 s = take (length s - 5) s"

text \<open>
  The name of the inclusive column that \<^verbatim>\<open>update_inclusive_columns\<close> derives from the
  name of an exclusive column. Column names are strings here; the source also accepts
  tuples of strings and then renames their last component in the same way.
\<close>

definition inc_name :: "string \<Rightarrow> string" where
  "inc_name exc = (if endswith exc ''(exc)'' then strip (chop5 exc) else exc @ '' (inc)'')"

text \<open>\<^verbatim>\<open>pd.api.types.is_numeric_dtype(df[col])\<close>: no cell of the column is a text.\<close>

definition is_numeric_column :: "table \<Rightarrow> string \<Rightarrow> bool" where
  "is_numeric_column df col = list_all (\<lambda>r. case cell_at r col of Txt s \<Rightarrow> False | _ \<Rightarrow> True) (rows df)"

text \<open>
  The first loop of \<^verbatim>\<open>generate_exclusive_columns\<close>: the pairs (new exclusive column,
  inclusive column) to generate.
\<close>

fun generation_pairs :: "table \<Rightarrow> string list \<Rightarrow> string list \<Rightarrow> error + (string \<times> string) list" where
  "generation_pairs df exc [] = Inr []"
| "generation_pairs df exc (inc # incs) =
     (if \<not> has_column df inc then Inl KeyError
      else (case generation_pairs df exc incs of
              Inl e \<Rightarrow> Inl e
            | Inr ps \<Rightarrow>
                if \<not> is_numeric_column df inc then Inr ps
                else if endswith inc ''(inc)'' then
                  (if strip (chop5 inc) \<notin> set exc then Inr ((strip (chop5 inc), inc) # ps)
                   else Inr ps)
                else Inr ((inc @ '' (exc)'', inc) # ps)))"

text \<open>
  The sum of the children's inclusive values, starting from the integer 0, and the
  exclusive value of one row.
\<close>

definition children_inc_sum :: "table \<Rightarrow> node list \<Rightarrow> int list \<Rightarrow> string \<Rightarrow> error + cell" where
  "children_inc_sum df cs d inc =
     foldE (\<lambda>child inc_sum. case loc_scalar df child d inc of
                               Inl e \<Rightarrow> Inl e | Inr v \<Rightarrow> cell_add inc_sum v) cs (Num 0)"

definition exclusive_value :: "store \<Rightarrow> table \<Rightarrow> node \<Rightarrow> int list \<Rightarrow> string \<Rightarrow> error + cell" where
  "exclusive_value st df n d inc =
     (case children_inc_sum df (kids st n) d inc of
        Inl e \<Rightarrow> Inl e
      | Inr inc_sum \<Rightarrow>
          (case loc_scalar df n d inc of Inl e \<Rightarrow> Inl e | Inr v \<Rightarrow> cell_sub v inc_sum))"

text \<open>
  The dictionary \<^verbatim>\<open>new_data\<close> of one generated column, keyed by node and other levels.
  With a single-level index every row starts at \<open>-1\<close>; with a multi-level index a row
  that the loop does not reach gets NaN.
\<close>

type_synonym new_data = "((node \<times> int list) \<times> cell) list"

definition new_data_node ::
  "store \<Rightarrow> table \<Rightarrow> string \<Rightarrow> node \<Rightarrow> new_data \<Rightarrow> error + new_data" where
  "new_data_node st df inc n nd =
     (if is_multi_index df then
        (if \<not> has_node df n then Inl KeyError
         else foldE (\<lambda>d nd. case exclusive_value st df n d inc of
                              Inl e \<Rightarrow> Inl e
                            | Inr v \<Rightarrow> Inr (AList.update (n, d) v nd))
                (remdups (map rdims (filter (\<lambda>r. rnode r = n) (rows df)))) nd)
      else (case exclusive_value st df n [] inc of
              Inl e \<Rightarrow> Inl e
            | Inr v \<Rightarrow> Inr (AList.update (n, []) v nd)))"

definition assign_column :: "string \<Rightarrow> new_data \<Rightarrow> table \<Rightarrow> table" where
  "assign_column col nd df =
     df\<lparr>columns := (if has_column df col then columns df else columns df @ [col]),
        rows := map (\<lambda>r. set_cell col (case map_of nd (rnode r, rdims r) of
                                          None \<Rightarrow> NaN | Some v \<Rightarrow> v) r) (rows df)\<rparr>"

definition generate_column :: "store \<Rightarrow> node list \<Rightarrow> string \<times> string \<Rightarrow> table \<Rightarrow> error + table" where
  "generate_column st pre p df =
     (case foldE (new_data_node st df (snd p)) pre
             (if is_multi_index df then []
              else map (\<lambda>r. ((rnode r, []), Num (- 1))) (rows df)) of
        Inl e \<Rightarrow> Inl e
      | Inr nd \<Rightarrow> Inr (assign_column (fst p) nd df))"

text \<open>
  \<^verbatim>\<open>GraphFrame.generate_exclusive_columns\<close>. The list of exclusive metrics goes through a
  Python set at the end, which removes duplicates and leaves the order open; the model
  keeps the order of first occurrence.
\<close>

definition generate_exclusive_columns :: "store \<Rightarrow> graphframe \<Rightarrow> error + graphframe" where
  "generate_exclusive_columns st self =
     (case generation_pairs (dataframe self) (exc_metrics self) (inc_metrics self) of
        Inl e \<Rightarrow> Inl e
      | Inr ps \<Rightarrow>
          (case (if ps = [] then Inr [] else traverse_graph st (graph self) False) of
             Inl e \<Rightarrow> Inl e
           | Inr pre \<Rightarrow>
               (case foldE (generate_column st pre) ps (dataframe self) of
                  Inl e \<Rightarrow> Inl e
                | Inr df \<Rightarrow>
                    Inr (self\<lparr>dataframe := df,
                              exc_metrics := remdups (exc_metrics self @ map fst ps)\<rparr>))))"

text \<open>
  \<^verbatim>\<open>GraphFrame.update_inclusive_columns\<close>, with the default function of
  \<^verbatim>\<open>subgraph_sum\<close>. The final list of inclusive metrics goes through a Python set as well.
\<close>

definition update_inclusive_columns :: "store \<Rightarrow> graphframe \<Rightarrow> error + graphframe" where
  "update_inclusive_columns st self =
     (if exc_metrics self = [] then Inr self
      else (case subgraph_sum st (self\<lparr>inc_metrics := map inc_name (exc_metrics self)\<rparr>)
                   (exc_metrics self) (Some (map inc_name (exc_metrics self))) sum_min_count1 of
              Inl e \<Rightarrow> Inl e
            | Inr self' \<Rightarrow>
                Inr (self'\<lparr>inc_metrics :=
                            remdups (map inc_name (exc_metrics self) @ inc_metrics self)\<rparr>)))"


section \<open>Squash\<close>

text \<open>
  Modelled from the spec: \<^verbatim>\<open>Node.copy\<close>, \<^verbatim>\<open>Node.add_child\<close> and \<^verbatim>\<open>Node.add_parent\<close>.
  A copy is a new node object with the frame of the old one and no parents or children;
  \<^verbatim>\<open>squash\<close> then gives it the old node's \<^verbatim>\<open>_hatchet_nid\<close>.
\<close>

definition node_copy :: "node_obj \<Rightarrow> node_obj" where
  "node_copy ob = \<lparr>frame = frame ob, parents = [], children = [], hatchet_nid = -1\<rparr>"

definition add_child :: "node \<Rightarrow> node \<Rightarrow> store \<Rightarrow> store" where
  "add_child p c st = (if p < length st then st[p := (st ! p)\<lparr>children := children (st ! p) @ [c]\<rparr>] else st)"

definition add_parent :: "node \<Rightarrow> node \<Rightarrow> store \<Rightarrow> store" where
  "add_parent c p st = (if c < length st then st[c := (st ! c)\<lparr>parents := parents (st ! c) @ [p]\<rparr>] else st)"

text \<open>
  The dictionary \<^verbatim>\<open>old_to_new\<close>: one new node for each node of the table. The nodes of
  the table are taken in the order of their first row (the source iterates a Python
  set), and the new node objects are appended to the store.
\<close>

definition table_nodes :: "table \<Rightarrow> node list" where
  "table_nodes df = remdups (map rnode (rows df))"

definition clone_nodes :: "store \<Rightarrow> node list \<Rightarrow> store \<times> (node \<times> node) list" where
  "clone_nodes st ns =
     (st @ map (\<lambda>n. (node_copy (obj st n))\<lparr>hatchet_nid := hatchet_nid (obj st n)\<rparr>) ns,
      zip ns [length st ..< length st + length ns])"

text \<open>
  The state that the nested function \<^verbatim>\<open>rewire\<close> shares with \<^verbatim>\<open>squash\<close>: the node
  objects, the dictionary \<^verbatim>\<open>connections\<close> (a missing key reads as the empty set), the list
  \<^verbatim>\<open>new_roots\<close> and the set \<^verbatim>\<open>visited\<close>. Python sets are lists without duplicates
  here, in the order of insertion.
\<close>

record rstate =
  rnodes :: store
  connections :: "(node \<times> node list) list"
  new_roots :: "node list"
  visited :: "node list"

definition conn_of :: "rstate \<Rightarrow> node \<Rightarrow> node list" where
  "conn_of s n = (case map_of (connections s) n of None \<Rightarrow> [] | Some c \<Rightarrow> c)"

definition set_union :: "node list \<Rightarrow> node list \<Rightarrow> node list" where
  "set_union xs ys = xs @ filter (\<lambda>y. y \<notin> set xs) (remdups ys)"

text \<open>The body of the first loop of \<^verbatim>\<open>rewire\<close>, for one node \<open>n\<close> of \<^verbatim>\<open>connections[node]\<close>.\<close>

definition connect :: "node option \<Rightarrow> node \<Rightarrow> rstate \<Rightarrow> rstate" where
  "connect new_parent n s =
     (case new_parent of
        Some p \<Rightarrow>
          if n \<notin> set (kids (rnodes s) p)
          then s\<lparr>rnodes := add_parent n p (add_child p n (rnodes s))\<rparr>
          else s
      | None \<Rightarrow> if n \<notin> set (new_roots s) then s\<lparr>new_roots := new_roots s @ [n]\<rparr> else s)"

text \<open>
  \<^verbatim>\<open>rewire(node, new_parent, visited)\<close>; the first argument bounds the depth of the
  recursion. It returns the set of new nodes to connect in place of \<open>node\<close>.
\<close>

fun rewire :: "nat \<Rightarrow> (node \<times> node) list \<Rightarrow> node \<Rightarrow> node option \<Rightarrow> rstate \<Rightarrow> (node list \<times> rstate) option"
  and rewire_children ::
    "nat \<Rightarrow> (node \<times> node) list \<Rightarrow> node list \<Rightarrow> node option \<Rightarrow> rstate \<Rightarrow> (node list \<times> rstate) option" where
  "rewire 0 old_to_new n new_parent s = None"
| "rewire (Suc k) old_to_new n new_parent s =
     (case (if n \<in> set (visited (fold (connect new_parent) (conn_of s n) s))
            then Some ([], fold (connect new_parent) (conn_of s n) s)
            else rewire_children k old_to_new (kids (rnodes s) n)
                   (case map_of old_to_new n of Some new_node \<Rightarrow> Some new_node | None \<Rightarrow> new_parent)
                   ((fold (connect new_parent) (conn_of s n) s)
                      \<lparr>visited := n # visited (fold (connect new_parent) (conn_of s n) s)\<rparr>)) of
        None \<Rightarrow> None
      | Some (transitive, s') \<Rightarrow>
          (case map_of old_to_new n of
             Some new_node \<Rightarrow> Some ([new_node], s')
           | None \<Rightarrow>
               Some (set_union (conn_of s' n) transitive,
                     s'\<lparr>connections :=
                          AList.update n (set_union (conn_of s' n) transitive) (connections s')\<rparr>)))"
| "rewire_children k old_to_new [] new_parent s = Some ([], s)"
| "rewire_children k old_to_new (c # cs) new_parent s =
     (case rewire k old_to_new c new_parent s of
        None \<Rightarrow> None
      | Some (t, s') \<Rightarrow>
          (case rewire_children k old_to_new cs new_parent s' of
             None \<Rightarrow> None
           | Some (ts, s'') \<Rightarrow> Some (set_union t ts, s'')))"

text \<open>The loop over the roots of the old graph; every root is rewired with no new parent.\<close>

fun rewire_roots :: "nat \<Rightarrow> (node \<times> node) list \<Rightarrow> node list \<Rightarrow> rstate \<Rightarrow> rstate option" where
  "rewire_roots k old_to_new [] s = Some s"
| "rewire_roots k old_to_new (r # rs) s =
     (case rewire k old_to_new r None s of
        None \<Rightarrow> None
      | Some (t, s') \<Rightarrow> rewire_roots k old_to_new rs s')"

text \<open>
  Modelled from the spec: \<^verbatim>\<open>Graph.enumerate_traverse\<close> assigns dense increasing
  \<^verbatim>\<open>_hatchet_nid\<close>s in the order of the pre-order traversal.
\<close>

definition set_nid :: "node \<Rightarrow> int \<Rightarrow> store \<Rightarrow> store" where
  "set_nid n i st = (if n < length st then st[n := (st ! n)\<lparr>hatchet_nid := i\<rparr>] else st)"

definition enumerate_traverse :: "store \<Rightarrow> graph \<Rightarrow> error + store" where
  "enumerate_traverse st g =
     (case traverse_graph st g False of
        Inl e \<Rightarrow> Inl e
      | Inr pre \<Rightarrow> Inr (fold (\<lambda>(n, i). set_nid n (int i)) (zip pre [0 ..< length pre]) st))"

text \<open>
  The aggregation of the rows that carry the same index key: a metric column is summed
  with \<^verbatim>\<open>sum(min_count=1)\<close>, any other column takes the cell of the first row of the
  group (\<^verbatim>\<open>x.iloc[0]\<close>). The groups come out sorted by key, nodes by \<^verbatim>\<open>_hatchet_nid\<close>.
\<close>

definition row_key :: "row \<Rightarrow> node \<times> int list" where
  "row_key r = (rnode r, rdims r)"

definition group_rows :: "table \<Rightarrow> node \<times> int list \<Rightarrow> row list" where
  "group_rows df k = filter (\<lambda>r. row_key r = k) (rows df)"

definition agg_cell :: "string list \<Rightarrow> row list \<Rightarrow> string \<Rightarrow> error + cell" where
  "agg_cell metrics grp col =
     (if col \<in> set metrics then sum_min_count1 (map (\<lambda>r. cell_at r col) grp)
      else (case grp of [] \<Rightarrow> Inl KeyError | r # _ \<Rightarrow> Inr (cell_at r col)))"

definition agg_row :: "string list \<Rightarrow> table \<Rightarrow> node \<times> int list \<Rightarrow> error + row" where
  "agg_row metrics df k =
     (case mapE (agg_cell metrics (group_rows df k)) (columns df) of
        Inl e \<Rightarrow> Inl e
      | Inr vs \<Rightarrow> Inr \<lparr>rnode = fst k, rdims = snd k, rcells = zip (columns df) vs\<rparr>)"

definition sorted_keys :: "store \<Rightarrow> table \<Rightarrow> (node \<times> int list) list" where
  "sorted_keys st df =
     sort_key (\<lambda>k. (hatchet_nid (obj st (fst k)), snd k)) (remdups (map row_key (rows df)))"

definition groupby_agg :: "store \<Rightarrow> string list \<Rightarrow> table \<Rightarrow> error + table" where
  "groupby_agg st metrics df =
     (case mapE (agg_row metrics df) (sorted_keys st df) of
        Inl e \<Rightarrow> Inl e
      | Inr rs \<Rightarrow> Inr (df\<lparr>rows := rs\<rparr>))"

definition remap_nodes :: "(node \<Rightarrow> node) \<Rightarrow> table \<Rightarrow> table" where
  "remap_nodes f df = df\<lparr>rows := map (\<lambda>r. r\<lparr>rnode := f (rnode r)\<rparr>) (rows df)\<rparr>"

definition lookup_or :: "(node \<times> node) list \<Rightarrow> node \<Rightarrow> node" where
  "lookup_or m n = (case map_of m n of None \<Rightarrow> n | Some n' \<Rightarrow> n')"

text \<open>
  \<^verbatim>\<open>GraphFrame.squash\<close>, in the stages of the source. \<^verbatim>\<open>Graph.normalize\<close> is not
  among the sources and is the argument \<open>graph_normalize\<close>: it takes the node objects
  and the new graph and returns the node objects and the graph after the merge of the
  nodes with identical frames, together with the dictionary of the merges (removed
  node to kept node).

  First the new nodes are made and connected by \<^verbatim>\<open>rewire\<close>.
\<close>

definition squash_rewire :: "world \<Rightarrow> graphframe \<Rightarrow> error + ((node \<times> node) list \<times> rstate)" where
  "squash_rewire w self =
     (case clone_nodes (nodes w) (table_nodes (dataframe self)) of
        (st0, old_to_new) \<Rightarrow>
          (case rewire_roots (depth_bound (nodes w)) old_to_new (roots (graph self))
                  \<lparr>rnodes = st0, connections = map (\<lambda>(k, v). (k, [v])) old_to_new,
                   new_roots = [], visited = []\<rparr> of
             None \<Rightarrow> Inl RecursionError
           | Some s \<Rightarrow> Inr (old_to_new, s)))"

text \<open>
  Then the new graph is made of the new roots, enumerated and normalized. The result
  is the node objects, the new graph, \<^verbatim>\<open>old_to_new\<close> and the merges.
\<close>

definition squash_graph ::
  "(store \<Rightarrow> graph \<Rightarrow> store \<times> graph \<times> (node \<times> node) list) \<Rightarrow> world \<Rightarrow> graphframe
     \<Rightarrow> error + (store \<times> graph \<times> (node \<times> node) list \<times> (node \<times> node) list)" where
  "squash_graph graph_normalize w self =
     (case squash_rewire w self of
        Inl e \<Rightarrow> Inl e
      | Inr (old_to_new, s) \<Rightarrow>
          (case enumerate_traverse (rnodes s) \<lparr>gid = next_gid w, roots = new_roots s\<rparr> of
             Inl e \<Rightarrow> Inl e
           | Inr st1 \<Rightarrow>
               (case graph_normalize st1 \<lparr>gid = next_gid w, roots = new_roots s\<rparr> of
                  (st2, g, merges) \<Rightarrow> Inr (st2, g, old_to_new, merges))))"

text \<open>
  The table whose rows carry the node on which they land: the new node of the row's
  node, or the node into which that new node was merged.
\<close>

definition landed_table :: "(node \<times> node) list \<Rightarrow> (node \<times> node) list \<Rightarrow> table \<Rightarrow> table" where
  "landed_table old_to_new merges df =
     remap_nodes (lookup_or merges) (remap_nodes (lookup_or old_to_new) df)"

text \<open>
  The rows are aggregated, the new GraphFrame is made, and its inclusive columns are
  updated if asked for. The result is the world after the call and the new GraphFrame;
  the receiver is not changed (its table is re-indexed in place and indexed again as
  before).
\<close>

definition squash ::
  "(store \<Rightarrow> graph \<Rightarrow> store \<times> graph \<times> (node \<times> node) list) \<Rightarrow> world \<Rightarrow> graphframe \<Rightarrow> bool
     \<Rightarrow> error + (world \<times> graphframe)" where
  "squash graph_normalize w self update_inc_cols =
     (case squash_graph graph_normalize w self of
        Inl e \<Rightarrow> Inl e
      | Inr (st2, g, old_to_new, merges) \<Rightarrow>
          (case groupby_agg st2 (exc_metrics self @ inc_metrics self)
                  (landed_table old_to_new merges (dataframe self)) of
             Inl e \<Rightarrow> Inl e
           | Inr agg_df \<Rightarrow>
               (case GraphFrame g agg_df (exc_metrics self) (inc_metrics self)
                       (default_metric self) (metadata self) of
                  Inl e \<Rightarrow> Inl e
                | Inr new_gf \<Rightarrow>
                    if update_inc_cols then
                      (case update_inclusive_columns st2 new_gf of
                         Inl e \<Rightarrow> Inl e
                       | Inr new_gf' \<Rightarrow>
                           Inr (\<lparr>nodes = st2, next_gid = Suc (next_gid w)\<rparr>, new_gf'))
                    else Inr (\<lparr>nodes = st2, next_gid = Suc (next_gid w)\<rparr>, new_gf))))"

subsection \<open>Normalization\<close>

text \<open>
  Modelled from the spec: \<^verbatim>\<open>Graph.normalize\<close> merges sibling nodes that carry identical
  frames and returns the dictionary of the merges, removed node to kept node. Two
  roots, or two children of one node, with the same frame are merged into the one that
  comes first: the removed node is replaced by the kept node in every list of parents
  and children and in the roots, and the kept node takes over its parents and
  children. This is repeated until no two siblings share a frame.
\<close>

fun first_dup :: "store \<Rightarrow> node list \<Rightarrow> (node \<times> node) option" where
  "first_dup st [] = None"
| "first_dup st (a # xs) =
     (case filter (\<lambda>b. b \<noteq> a \<and> frame (obj st b) = frame (obj st a)) xs of
        [] \<Rightarrow> first_dup st xs
      | b # _ \<Rightarrow> Some (a, b))"

fun first_merge :: "store \<Rightarrow> node list list \<Rightarrow> (node \<times> node) option" where
  "first_merge st [] = None"
| "first_merge st (xs # xss) =
     (case first_dup st xs of None \<Rightarrow> first_merge st xss | Some p \<Rightarrow> Some p)"

definition find_merge :: "store \<Rightarrow> graph \<Rightarrow> (node \<times> node) option" where
  "find_merge st g =
     (case traverse_graph st g False of
        Inl e \<Rightarrow> None
      | Inr pre \<Rightarrow> first_merge st (roots g # map (kids st) pre))"

definition subst_node :: "node \<Rightarrow> node \<Rightarrow> node list \<Rightarrow> node list" where
  "subst_node b a xs = remdups (map (\<lambda>x. if x = b then a else x) xs)"

definition merge_nodes :: "node \<Rightarrow> node \<Rightarrow> store \<Rightarrow> store" where
  "merge_nodes a b st =
     (map (\<lambda>ob. ob\<lparr>parents := subst_node b a (parents ob),
                    children := subst_node b a (children ob)\<rparr>) st)
       [a := (obj st a)\<lparr>parents := subst_node b a (parents (obj st a) @ parents (obj st b)),
                        children := subst_node b a (children (obj st a) @ children (obj st b))\<rparr>]"

fun normalize_loop ::
  "nat \<Rightarrow> store \<Rightarrow> graph \<Rightarrow> (node \<times> node) list \<Rightarrow> store \<times> graph \<times> (node \<times> node) list" where
  "normalize_loop 0 st g m = (st, g, m)"
| "normalize_loop (Suc k) st g m =
     (case find_merge st g of
        None \<Rightarrow> (st, g, m)
      | Some (a, b) \<Rightarrow>
          normalize_loop k (merge_nodes a b st) (g\<lparr>roots := subst_node b a (roots g)\<rparr>)
            ((b, a) # map (\<lambda>(x, y). (x, if y = b then a else y)) m))"

definition normalize_graph :: "store \<Rightarrow> graph \<Rightarrow> store \<times> graph \<times> (node \<times> node) list" where
  "normalize_graph st g = normalize_loop (length st) st g []"

section \<open>Filter\<close>

text \<open>
  The argument of \<^verbatim>\<open>filter\<close>: a callable on rows, a call-path query in one of its
  forms (a list, a string or a query object, which the query engine resolves), or
  anything else.
\<close>

datatype 'q filter_obj = Callable "row \<Rightarrow> bool" | Query 'q | NotAFilter

text \<open>\<^verbatim>\<open>np.array_split\<close>: the first \<open>len mod n\<close> parts have one element more.\<close>

definition array_split :: "'a list \<Rightarrow> nat \<Rightarrow> 'a list list" where
  "array_split xs n =
     map (\<lambda>i. take (length xs div n + (if i < length xs mod n then 1 else 0))
                (drop (i * (length xs div n) + min i (length xs mod n)) xs)) [0 ..< n]"

definition parallel_apply :: "(row \<Rightarrow> bool) \<Rightarrow> row list \<Rightarrow> row list" where
  "parallel_apply filter_function rs = filter filter_function rs"

text \<open>
  The rows that pass the filter. With more than one process the table is split, each
  part is filtered by its own process, and the parts are concatenated in the order in
  which they arrive on the queue; \<open>arrival\<close> lists the process numbers in that order.
  The query engine is the argument \<open>query_apply\<close>.
\<close>

definition filtered_rows ::
  "('q \<Rightarrow> graph \<Rightarrow> table \<Rightarrow> node list) \<Rightarrow> graphframe \<Rightarrow> 'q filter_obj \<Rightarrow> nat \<Rightarrow> nat list
     \<Rightarrow> error + row list" where
  "filtered_rows query_apply self filter_obj num_procs arrival =
     (case filter_obj of
        Callable f \<Rightarrow>
          if num_procs > 1 then
            Inr (concat (map (\<lambda>pid. if pid < num_procs
                                     then parallel_apply f (array_split (rows (dataframe self)) num_procs ! pid)
                                     else []) arrival))
          else Inr (filter f (rows (dataframe self)))
      | Query q \<Rightarrow>
          Inr (filter (\<lambda>r. rnode r \<in> set (query_apply q (graph self) (dataframe self)))
                 (rows (dataframe self)))
      | NotAFilter \<Rightarrow> Inl InvalidFilter)"

text \<open>
  \<^verbatim>\<open>GraphFrame.filter\<close>. The result is the world after the call, the receiver after the
  call and the GraphFrame that is returned.
\<close>

definition filter_gf ::
  "(store \<Rightarrow> graph \<Rightarrow> store \<times> graph \<times> (node \<times> node) list)
     \<Rightarrow> ('q \<Rightarrow> graph \<Rightarrow> table \<Rightarrow> node list) \<Rightarrow> world \<Rightarrow> graphframe \<Rightarrow> 'q filter_obj
     \<Rightarrow> bool \<Rightarrow> bool \<Rightarrow> nat \<Rightarrow> nat list \<Rightarrow> error + (world \<times> graphframe \<times> graphframe)" where
  "filter_gf graph_normalize query_apply w self filter_obj squash_flag update_inc_cols num_procs arrival =
     (case filtered_rows query_apply self filter_obj num_procs arrival of
        Inl e \<Rightarrow> Inl e
      | Inr rs \<Rightarrow>
          if rs = [] then Inl EmptyFilter
          else (case GraphFrame (graph self) ((dataframe self)\<lparr>rows := rs\<rparr>) [] [] ''time'' [] of
                  Inl e \<Rightarrow> Inl e
                | Inr filtered_gf \<Rightarrow>
                    if squash_flag then
                      (case squash graph_normalize w
                              (filtered_gf\<lparr>exc_metrics := exc_metrics self,
                                           inc_metrics := inc_metrics self,
                                           default_metric := default_metric self,
                                           metadata := metadata self\<rparr>) update_inc_cols of
                         Inl e \<Rightarrow> Inl e
                       | Inr (w', new_gf) \<Rightarrow> Inr (w', self, new_gf))
                    else Inr (w, self,
                              filtered_gf\<lparr>exc_metrics := exc_metrics self,
                                          inc_metrics := inc_metrics self,
                                          default_metric := default_metric self,
                                          metadata := metadata self\<rparr>)))"


section \<open>Unify\<close>

text \<open>The union of the metric names of both operands (a Python set in the source).\<close>

definition all_metrics :: "graphframe \<Rightarrow> graphframe \<Rightarrow> string list" where
  "all_metrics self other =
     remdups (exc_metrics self @ inc_metrics self @ exc_metrics other @ inc_metrics other)"

text \<open>
  Modelled from the spec: \<^verbatim>\<open>fast_not_isin\<close> and \<^verbatim>\<open>insert_one_for_self_nodes\<close> of the
  compiled module \<^verbatim>\<open>graphframe_modules\<close>, which is not among the sources. The first is
  the hash-based set difference: for the rows of one table, whether the node of the row
  has no row in the other table; a node is identified by its hash. The second adds 1
  to the missing-node indicator of the rows it is given.
\<close>

definition fast_not_isin :: "row list \<Rightarrow> row list \<Rightarrow> bool list" where
  "fast_not_isin xs ys = map (\<lambda>r. rnode r \<notin> set (map rnode ys)) xs"

definition insert_one_for_self_nodes :: "bool list \<Rightarrow> row list \<Rightarrow> row list" where
  "insert_one_for_self_nodes flags rs =
     map (\<lambda>(r, m). if m then set_cell ''_missing_node''
                               (case cell_at r ''_missing_node'' of Num x \<Rightarrow> Num (x + 1) | c \<Rightarrow> c) r
                     else r) (zip rs flags)"

text \<open>\<^verbatim>\<open>df[mask]\<close> with a boolean mask, and the assignment of one value to a whole column.\<close>

definition mask_rows :: "row list \<Rightarrow> bool list \<Rightarrow> row list" where
  "mask_rows rs flags = map fst (filter snd (zip rs flags))"

definition fill_column :: "string \<Rightarrow> cell \<Rightarrow> table \<Rightarrow> table" where
  "fill_column col v df =
     df\<lparr>columns := (if has_column df col then columns df else columns df @ [col]),
        rows := map (set_cell col v) (rows df)\<rparr>"

text \<open>
  \<^verbatim>\<open>pd.concat([df1, df2], axis=0, sort=True)\<close>: the rows of the second table follow the
  rows of the first; the columns are the union of the columns, sorted by name (also
  when both tables have the same columns). A cell that a table did not have reads as
  NaN.
\<close>

definition concat_tables :: "table \<Rightarrow> table \<Rightarrow> table" where
  "concat_tables df1 df2 =
     df1\<lparr>columns := sort (remdups (columns df1 @ columns df2)),
         rows := rows df1 @ rows df2\<rparr>"

text \<open>
  \<^verbatim>\<open>GraphFrame._insert_missing_rows\<close>: the rows of \<open>other\<close> whose node has no row in
  \<open>self\<close> are appended to the table of \<open>self\<close>, with NaN in every metric column and 2
  in the column \<^verbatim>\<open>_missing_node\<close>. The appended rows keep the values of the other index
  levels that they have in \<open>other\<close>.
\<close>

definition other_not_in_self :: "graphframe \<Rightarrow> graphframe \<Rightarrow> row list" where
  "other_not_in_self self other =
     mask_rows (rows (dataframe other))
       (fast_not_isin (rows (dataframe other)) (rows (dataframe self)))"

definition self_not_in_other :: "graphframe \<Rightarrow> graphframe \<Rightarrow> row list" where
  "self_not_in_other self other =
     mask_rows (rows (dataframe self))
       (fast_not_isin (rows (dataframe self)) (rows (dataframe other)))"

definition missing_rows_table :: "graphframe \<Rightarrow> graphframe \<Rightarrow> table" where
  "missing_rows_table self other =
     fold (\<lambda>j. fill_column j NaN) (all_metrics self other)
       (if other_not_in_self self other = []
        then (dataframe other)\<lparr>rows := []\<rparr>
        else fill_column ''_missing_node'' (Num 2)
               ((dataframe other)\<lparr>rows := other_not_in_self self other\<rparr>))"

definition marked_self_table :: "graphframe \<Rightarrow> graphframe \<Rightarrow> table" where
  "marked_self_table self other =
     (if self_not_in_other self other = [] \<and> other_not_in_self self other = []
      then dataframe self
      else if self_not_in_other self other = []
      then fill_column ''_missing_node'' (Num 0) (dataframe self)
      else (fill_column ''_missing_node'' (Num 0) (dataframe self))
             \<lparr>rows := insert_one_for_self_nodes
                        (fast_not_isin (rows (dataframe self)) (rows (dataframe other)))
                        (rows (fill_column ''_missing_node'' (Num 0) (dataframe self)))\<rparr>)"

definition insert_missing_rows :: "graphframe \<Rightarrow> graphframe \<Rightarrow> graphframe" where
  "insert_missing_rows self other =
     self\<lparr>dataframe := concat_tables (marked_self_table self other) (missing_rows_table self other)\<rparr>"

text \<open>\<^verbatim>\<open>df["node"].apply(lambda x: node_map[id(x)])\<close>: \<open>KeyError\<close> for a node that is not mapped.\<close>

definition remap_rows :: "(node \<times> node) list \<Rightarrow> row list \<Rightarrow> error + row list" where
  "remap_rows node_map rs =
     mapE (\<lambda>r. case map_of node_map (rnode r) of
                  None \<Rightarrow> Inl KeyError
                | Some n \<Rightarrow> Inr (r\<lparr>rnode := n\<rparr>)) rs"

text \<open>
  \<^verbatim>\<open>GraphFrame.unify\<close>. \<^verbatim>\<open>Graph.union\<close> is not among the sources and is the argument
  \<open>graph_union\<close>: from the world and the two graphs it gives the world that contains the
  merged graph, the merged graph, and the dictionary from every node of either graph to
  its node in the merged graph. The result is the world, \<open>self\<close> and \<open>other\<close> after the call.
\<close>

definition unify ::
  "(world \<Rightarrow> graph \<Rightarrow> graph \<Rightarrow> world \<times> graph \<times> (node \<times> node) list) \<Rightarrow> world
     \<Rightarrow> graphframe \<Rightarrow> graphframe \<Rightarrow> error + (world \<times> graphframe \<times> graphframe)" where
  "unify graph_union w self other =
     (if gid (graph self) = gid (graph other) then Inr (w, self, other)
      else (case graph_union w (graph self) (graph other) of
              (w', union_graph, node_map) \<Rightarrow>
                (case remap_rows node_map (rows (dataframe self)) of
                   Inl e \<Rightarrow> Inl e
                 | Inr srows \<Rightarrow>
                     (case remap_rows node_map (rows (dataframe other)) of
                        Inl e \<Rightarrow> Inl e
                      | Inr orows \<Rightarrow>
                          Inr (w',
                               (insert_missing_rows
                                  (self\<lparr>dataframe := (dataframe self)\<lparr>rows := srows\<rparr>\<rparr>)
                                  (other\<lparr>dataframe := (dataframe other)\<lparr>rows := orows\<rparr>\<rparr>))
                                 \<lparr>graph := union_graph\<rparr>,
                               other\<lparr>dataframe := (dataframe other)\<lparr>rows := orows\<rparr>,
                                     graph := union_graph\<rparr>)))))"

text \<open>A node belongs to a graph when the traversal of the graph yields it.\<close>

definition in_graph :: "store \<Rightarrow> graph \<Rightarrow> node \<Rightarrow> bool" where
  "in_graph st g n = (case traverse_graph st g False of Inl e \<Rightarrow> False | Inr ns \<Rightarrow> n \<in> set ns)"

section \<open>A concrete call graph\<close>

text \<open>
  The graph with root \<open>main\<close>, whose children are \<open>foo\<close> and \<open>bar\<close>, where \<open>foo\<close> has the
  child \<open>baz\<close>; the exclusive times are main 1, foo 1, bar 2 and baz 3. The node objects
  are at the addresses 0 (main), 1 (foo), 2 (bar) and 3 (baz).
\<close>

definition ex_nodes :: store where
  "ex_nodes =
     [\<lparr>frame = [(''name'', ''main'')], parents = [], children = [1, 2], hatchet_nid = 0\<rparr>,
      \<lparr>frame = [(''name'', ''foo'')], parents = [0], children = [3], hatchet_nid = 1\<rparr>,
      \<lparr>frame = [(''name'', ''bar'')], parents = [0], children = [], hatchet_nid = 3\<rparr>,
      \<lparr>frame = [(''name'', ''baz'')], parents = [1], children = [], hatchet_nid = 2\<rparr>]"

definition ex_world :: world where
  "ex_world = \<lparr>nodes = ex_nodes, next_gid = 1\<rparr>"

definition ex_graph :: graph where
  "ex_graph = \<lparr>gid = 0, roots = [0]\<rparr>"

definition ex_row :: "node \<Rightarrow> (string \<times> cell) list \<Rightarrow> row" where
  "ex_row n cs = \<lparr>rnode = n, rdims = [], rcells = cs\<rparr>"

definition ex_table :: table where
  "ex_table = \<lparr>index_names = [''node''], columns = [''time''],
                rows = [ex_row 0 [(''time'', Num 1)], ex_row 1 [(''time'', Num 1)],
                        ex_row 2 [(''time'', Num 2)], ex_row 3 [(''time'', Num 3)]]\<rparr>"

definition ex_gf :: graphframe where
  "ex_gf = \<lparr>graph = ex_graph, dataframe = ex_table, exc_metrics = [''time''], inc_metrics = [],
            default_metric = ''time'', metadata = []\<rparr>"

text \<open>The same GraphFrame after \<^verbatim>\<open>update_inclusive_columns\<close>.\<close>

definition ex_inc_table :: table where
  "ex_inc_table = \<lparr>index_names = [''node''], columns = [''time'', ''time (inc)''],
     rows = [ex_row 0 [(''time'', Num 1), (''time (inc)'', Num 7)],
             ex_row 1 [(''time'', Num 1), (''time (inc)'', Num 4)],
             ex_row 2 [(''time'', Num 2), (''time (inc)'', Num 2)],
             ex_row 3 [(''time'', Num 3), (''time (inc)'', Num 3)]]\<rparr>"

definition ex_inc_gf :: graphframe where
  "ex_inc_gf = \<lparr>graph = ex_graph, dataframe = ex_inc_table, exc_metrics = [''time''],
                inc_metrics = [''time (inc)''], default_metric = ''time'', metadata = []\<rparr>"

text \<open>A query engine that matches no node, and the predicate that keeps main and bar.\<close>

definition no_match :: "unit \<Rightarrow> graph \<Rightarrow> table \<Rightarrow> node list" where
  "no_match q g df = []"

definition main_or_bar :: "row \<Rightarrow> bool" where
  "main_or_bar r = (rnode r = 0 \<or> rnode r = 2)"


text \<open>The table after the filter that keeps main and bar, and the result of the squash.\<close>

definition ex_filtered_gf :: graphframe where
  "ex_filtered_gf = ex_inc_gf\<lparr>dataframe := ex_inc_table\<lparr>rows :=
      [ex_row 0 [(''time'', Num 1), (''time (inc)'', Num 7)],
       ex_row 2 [(''time'', Num 2), (''time (inc)'', Num 2)]]\<rparr>\<rparr>"

definition ex_squashed_nodes :: store where
  "ex_squashed_nodes = ex_nodes @
     [\<lparr>frame = [(''name'', ''main'')], parents = [], children = [5], hatchet_nid = 0\<rparr>,
      \<lparr>frame = [(''name'', ''bar'')], parents = [4], children = [], hatchet_nid = 1\<rparr>]"

definition ex_squashed_gf :: graphframe where
  "ex_squashed_gf = \<lparr>graph = \<lparr>gid = 1, roots = [4]\<rparr>,
     dataframe = \<lparr>index_names = [''node''], columns = [''time'', ''time (inc)''],
                  rows = [ex_row 4 [(''time'', Num 1), (''time (inc)'', Num 3)],
                          ex_row 5 [(''time'', Num 2), (''time (inc)'', Num 2)]]\<rparr>,
     exc_metrics = [''time''], inc_metrics = [''time (inc)''],
     default_metric = ''time'', metadata = []\<rparr>"

text \<open>
  A second graph: main has the children foo and bar, and each of them has one child with
  the frame \<open>work\<close> (addresses 3 and 4). The table has rows for main and for the two
  nodes \<open>work\<close>, so a squash merges these two.
\<close>

definition ex2_nodes :: store where
  "ex2_nodes =
     [\<lparr>frame = [(''name'', ''main'')], parents = [], children = [1, 2], hatchet_nid = 0\<rparr>,
      \<lparr>frame = [(''name'', ''foo'')], parents = [0], children = [3], hatchet_nid = 1\<rparr>,
      \<lparr>frame = [(''name'', ''bar'')], parents = [0], children = [4], hatchet_nid = 3\<rparr>,
      \<lparr>frame = [(''name'', ''work'')], parents = [1], children = [], hatchet_nid = 2\<rparr>,
      \<lparr>frame = [(''name'', ''work'')], parents = [2], children = [], hatchet_nid = 4\<rparr>]"

definition ex2_world :: world where
  "ex2_world = \<lparr>nodes = ex2_nodes, next_gid = 1\<rparr>"

definition ex2_gf :: graphframe where
  "ex2_gf = \<lparr>graph = \<lparr>gid = 0, roots = [0]\<rparr>,
     dataframe = \<lparr>index_names = [''node''], columns = [''time'', ''calls'', ''file''],
       rows = [ex_row 0 [(''time'', Num 1), (''calls'', Num 1), (''file'', Txt ''m.c'')],
               ex_row 4 [(''time'', NaN), (''calls'', Num 3), (''file'', Txt ''b.c'')],
               ex_row 3 [(''time'', NaN), (''calls'', Num 2), (''file'', Txt ''a.c'')]]\<rparr>,
     exc_metrics = [''time'', ''calls''], inc_metrics = [],
     default_metric = ''time'', metadata = []\<rparr>"

definition ex2_squashed_nodes :: store where
  "ex2_squashed_nodes = ex2_nodes @
     [\<lparr>frame = [(''name'', ''main'')], parents = [], children = [7], hatchet_nid = 0\<rparr>,
      \<lparr>frame = [(''name'', ''work'')], parents = [5], children = [], hatchet_nid = 2\<rparr>,
      \<lparr>frame = [(''name'', ''work'')], parents = [5], children = [], hatchet_nid = 1\<rparr>]"

definition ex2_squashed_gf :: graphframe where
  "ex2_squashed_gf = \<lparr>graph = \<lparr>gid = 1, roots = [5]\<rparr>,
     dataframe = \<lparr>index_names = [''node''], columns = [''time'', ''calls'', ''file''],
       rows = [ex_row 5 [(''time'', Num 1), (''calls'', Num 1), (''file'', Txt ''m.c'')],
               ex_row 7 [(''time'', NaN), (''calls'', Num 5), (''file'', Txt ''b.c'')]]\<rparr>,
     exc_metrics = [''time'', ''calls''], inc_metrics = [],
     default_metric = ''time'', metadata = []\<rparr>"

text \<open>
  The union of the graph of the first example with the graph of its squash (main
  \<open>\<rightarrow>\<close> bar, at the addresses 4 and 5), as \<^verbatim>\<open>Graph.union\<close> returns it: a new graph
  main \<open>\<rightarrow>\<close> foo, bar; foo \<open>\<rightarrow>\<close> baz at the addresses 6 to 9, and the dictionary from the
  nodes of both graphs to the new nodes.
\<close>

definition ex_squashed_world :: world where
  "ex_squashed_world = \<lparr>nodes = ex_squashed_nodes, next_gid = 2\<rparr>"

definition ex_union_nodes :: store where
  "ex_union_nodes = ex_squashed_nodes @
     [\<lparr>frame = [(''name'', ''main'')], parents = [], children = [7, 8], hatchet_nid = 0\<rparr>,
      \<lparr>frame = [(''name'', ''foo'')], parents = [6], children = [9], hatchet_nid = 1\<rparr>,
      \<lparr>frame = [(''name'', ''bar'')], parents = [6], children = [], hatchet_nid = 3\<rparr>,
      \<lparr>frame = [(''name'', ''baz'')], parents = [7], children = [], hatchet_nid = 2\<rparr>]"

definition ex_union_world :: world where
  "ex_union_world = \<lparr>nodes = ex_union_nodes, next_gid = 3\<rparr>"

definition ex_union_graph :: graph where
  "ex_union_graph = \<lparr>gid = 2, roots = [6]\<rparr>"

definition ex_node_map :: "(node \<times> node) list" where
  "ex_node_map = [(0, 6), (1, 7), (2, 8), (3, 9), (4, 6), (5, 8)]"

definition ex_union :: "world \<Rightarrow> graph \<Rightarrow> graph \<Rightarrow> world \<times> graph \<times> (node \<times> node) list" where
  "ex_union w g h = (ex_union_world, ex_union_graph, ex_node_map)"

text \<open>The squashed GraphFrame and the first GraphFrame after they were unified.\<close>

definition ex_unified_self :: graphframe where
  "ex_unified_self = \<lparr>graph = ex_union_graph,
     dataframe = \<lparr>index_names = [''node''], columns = [''_missing_node'', ''time'', ''time (inc)''],
       rows = [ex_row 6 [(''time'', Num 1), (''time (inc)'', Num 3), (''_missing_node'', Num 0)],
               ex_row 8 [(''time'', Num 2), (''time (inc)'', Num 2), (''_missing_node'', Num 0)],
               ex_row 7 [(''time'', NaN), (''time (inc)'', NaN), (''_missing_node'', Num 2)],
               ex_row 9 [(''time'', NaN), (''time (inc)'', NaN), (''_missing_node'', Num 2)]]\<rparr>,
     exc_metrics = [''time''], inc_metrics = [''time (inc)''],
     default_metric = ''time'', metadata = []\<rparr>"

definition ex_unified_other :: graphframe where
  "ex_unified_other = \<lparr>graph = ex_union_graph,
     dataframe = \<lparr>index_names = [''node''], columns = [''time'', ''time (inc)''],
       rows = [ex_row 6 [(''time'', Num 1), (''time (inc)'', Num 7)],
               ex_row 7 [(''time'', Num 1), (''time (inc)'', Num 4)],
               ex_row 8 [(''time'', Num 2), (''time (inc)'', Num 2)],
               ex_row 9 [(''time'', Num 3), (''time (inc)'', Num 3)]]\<rparr>,
     exc_metrics = [''time''], inc_metrics = [''time (inc)''],
     default_metric = ''time'', metadata = []\<rparr>"

section \<open>Relations between tables\<close>

text \<open>
  A list of nodes in which every node comes after all of its children, as in a
  post-order.
\<close>

definition children_first :: "store \<Rightarrow> node list \<Rightarrow> bool" where
  "children_first st xs = (\<forall>i < length xs. set (kids st (xs ! i)) \<subseteq> set (take i xs))"

text \<open>
  The rows that the sums of a node read: the rows of the node and of its children. With
  a multi-level index these are the rows with the given values of the other levels, in
  the order of the table; with a single-level index they are the rows of each label, in
  the order of the labels.
\<close>

definition family_rows :: "bool \<Rightarrow> node list \<Rightarrow> int list \<Rightarrow> row list \<Rightarrow> row list" where
  "family_rows multi ns d rs =
     (if multi then filter (\<lambda>r. rnode r \<in> set ns \<and> rdims r = d) rs
      else concat (map (\<lambda>n. filter (\<lambda>r. rnode r = n) rs) ns))"

text \<open>
  One assignment of the loop body of \<^verbatim>\<open>subtree_sum\<close>, for one value of the other
  levels and one column, the key under which a row is written by it, and the row after
  the assignment.
\<close>

definition write_task ::
  "bool \<Rightarrow> (cell list \<Rightarrow> error + cell) \<Rightarrow> node \<Rightarrow> node list \<Rightarrow> int list \<times> string \<Rightarrow> table
     \<Rightarrow> error + table" where
  "write_task multi func n ns t df =
     (if multi then sum_into_dims func n ns (fst t) (snd t) df else sum_into func n ns (snd t) df)"

definition task_key :: "bool \<Rightarrow> row \<Rightarrow> string \<Rightarrow> int list \<times> string" where
  "task_key multi r c = (if multi then rdims r else [], c)"

definition written :: "bool \<Rightarrow> node \<Rightarrow> int list \<times> string \<Rightarrow> cell \<Rightarrow> row \<Rightarrow> row" where
  "written multi n t v r =
     (if rnode r = n \<and> task_key multi r (snd t) = t then set_cell (snd t) v r else r)"

text \<open>
  A row before and after a list of assignments, after the loop body for one node, and
  the invariant of the loop over the post-order for an exclusive column \<open>ec\<close> and the
  inclusive column \<open>oc\<close> derived from it.
\<close>

definition task_rel ::
  "bool \<Rightarrow> (cell list \<Rightarrow> error + cell) \<Rightarrow> node \<Rightarrow> node list \<Rightarrow> (int list \<times> string) set \<Rightarrow> row list
     \<Rightarrow> row \<Rightarrow> row \<Rightarrow> bool" where
  "task_rel multi func n ns ts rs r r' =
     (rnode r' = rnode r \<and> rdims r' = rdims r
      \<and> (\<forall>c. if rnode r = n \<and> task_key multi r c \<in> ts
               then func (map (\<lambda>x. cell_at x c) (family_rows multi ns (rdims r) rs)) = Inr (cell_at r' c)
               else cell_at r' c = cell_at r c))"

definition node_rel ::
  "bool \<Rightarrow> (cell list \<Rightarrow> error + cell) \<Rightarrow> node \<Rightarrow> node list \<Rightarrow> string list \<Rightarrow> row list
     \<Rightarrow> row \<Rightarrow> row \<Rightarrow> bool" where
  "node_rel multi func n ks outs rs r r' =
     (rnode r' = rnode r \<and> rdims r' = rdims r
      \<and> (\<forall>c. if rnode r = n \<and> ks \<noteq> [] \<and> c \<in> set outs
               then func (map (\<lambda>x. cell_at x c) (family_rows multi (n # ks) (rdims r) rs)) = Inr (cell_at r' c)
               else cell_at r' c = cell_at r c))"

definition sum_inv ::
  "store \<Rightarrow> bool \<Rightarrow> (cell list \<Rightarrow> error + cell) \<Rightarrow> string \<Rightarrow> string \<Rightarrow> node set \<Rightarrow> row list \<Rightarrow> bool" where
  "sum_inv st multi func ec oc D rs =
     (\<forall>r \<in> set rs.
        if rnode r \<in> D \<and> kids st (rnode r) \<noteq> []
        then func (map (\<lambda>x. if rnode x = rnode r then cell_at x ec else cell_at x oc)
                     (family_rows multi (rnode r # kids st (rnode r)) (rdims r) rs)) = Inr (cell_at r oc)
        else cell_at r oc = cell_at r ec)"

text \<open>
  The first example with its inclusive column only, and the same after
  \<^verbatim>\<open>generate_exclusive_columns\<close>.
\<close>

definition ex_inc_only_gf :: graphframe where
  "ex_inc_only_gf = \<lparr>graph = ex_graph,
     dataframe = \<lparr>index_names = [''node''], columns = [''time (inc)''],
       rows = [ex_row 0 [(''time (inc)'', Num 7)], ex_row 1 [(''time (inc)'', Num 4)],
               ex_row 2 [(''time (inc)'', Num 2)], ex_row 3 [(''time (inc)'', Num 3)]]\<rparr>,
     exc_metrics = [], inc_metrics = [''time (inc)''],
     default_metric = ''time'', metadata = []\<rparr>"

definition ex_gen_gf :: graphframe where
  "ex_gen_gf = \<lparr>graph = ex_graph,
     dataframe = \<lparr>index_names = [''node''], columns = [''time (inc)'', ''time''],
       rows = [ex_row 0 [(''time (inc)'', Num 7), (''time'', Num 1)],
               ex_row 1 [(''time (inc)'', Num 4), (''time'', Num 1)],
               ex_row 2 [(''time (inc)'', Num 2), (''time'', Num 2)],
               ex_row 3 [(''time (inc)'', Num 3), (''time'', Num 3)]]\<rparr>,
     exc_metrics = [''time''], inc_metrics = [''time (inc)''],
     default_metric = ''time'', metadata = []\<rparr>"

text \<open>
  A graph that is not a tree: a has the children b and c, and both have the child d
  (addresses 0 to 3). The inclusive times are a 5, b 2, c 2 and d 1.
\<close>

definition dia_nodes :: store where
  "dia_nodes =
     [\<lparr>frame = [(''name'', ''a'')], parents = [], children = [1, 2], hatchet_nid = 0\<rparr>,
      \<lparr>frame = [(''name'', ''b'')], parents = [0], children = [3], hatchet_nid = 1\<rparr>,
      \<lparr>frame = [(''name'', ''c'')], parents = [0], children = [3], hatchet_nid = 3\<rparr>,
      \<lparr>frame = [(''name'', ''d'')], parents = [1, 2], children = [], hatchet_nid = 2\<rparr>]"

definition dia_table :: "real \<Rightarrow> table" where
  "dia_table x = \<lparr>index_names = [''node''], columns = [''time (inc)'', ''time''],
       rows = [ex_row 0 [(''time (inc)'', Num x), (''time'', Num 1)],
               ex_row 1 [(''time (inc)'', Num 2), (''time'', Num 1)],
               ex_row 2 [(''time (inc)'', Num 2), (''time'', Num 1)],
               ex_row 3 [(''time (inc)'', Num 1), (''time'', Num 1)]]\<rparr>"

definition dia_gf :: graphframe where
  "dia_gf = \<lparr>graph = \<lparr>gid = 0, roots = [0]\<rparr>,
     dataframe = \<lparr>index_names = [''node''], columns = [''time (inc)''],
       rows = [ex_row 0 [(''time (inc)'', Num 5)], ex_row 1 [(''time (inc)'', Num 2)],
               ex_row 2 [(''time (inc)'', Num 2)], ex_row 3 [(''time (inc)'', Num 1)]]\<rparr>,
     exc_metrics = [], inc_metrics = [''time (inc)''],
     default_metric = ''time'', metadata = []\<rparr>"

definition dia_gen_gf :: graphframe where
  "dia_gen_gf = \<lparr>graph = \<lparr>gid = 0, roots = [0]\<rparr>, dataframe = dia_table 5,
     exc_metrics = [''time''], inc_metrics = [''time (inc)''],
     default_metric = ''time'', metadata = []\<rparr>"

definition dia_upd_gf :: graphframe where
  "dia_upd_gf = \<lparr>graph = \<lparr>gid = 0, roots = [0]\<rparr>, dataframe = dia_table 4,
     exc_metrics = [''time''], inc_metrics = [''time (inc)''],
     default_metric = ''time'', metadata = []\<rparr>"

text \<open>
  Two GraphFrames on the tree of the first example whose exclusive metrics have names
  from which \<^verbatim>\<open>update_inclusive_columns\<close> derives unsuitable names: in the first both
  metrics give the inclusive name \<^verbatim>\<open>time\<close>, in the second the inclusive name derived from
  \<^verbatim>\<open>time (exc)\<close> is the name of the exclusive metric \<^verbatim>\<open>time\<close>. Each is followed by the
  GraphFrame after \<^verbatim>\<open>update_inclusive_columns\<close>.
\<close>

definition clash_gf :: graphframe where
  "clash_gf = \<lparr>graph = ex_graph,
     dataframe = \<lparr>index_names = [''node''], columns = [''time (exc)'', ''time(exc)''],
       rows = [ex_row 0 [(''time (exc)'', Num 1), (''time(exc)'', Num 1)],
               ex_row 1 [(''time (exc)'', Num 1), (''time(exc)'', Num 1)],
               ex_row 2 [(''time (exc)'', Num 2), (''time(exc)'', Num 2)],
               ex_row 3 [(''time (exc)'', Num 3), (''time(exc)'', Num 3)]]\<rparr>,
     exc_metrics = [''time (exc)'', ''time(exc)''], inc_metrics = [],
     default_metric = ''time (exc)'', metadata = []\<rparr>"

definition clash_upd_gf :: graphframe where
  "clash_upd_gf = \<lparr>graph = ex_graph,
     dataframe = \<lparr>index_names = [''node''], columns = [''time (exc)'', ''time(exc)'', ''time''],
       rows = [ex_row 0 [(''time (exc)'', Num 1), (''time(exc)'', Num 1), (''time'', Num 19)],
               ex_row 1 [(''time (exc)'', Num 1), (''time(exc)'', Num 1), (''time'', Num 7)],
               ex_row 2 [(''time (exc)'', Num 2), (''time(exc)'', Num 2), (''time'', Num 2)],
               ex_row 3 [(''time (exc)'', Num 3), (''time(exc)'', Num 3), (''time'', Num 3)]]\<rparr>,
     exc_metrics = [''time (exc)'', ''time(exc)''], inc_metrics = [''time''],
     default_metric = ''time (exc)'', metadata = []\<rparr>"

definition shadow_gf :: graphframe where
  "shadow_gf = \<lparr>graph = ex_graph,
     dataframe = \<lparr>index_names = [''node''], columns = [''time (exc)'', ''time''],
       rows = [ex_row 0 [(''time (exc)'', Num 1), (''time'', Num 1)],
               ex_row 1 [(''time (exc)'', Num 1), (''time'', Num 1)],
               ex_row 2 [(''time (exc)'', Num 2), (''time'', Num 2)],
               ex_row 3 [(''time (exc)'', Num 3), (''time'', Num 3)]]\<rparr>,
     exc_metrics = [''time (exc)'', ''time''], inc_metrics = [],
     default_metric = ''time'', metadata = []\<rparr>"

definition shadow_upd_gf :: graphframe where
  "shadow_upd_gf = \<lparr>graph = ex_graph,
     dataframe = \<lparr>index_names = [''node''], columns = [''time (exc)'', ''time'', ''time (inc)''],
       rows = [ex_row 0 [(''time (exc)'', Num 1), (''time'', Num 7), (''time (inc)'', Num 7)],
               ex_row 1 [(''time (exc)'', Num 1), (''time'', Num 4), (''time (inc)'', Num 4)],
               ex_row 2 [(''time (exc)'', Num 2), (''time'', Num 2), (''time (inc)'', Num 2)],
               ex_row 3 [(''time (exc)'', Num 3), (''time'', Num 3), (''time (inc)'', Num 3)]]\<rparr>,
     exc_metrics = [''time (exc)'', ''time''], inc_metrics = [''time'', ''time (inc)''],
     default_metric = ''time'', metadata = []\<rparr>"

text \<open>
  Two lists of rows that agree row by row in the index key and in every column outside
  a set of columns.
\<close>

definition unchanged_outside :: "string set \<Rightarrow> row list \<Rightarrow> row list \<Rightarrow> bool" where
  "unchanged_outside C rs rs' =
     list_all2 (\<lambda>r r'. row_key r' = row_key r \<and> (\<forall>c. c \<in> C \<or> cell_at r' c = cell_at r c)) rs rs'"

text \<open>The squash of the second example with the update of the inclusive columns.\<close>

definition ex2_squashed_inc_gf :: graphframe where
  "ex2_squashed_inc_gf = \<lparr>graph = \<lparr>gid = 1, roots = [5]\<rparr>,
     dataframe = \<lparr>index_names = [''node''],
       columns = [''time'', ''calls'', ''file'', ''time (inc)'', ''calls (inc)''],
       rows = [ex_row 5 [(''time'', Num 1), (''calls'', Num 1), (''file'', Txt ''m.c''),
                         (''time (inc)'', Num 1), (''calls (inc)'', Num 6)],
               ex_row 7 [(''time'', NaN), (''calls'', Num 5), (''file'', Txt ''b.c''),
                         (''time (inc)'', NaN), (''calls (inc)'', Num 5)]]\<rparr>,
     exc_metrics = [''time'', ''calls''], inc_metrics = [''time (inc)'', ''calls (inc)''],
     default_metric = ''time'', metadata = []\<rparr>"

section \<open>Arithmetic on GraphFrames\<close>

text \<open>
  \<^verbatim>\<open>add\<close>, \<^verbatim>\<open>sub\<close> and \<^verbatim>\<open>mul\<close> work on \<^verbatim>\<open>self.copy()\<close> and \<^verbatim>\<open>other.copy()\<close>, and
  \<^verbatim>\<open>GraphFrame.copy\<close> holds \<^verbatim>\<open>self.dataframe.copy(deep=False)\<close>. What these calls do to
  their operands depends on which tables share their data, so here a table is an object
  that refers to column buffers in a store: a buffer holds the cells of one column, and
  a table has its index keys and, for each column name, the address of a buffer.

  The library is not among the sources. From its documentation:
  \<^verbatim>\<open>DataFrame.copy(deep=False)\<close> makes a new object that shares the data of the original, so
  that a change of the data of one is seen in the other; a table made in any other way
  here (\<^verbatim>\<open>pd.concat\<close>, a selection with a mask, \<^verbatim>\<open>DataFrame.add\<close>) holds data of its
  own; \<^verbatim>\<open>DataFrame.update\<close> modifies the data of its receiver in place.
\<close>

type_synonym addr = nat

type_synonym buffers = "cell list list"

record dataframe_obj =
  level_names :: "string list"
  row_keys :: "(node \<times> int list) list"
  column_bufs :: "(string \<times> addr) list"

record graphframe_obj =
  obj_graph :: graph
  obj_dataframe :: dataframe_obj
  obj_exc_metrics :: "string list"
  obj_inc_metrics :: "string list"
  obj_default_metric :: string
  obj_metadata :: "(string \<times> string) list"

text \<open>
  The buffer at an address, and the table and the GraphFrame that one reads through a
  table object and a GraphFrame object in a given store.
\<close>

definition read_buf :: "buffers \<Rightarrow> addr \<Rightarrow> cell list" where
  "read_buf bufs a = (if a < length bufs then bufs ! a else [])"

definition buf_cell :: "buffers \<Rightarrow> addr \<Rightarrow> nat \<Rightarrow> cell" where
  "buf_cell bufs a i = (if i < length (read_buf bufs a) then read_buf bufs a ! i else NaN)"

definition read_frame :: "buffers \<Rightarrow> dataframe_obj \<Rightarrow> table" where
  "read_frame bufs fr =
     \<lparr>index_names = level_names fr, columns = map fst (column_bufs fr),
      rows = map (\<lambda>(i, k). \<lparr>rnode = fst k, rdims = snd k,
                             rcells = map (\<lambda>(c, a). (c, buf_cell bufs a i)) (column_bufs fr)\<rparr>)
               (zip [0 ..< length (row_keys fr)] (row_keys fr))\<rparr>"

definition read_gf :: "buffers \<Rightarrow> graphframe_obj \<Rightarrow> graphframe" where
  "read_gf bufs gf =
     \<lparr>graph = obj_graph gf, dataframe = read_frame bufs (obj_dataframe gf),
      exc_metrics = obj_exc_metrics gf, inc_metrics = obj_inc_metrics gf,
      default_metric = obj_default_metric gf, metadata = obj_metadata gf\<rparr>"

text \<open>A table with data of its own: one new buffer for each column, at the end of the store.\<close>

definition fresh_frame :: "table \<Rightarrow> buffers \<Rightarrow> dataframe_obj \<times> buffers" where
  "fresh_frame df bufs =
     (\<lparr>level_names = index_names df, row_keys = map row_key (rows df),
       column_bufs = zip (columns df) [length bufs ..< length bufs + length (columns df)]\<rparr>,
      bufs @ map (\<lambda>c. map (\<lambda>r. cell_at r c) (rows df)) (columns df))"

definition fresh_gf :: "graphframe \<Rightarrow> buffers \<Rightarrow> graphframe_obj \<times> buffers" where
  "fresh_gf gf bufs =
     (case fresh_frame (dataframe gf) bufs of
        (fr, bufs') \<Rightarrow>
          (\<lparr>obj_graph = graph gf, obj_dataframe = fr, obj_exc_metrics = exc_metrics gf,
            obj_inc_metrics = inc_metrics gf, obj_default_metric = default_metric gf,
            obj_metadata = metadata gf\<rparr>, bufs'))"

text \<open>
  \<^verbatim>\<open>GraphFrame.copy\<close>: a new GraphFrame with the same graph, a shallow copy of the table,
  which refers to the same buffers, and copies of the lists. The constructor raises
  when the index has no level \<^verbatim>\<open>node\<close>.
\<close>

definition copy_obj :: "graphframe_obj \<Rightarrow> error + graphframe_obj" where
  "copy_obj self =
     (if ''node'' \<in> set (level_names (obj_dataframe self)) then Inr self else Inl ValueError)"

text \<open>
  \<^verbatim>\<open>GraphFrame.unify\<close> on GraphFrame objects. When both have the same graph it returns
  at once and both tables keep their buffers. Otherwise the tables are computed as in
  \<open>unify\<close> above; the table of \<open>self\<close> is the result of \<^verbatim>\<open>pd.concat\<close> and has data of its
  own, and the table of \<open>other\<close> keeps its buffers and gets the index with the nodes of
  the merged graph. The column assignments on the way (\<^verbatim>\<open>df["node"] = ...\<close>,
  \<^verbatim>\<open>df["_missing_node"] = ...\<close>) are taken to give the table object a column of its own
  and not to write into a buffer.
\<close>

definition unify_obj ::
  "(world \<Rightarrow> graph \<Rightarrow> graph \<Rightarrow> world \<times> graph \<times> (node \<times> node) list) \<Rightarrow> world \<Rightarrow> buffers
     \<Rightarrow> graphframe_obj \<Rightarrow> graphframe_obj
     \<Rightarrow> error + (world \<times> buffers \<times> graphframe_obj \<times> graphframe_obj)" where
  "unify_obj graph_union w bufs self other =
     (if gid (obj_graph self) = gid (obj_graph other) then Inr (w, bufs, self, other)
      else (case unify graph_union w (read_gf bufs self) (read_gf bufs other) of
              Inl e \<Rightarrow> Inl e
            | Inr (w', self', other') \<Rightarrow>
                (case fresh_frame (dataframe self') bufs of
                   (fr, bufs') \<Rightarrow>
                     Inr (w', bufs',
                          self\<lparr>obj_graph := graph self', obj_dataframe := fr\<rparr>,
                          other\<lparr>obj_graph := graph other',
                                obj_dataframe := (obj_dataframe other)
                                  \<lparr>row_keys := map row_key (rows (dataframe other'))\<rparr>\<rparr>))))"

text \<open>
  The operations of \<^verbatim>\<open>DataFrame.add\<close>, \<^verbatim>\<open>DataFrame.sub\<close> and \<^verbatim>\<open>DataFrame.multiply\<close> on two
  cells that both tables have: a missing value on either side gives a missing value.
  Two texts are concatenated by \<open>+\<close>; every other operation with a text raises (Python
  repeats a text that is multiplied by an integer; the numbers here are reals).
  \<^verbatim>\<open>div\<close> has the same body as the other three with \<^verbatim>\<open>DataFrame.divide\<close>, whose results
  at a zero divisor are infinities, which the cells do not have; it is left out.
\<close>

fun frame_add :: "cell \<Rightarrow> cell \<Rightarrow> error + cell" where
  "frame_add (Num a) (Num b) = Inr (Num (a + b))"
| "frame_add (Txt a) (Txt b) = Inr (Txt (a @ b))"
| "frame_add NaN _ = Inr NaN"
| "frame_add _ NaN = Inr NaN"
| "frame_add _ _ = Inl TypeError"

fun frame_sub :: "cell \<Rightarrow> cell \<Rightarrow> error + cell" where
  "frame_sub (Num a) (Num b) = Inr (Num (a - b))"
| "frame_sub NaN _ = Inr NaN"
| "frame_sub _ NaN = Inr NaN"
| "frame_sub _ _ = Inl TypeError"

fun frame_mul :: "cell \<Rightarrow> cell \<Rightarrow> error + cell" where
  "frame_mul (Num a) (Num b) = Inr (Num (a * b))"
| "frame_mul NaN _ = Inr NaN"
| "frame_mul _ NaN = Inr NaN"
| "frame_mul _ _ = Inl TypeError"

text \<open>
  \<^verbatim>\<open>op(other.dataframe[all_metrics])\<close> aligns both tables on their index keys, and
  \<^verbatim>\<open>update\<close> aligns the result on the index of its receiver. Two tables with the same
  index are combined row by row; otherwise a row is combined with the row of the same
  key, and the cell is missing when the other table has no such row. The alignment of
  two different indexes of which one has a key twice is outside this model, which stops
  there with \<open>ValueError\<close>. The result for one column is the list of its cells in the
  rows of the receiver.
\<close>

definition alignable :: "table \<Rightarrow> table \<Rightarrow> bool" where
  "alignable sdf odf =
     (map row_key (rows sdf) = map row_key (rows odf)
      \<or> distinct (map row_key (rows sdf)) \<and> distinct (map row_key (rows odf)))"

definition op_column ::
  "(cell \<Rightarrow> cell \<Rightarrow> error + cell) \<Rightarrow> table \<Rightarrow> table \<Rightarrow> string \<Rightarrow> error + cell list" where
  "op_column op sdf odf c =
     (if map row_key (rows sdf) = map row_key (rows odf)
      then mapE (\<lambda>(r, r'). op (cell_at r c) (cell_at r' c)) (zip (rows sdf) (rows odf))
      else mapE (\<lambda>r. case filter (\<lambda>r'. row_key r' = row_key r) (rows odf) of
                        [] \<Rightarrow> Inr NaN
                      | r' # _ \<Rightarrow> op (cell_at r c) (cell_at r' c)) (rows sdf))"

text \<open>
  \<^verbatim>\<open>DataFrame.update\<close> for one column: the cells of the other table that are not missing
  replace the cells of the receiver, and the new cells are written into the buffer of
  the column.
\<close>

definition update_column :: "cell list \<Rightarrow> cell list \<Rightarrow> cell list" where
  "update_column this that = map (\<lambda>(old, new). case new of NaN \<Rightarrow> old | _ \<Rightarrow> new) (zip this that)"

definition write_column :: "addr \<Rightarrow> cell list \<Rightarrow> buffers \<Rightarrow> buffers" where
  "write_column a that bufs = bufs[a := update_column (read_buf bufs a) that]"

text \<open>
  \<^verbatim>\<open>GraphFrame._operator\<close>: \<^verbatim>\<open>self.dataframe.update(op(other.dataframe[all_metrics]))\<close>.
  The selection raises \<open>KeyError\<close> when a metric is no column of \<open>other\<close>. The result of
  \<open>op\<close> is computed first and has the metric columns only, so \<^verbatim>\<open>update\<close> writes the
  metric columns of \<open>self\<close>. The result is the store and \<open>self\<close>.
\<close>

definition operator_obj ::
  "(cell \<Rightarrow> cell \<Rightarrow> error + cell) \<Rightarrow> buffers \<Rightarrow> graphframe_obj \<Rightarrow> graphframe_obj
     \<Rightarrow> error + (buffers \<times> graphframe_obj)" where
  "operator_obj op bufs self other =
     (if list_all (has_column (read_frame bufs (obj_dataframe other)))
           (all_metrics (read_gf bufs self) (read_gf bufs other))
      then
        (if alignable (read_frame bufs (obj_dataframe self)) (read_frame bufs (obj_dataframe other))
         then
           (case mapE (\<lambda>(c, a). case op_column op (read_frame bufs (obj_dataframe self))
                                       (read_frame bufs (obj_dataframe other)) c of
                                  Inl e \<Rightarrow> Inl e
                                | Inr that \<Rightarrow> Inr (a, that))
                   (filter (\<lambda>(c, a). c \<in> set (all_metrics (read_gf bufs self) (read_gf bufs other)))
                      (column_bufs (obj_dataframe self))) of
              Inl e \<Rightarrow> Inl e
            | Inr ws \<Rightarrow> Inr (fold (\<lambda>(a, that). write_column a that) ws bufs, self))
         else Inl ValueError)
      else Inl KeyError)"

text \<open>
  The common body of \<^verbatim>\<open>GraphFrame.add\<close>, \<^verbatim>\<open>sub\<close> and \<^verbatim>\<open>mul\<close>: both operands are copied,
  the copies are unified, and the operator is applied to the copies. The result is the
  world, the store and the returned GraphFrame.
\<close>

definition arith_obj ::
  "(cell \<Rightarrow> cell \<Rightarrow> error + cell)
     \<Rightarrow> (world \<Rightarrow> graph \<Rightarrow> graph \<Rightarrow> world \<times> graph \<times> (node \<times> node) list) \<Rightarrow> world \<Rightarrow> buffers
     \<Rightarrow> graphframe_obj \<Rightarrow> graphframe_obj \<Rightarrow> error + (world \<times> buffers \<times> graphframe_obj)" where
  "arith_obj op graph_union w bufs self other =
     (case copy_obj self of
        Inl e \<Rightarrow> Inl e
      | Inr self_copy \<Rightarrow>
          (case copy_obj other of
             Inl e \<Rightarrow> Inl e
           | Inr other_copy \<Rightarrow>
               (case unify_obj graph_union w bufs self_copy other_copy of
                  Inl e \<Rightarrow> Inl e
                | Inr (w', bufs', self_copy', other_copy') \<Rightarrow>
                    (case operator_obj op bufs' self_copy' other_copy' of
                       Inl e \<Rightarrow> Inl e
                     | Inr (bufs'', res) \<Rightarrow> Inr (w', bufs'', res)))))"

definition add_obj ::
  "(world \<Rightarrow> graph \<Rightarrow> graph \<Rightarrow> world \<times> graph \<times> (node \<times> node) list) \<Rightarrow> world \<Rightarrow> buffers
     \<Rightarrow> graphframe_obj \<Rightarrow> graphframe_obj \<Rightarrow> error + (world \<times> buffers \<times> graphframe_obj)" where
  "add_obj = arith_obj frame_add"

definition sub_obj ::
  "(world \<Rightarrow> graph \<Rightarrow> graph \<Rightarrow> world \<times> graph \<times> (node \<times> node) list) \<Rightarrow> world \<Rightarrow> buffers
     \<Rightarrow> graphframe_obj \<Rightarrow> graphframe_obj \<Rightarrow> error + (world \<times> buffers \<times> graphframe_obj)" where
  "sub_obj = arith_obj frame_sub"

definition mul_obj ::
  "(world \<Rightarrow> graph \<Rightarrow> graph \<Rightarrow> world \<times> graph \<times> (node \<times> node) list) \<Rightarrow> world \<Rightarrow> buffers
     \<Rightarrow> graphframe_obj \<Rightarrow> graphframe_obj \<Rightarrow> error + (world \<times> buffers \<times> graphframe_obj)" where
  "mul_obj = arith_obj frame_mul"

text \<open>
  The first example with its inclusive column as a GraphFrame object \<open>a\<close> with the
  buffers 0 and 1, and the result \<open>b\<close> of its filter to main and bar without squash, a
  GraphFrame on the same graph whose table has data of its own in the buffers 2 and 3.
\<close>

definition ex_a :: graphframe_obj where
  "ex_a = fst (fresh_gf ex_inc_gf [])"

definition ex_b :: graphframe_obj where
  "ex_b = fst (fresh_gf ex_filtered_gf (snd (fresh_gf ex_inc_gf [])))"

definition ex_bufs :: buffers where
  "ex_bufs = snd (fresh_gf ex_filtered_gf (snd (fresh_gf ex_inc_gf [])))"

section \<open>Properties\<close>

subsection \<open>The concrete scenario\<close>

text \<open>
  Claim C1. On the graph main \<open>\<rightarrow>\<close> foo, bar; foo \<open>\<rightarrow>\<close> baz with the exclusive times
  main 1, foo 1, bar 2, baz 3, \<^verbatim>\<open>update_inclusive_columns\<close> gives the inclusive times
  baz 3, foo 4, bar 2, main 7. Filtering the table to the rows of main and bar and
  squashing gives a tree of two nodes, a root with the frame of main whose only child
  has the frame of bar and no children, and the inclusive time of the root is 3.
\<close>

theorem concrete_scenario:
  "update_inclusive_columns ex_nodes ex_gf = Inr ex_inc_gf
   \<and> map (\<lambda>n. loc_scalar (dataframe ex_inc_gf) n [] ''time (inc)'') [3, 1, 2, 0]
       = [Inr (Num 3), Inr (Num 4), Inr (Num 2), Inr (Num 7)]
   \<and> filter_gf normalize_graph no_match ex_world ex_inc_gf (Callable main_or_bar) False True 1 []
       = Inr (ex_world, ex_inc_gf, ex_filtered_gf)
   \<and> map rnode (rows (dataframe ex_filtered_gf)) = [0, 2]
   \<and> squash normalize_graph ex_world ex_filtered_gf True
       = Inr (\<lparr>nodes = ex_squashed_nodes, next_gid = 2\<rparr>, ex_squashed_gf)
   \<and> filter_gf normalize_graph no_match ex_world ex_inc_gf (Callable main_or_bar) True True 1 []
       = Inr (\<lparr>nodes = ex_squashed_nodes, next_gid = 2\<rparr>, ex_inc_gf, ex_squashed_gf)
   \<and> traverse_graph ex_squashed_nodes (graph ex_squashed_gf) False = Inr [4, 5]
   \<and> is_tree ex_squashed_nodes (graph ex_squashed_gf) = Inr True
   \<and> roots (graph ex_squashed_gf) = [4]
   \<and> map_of (frame (obj ex_squashed_nodes 4)) ''name'' = Some ''main''
   \<and> kids ex_squashed_nodes 4 = [5]
   \<and> map_of (frame (obj ex_squashed_nodes 5)) ''name'' = Some ''bar''
   \<and> kids ex_squashed_nodes 5 = []
   \<and> loc_scalar (dataframe ex_squashed_gf) 4 [] ''time (inc)'' = Inr (Num 3)"
  by code_simp

subsection \<open>Sums on trees\<close>

text \<open>
  Claim C7. When the graph is a tree, \<^verbatim>\<open>subgraph_sum\<close> is \<^verbatim>\<open>subtree_sum\<close>: on the same
  columns, output columns and function both give the same result, a table or an error.
\<close>

theorem subgraph_sum_on_tree:
  "is_tree st (graph self) = Inr True \<Longrightarrow>
   subgraph_sum st self cols out_columns func = subtree_sum st self cols out_columns func"
  by (simp add: subgraph_sum_def)

theorem subgraph_sum_on_tree_witness:
  "is_tree ex_nodes (graph ex_gf) = Inr True
   \<and> subgraph_sum ex_nodes ex_gf [''time''] (Some [''time (inc)'']) sum_min_count1
       = subtree_sum ex_nodes ex_gf [''time''] (Some [''time (inc)'']) sum_min_count1
   \<and> subtree_sum ex_nodes ex_gf [''time''] (Some [''time (inc)'']) sum_min_count1
       = Inr (ex_gf\<lparr>dataframe := ex_inc_table\<rparr>)"
proof -
  have t: "is_tree ex_nodes (graph ex_gf) = Inr True"
    by code_simp
  have s: "subtree_sum ex_nodes ex_gf [''time''] (Some [''time (inc)'']) sum_min_count1
             = Inr (ex_gf\<lparr>dataframe := ex_inc_table\<rparr>)"
    by code_simp
  show ?thesis
    using t s subgraph_sum_on_tree [OF t, of "[''time'']" "Some [''time (inc)'']" sum_min_count1]
    by simp
qed

subsection \<open>Filter\<close>

lemma filter_take_drop_none:
  "list_all (\<lambda>r. \<not> p r) xs \<Longrightarrow> filter p (take a (drop b xs)) = []"
  by (auto simp: list_all_iff filter_empty_conv dest!: in_set_takeD in_set_dropD)

lemma filtered_rows_none:
  assumes "list_all (\<lambda>r. \<not> p r) (rows (dataframe self))"
  shows "filtered_rows qa self (Callable p) num_procs arrival = Inr []"
proof -
  have "filter p (rows (dataframe self)) = []"
    using assms by (simp add: list_all_iff filter_empty_conv)
  moreover have "\<And>pid. pid < num_procs \<Longrightarrow>
      parallel_apply p (array_split (rows (dataframe self)) num_procs ! pid) = []"
    using assms by (simp add: array_split_def parallel_apply_def filter_take_drop_none)
  ultimately show ?thesis
    by (auto simp add: filtered_rows_def)
qed

lemma filtered_rows_query_none:
  assumes "list_all (\<lambda>r. rnode r \<notin> set (qa q (graph self) (dataframe self))) (rows (dataframe self))"
  shows "filtered_rows qa self (Query q) num_procs arrival = Inr []"
  using assms by (simp add: filtered_rows_def list_all_iff filter_empty_conv)

text \<open>
  Claim C9. A filter that matches no row raises \<open>EmptyFilter\<close>, the exception the spec
  calls EmptyResultError: for a callable that is false on every row, with one process
  or several and in any order of arrival, and for a query whose matches have no row,
  whether or not a squash was asked for.
\<close>

theorem filter_empty_result:
  "(list_all (\<lambda>r. \<not> p r) (rows (dataframe self)) \<longrightarrow>
      filter_gf nrm qa w self (Callable p) sq upd num_procs arrival = Inl EmptyFilter)
   \<and> (list_all (\<lambda>r. rnode r \<notin> set (qa q (graph self) (dataframe self))) (rows (dataframe self)) \<longrightarrow>
      filter_gf nrm qa w self (Query q) sq upd num_procs arrival = Inl EmptyFilter)"
  by (simp add: filter_gf_def filtered_rows_none filtered_rows_query_none)

theorem filter_empty_result_witness:
  "list_all (\<lambda>r. \<not> (\<lambda>r. rnode r = 7) r) (rows (dataframe ex_inc_gf))
   \<and> filter_gf normalize_graph no_match ex_world ex_inc_gf (Callable (\<lambda>r. rnode r = 7)) True True 4 [2, 0, 3, 1]
       = Inl EmptyFilter
   \<and> list_all (\<lambda>r. rnode r \<notin> set (no_match () (graph ex_inc_gf) (dataframe ex_inc_gf)))
       (rows (dataframe ex_inc_gf))
   \<and> filter_gf normalize_graph no_match ex_world ex_inc_gf (Query ()) True True 4 [2, 0, 3, 1]
       = Inl EmptyFilter"
proof -
  have a: "list_all (\<lambda>r. \<not> (\<lambda>r. rnode r = 7) r) (rows (dataframe ex_inc_gf))"
    by code_simp
  have b: "list_all (\<lambda>r. rnode r \<notin> set (no_match () (graph ex_inc_gf) (dataframe ex_inc_gf)))
             (rows (dataframe ex_inc_gf))"
    by (simp add: no_match_def list_all_iff)
  show ?thesis
    using a b
      filter_empty_result [of "\<lambda>r. rnode r = 7" ex_inc_gf normalize_graph no_match ex_world
        True True 4 "[2, 0, 3, 1]" "()"]
    by simp
qed

lemma concat_consecutive:
  assumes "\<And>i. i < n \<Longrightarrow> f i \<le> f (Suc i)" and "f 0 = 0"
  shows "concat (map (\<lambda>i. take (f (Suc i) - f i) (drop (f i) xs)) [0 ..< n]) = take (f n) xs"
  using assms
proof (induction n)
  case 0
  then show ?case by simp
next
  case (Suc n)
  have "take (f n) xs @ take (f (Suc n) - f n) (drop (f n) xs) = take (f (Suc n)) xs"
    using Suc.prems(1)[of n] by (metis le_add_diff_inverse lessI take_add)
  then show ?case using Suc by simp
qed

lemma concat_array_split:
  assumes "0 < n"
  shows "concat (array_split xs n) = xs"
proof -
  define q where "q = length xs div n"
  define r where "r = length xs mod n"
  define f where "f = (\<lambda>i. i * q + min i r)"
  have r: "r < n" using assms by (simp add: r_def)
  have len: "\<And>i. f (Suc i) - f i = q + (if i < r then 1 else 0)"
    by (auto simp: f_def min_def)
  have "concat (array_split xs n) = concat (map (\<lambda>i. take (f (Suc i) - f i) (drop (f i) xs)) [0 ..< n])"
    unfolding array_split_def len by (simp add: f_def q_def r_def)
  also have "\<dots> = take (f n) xs"
    by (rule concat_consecutive) (auto simp: f_def min_def)
  also have "f n = length xs"
    using r by (simp add: f_def q_def r_def min_def)
  finally show ?thesis by simp
qed

lemma filtered_rows_some:
  assumes "list_ex p (rows (dataframe self))"
    and "list_all (\<lambda>pid. pid \<in> set arrival) [0 ..< num_procs]"
  shows "\<exists>rs. filtered_rows qa self (Callable p) num_procs arrival = Inr rs \<and> rs \<noteq> []"
proof (cases "num_procs > 1")
  case False
  then show ?thesis
    using assms(1) by (auto simp: filtered_rows_def list_ex_iff filter_empty_conv)
next
  case True
  obtain r where r: "r \<in> set (rows (dataframe self))" "p r"
    using assms(1) by (auto simp: list_ex_iff)
  have "r \<in> set (concat (array_split (rows (dataframe self)) num_procs))"
    using r True by (simp add: concat_array_split)
  then obtain c where c: "c \<in> set (array_split (rows (dataframe self)) num_procs)" "r \<in> set c"
    by auto
  have len: "length (array_split (rows (dataframe self)) num_procs) = num_procs"
    by (simp add: array_split_def)
  obtain pid where pid: "pid < num_procs"
      "r \<in> set (array_split (rows (dataframe self)) num_procs ! pid)"
    using c len by (metis in_set_conv_nth)
  have "pid \<in> set arrival"
    using assms(2) pid(1) by (simp add: list_all_iff)
  define g where "g = (\<lambda>pid. if pid < num_procs
      then parallel_apply p (array_split (rows (dataframe self)) num_procs ! pid) else [])"
  have "filter p (array_split (rows (dataframe self)) num_procs ! pid) \<noteq> []"
    using pid(2) r(2) by (auto simp: filter_empty_conv)
  then have "g pid \<noteq> []"
    using pid(1) by (simp add: g_def parallel_apply_def)
  then have "concat (map g arrival) \<noteq> []"
    using \<open>pid \<in> set arrival\<close> by auto
  moreover have "filtered_rows qa self (Callable p) num_procs arrival = Inr (concat (map g arrival))"
    using True by (simp add: filtered_rows_def g_def)
  ultimately show ?thesis by simp
qed

text \<open>
  Claim C10. Without a squash, a callable filter that matches at least one row returns
  a GraphFrame with the graph of the receiver (the same object: the same \<open>gid\<close> and
  roots), with its lists of exclusive and inclusive metrics and its default metric. The
  world and the receiver, its table included, are what they were before the call. The
  receiver is a GraphFrame, so its index has the level \<^verbatim>\<open>node\<close>, and every process
  delivers its part.
\<close>

theorem filter_without_squash:
  assumes "''node'' \<in> set (index_names (dataframe self))"
    and "list_ex p (rows (dataframe self))"
    and "list_all (\<lambda>pid. pid \<in> set arrival) [0 ..< num_procs]"
  shows "\<exists>gf. filter_gf nrm qa w self (Callable p) False upd num_procs arrival = Inr (w, self, gf)
           \<and> graph gf = graph self
           \<and> exc_metrics gf = exc_metrics self \<and> inc_metrics gf = inc_metrics self
           \<and> default_metric gf = default_metric self
           \<and> rows (dataframe gf) \<noteq> []"
proof -
  obtain rs where rs: "filtered_rows qa self (Callable p) num_procs arrival = Inr rs" "rs \<noteq> []"
    using filtered_rows_some [OF assms(2,3)] by blast
  show ?thesis
    using rs assms(1) by (simp add: filter_gf_def GraphFrame_def)
qed

theorem filter_without_squash_witness:
  "''node'' \<in> set (index_names (dataframe ex_inc_gf))
   \<and> list_ex main_or_bar (rows (dataframe ex_inc_gf))
   \<and> list_all (\<lambda>pid. pid \<in> set [2, 0, 1]) [0 ..< 3]
   \<and> (\<exists>gf. filter_gf normalize_graph no_match ex_world ex_inc_gf (Callable main_or_bar) False True 3 [2, 0, 1]
             = Inr (ex_world, ex_inc_gf, gf)
           \<and> graph gf = graph ex_inc_gf
           \<and> exc_metrics gf = exc_metrics ex_inc_gf \<and> inc_metrics gf = inc_metrics ex_inc_gf
           \<and> default_metric gf = default_metric ex_inc_gf
           \<and> rows (dataframe gf) \<noteq> [])"
proof -
  have a: "''node'' \<in> set (index_names (dataframe ex_inc_gf))" by code_simp
  have b: "list_ex main_or_bar (rows (dataframe ex_inc_gf))" by code_simp
  have c: "list_all (\<lambda>pid. pid \<in> set [2, 0, 1]) [0 ..< (3::nat)]" by code_simp
  show ?thesis
    using a b c filter_without_squash [OF a b c, of normalize_graph no_match ex_world True]
    by simp
qed

subsection \<open>Aggregation of merged rows\<close>

lemma mapE_Inr_D:
  "mapE f xs = Inr ys \<Longrightarrow> length ys = length xs \<and> (\<forall>i < length xs. f (xs ! i) = Inr (ys ! i))"
proof (induction xs arbitrary: ys)
  case Nil
  then show ?case by simp
next
  case (Cons x xs)
  then obtain y ys' where y: "f x = Inr y" "mapE f xs = Inr ys'" "ys = y # ys'"
    by (auto split: sum.splits)
  show ?case
    using Cons.IH[OF y(2)] y by (auto simp: nth_Cons split: nat.splits)
qed

lemma mapE_map_of:
  "mapE f xs = Inr ys \<Longrightarrow> x \<in> set xs \<Longrightarrow> \<exists>y. f x = Inr y \<and> map_of (zip xs ys) x = Some y"
proof (induction xs arbitrary: ys)
  case Nil
  then show ?case by simp
next
  case (Cons a xs)
  then obtain y ys' where y: "f a = Inr y" "mapE f xs = Inr ys'" "ys = y # ys'"
    by (auto split: sum.splits)
  show ?case
    using Cons.IH[OF y(2)] Cons.prems(2) y by auto
qed

lemma mapE_set:
  "mapE f xs = Inr ys \<Longrightarrow> set ys = {y. \<exists>x \<in> set xs. f x = Inr y}"
proof (induction xs arbitrary: ys)
  case Nil
  then show ?case by simp
next
  case (Cons a xs)
  then obtain y ys' where y: "f a = Inr y" "mapE f xs = Inr ys'" "ys = y # ys'"
    by (auto split: sum.splits)
  show ?case
    using Cons.IH[OF y(2)] y by auto
qed

lemma mapE_filter_key:
  assumes "mapE f xs = Inr ys" and "distinct xs" and "x \<in> set xs"
    and "\<And>a b. f a = Inr b \<Longrightarrow> key b = a"
  shows "\<exists>y. f x = Inr y \<and> filter (\<lambda>b. key b = x) ys = [y]"
  using assms(1-3)
proof (induction xs arbitrary: ys)
  case Nil
  then show ?case by simp
next
  case (Cons a xs)
  then obtain y ys' where y: "f a = Inr y" "mapE f xs = Inr ys'" "ys = y # ys'"
    by (auto split: sum.splits)
  have keys: "\<And>b. b \<in> set ys' \<Longrightarrow> key b \<in> set xs"
    using mapE_set[OF y(2)] assms(4) by auto
  show ?case
  proof (cases "x = a")
    case True
    then have "filter (\<lambda>b. key b = x) ys' = []"
      using keys Cons.prems(2) by (auto simp: filter_empty_conv)
    then show ?thesis using True y assms(4)[OF y(1)] by simp
  next
    case False
    then show ?thesis
      using Cons.IH[OF y(2)] Cons.prems y assms(4)[OF y(1)] by auto
  qed
qed

lemma agg_row_key: "agg_row metrics df k = Inr r \<Longrightarrow> row_key r = k"
  by (auto simp: agg_row_def row_key_def split: sum.splits)

lemma agg_row_cell:
  assumes "agg_row metrics df k = Inr r" and "col \<in> set (columns df)"
  shows "agg_cell metrics (group_rows df k) col = Inr (cell_at r col)"
proof -
  obtain vs where vs: "mapE (agg_cell metrics (group_rows df k)) (columns df) = Inr vs"
      "rcells r = zip (columns df) vs"
    using assms(1) by (auto simp: agg_row_def split: sum.splits)
  show ?thesis
    using mapE_map_of[OF vs(1) assms(2)] vs(2) by (auto simp: cell_at_def)
qed

lemma sorted_keys_set: "set (sorted_keys st df) = set (map row_key (rows df))"
  by (simp add: sorted_keys_def)

lemma sorted_keys_distinct: "distinct (sorted_keys st df)"
  by (simp add: sorted_keys_def)

lemma sum_min_count1_all_NaN:
  "list_all (\<lambda>c. c = NaN) cs \<Longrightarrow> sum_min_count1 cs = Inr NaN"
proof -
  assume a: "list_all (\<lambda>c. c = NaN) cs"
  have "txts cs = []" "nums cs = []"
    using a by (induction cs) (auto simp: txts_def nums_def)
  then show ?thesis by (simp add: sum_min_count1_def)
qed

lemma sum_min_count1_numeric:
  assumes "txts cs = []"
  shows "sum_min_count1 cs = Inr (if nums cs = [] then NaN else Num (sum_list (nums cs)))"
  using assms by (simp add: sum_min_count1_def)

subsection \<open>Unify\<close>

lemma cell_at_set_cell: "cell_at (set_cell c v r) c' = (if c' = c then v else cell_at r c')"
  by (simp add: cell_at_def set_cell_def update_conv')

lemma rnode_set_cell [simp]: "rnode (set_cell c v r) = rnode r"
  by (simp add: set_cell_def)

lemma rdims_set_cell [simp]: "rdims (set_cell c v r) = rdims r"
  by (simp add: set_cell_def)

lemma cell_at_fold_NaN:
  "cell_at (fold (\<lambda>j. set_cell j NaN) js r) c = (if c \<in> set js then NaN else cell_at r c)"
  by (induction js arbitrary: r) (auto simp: cell_at_set_cell)

lemma rnode_fold_NaN [simp]: "rnode (fold (\<lambda>j. set_cell j v) js r) = rnode r"
  by (induction js arbitrary: r) auto

lemma rows_fold_fill:
  "rows (fold (\<lambda>j. fill_column j v) js df) = map (fold (\<lambda>j. set_cell j v) js) (rows df)"
  by (induction js arbitrary: df) (auto simp: fill_column_def)

lemma remap_rows_D:
  "remap_rows m rs = Inr rs' \<Longrightarrow>
     rs' = map (\<lambda>r. r\<lparr>rnode := the (map_of m (rnode r))\<rparr>) rs
     \<and> (\<forall>r \<in> set rs. \<exists>n. map_of m (rnode r) = Some n)"
  unfolding remap_rows_def
proof (induction rs arbitrary: rs')
  case Nil
  then show ?case by simp
next
  case (Cons r rs)
  then show ?case by (auto split: sum.splits option.splits)
qed

lemma mask_rows_not_isin:
  "set (mask_rows xs (fast_not_isin xs ys)) = {r \<in> set xs. rnode r \<notin> rnode ` set ys}"
proof -
  have "mask_rows xs (map f xs) = filter f xs" for f :: "row \<Rightarrow> bool"
    by (induction xs) (auto simp: mask_rows_def)
  then show ?thesis by (auto simp: fast_not_isin_def)
qed

lemma rnode_insert_one:
  "map rnode (insert_one_for_self_nodes (map f xs) (map g xs)) = map (\<lambda>x. rnode (g x)) xs"
  by (induction xs) (auto simp: insert_one_for_self_nodes_def)

lemma rnode_marked_self:
  "map rnode (rows (marked_self_table s t)) = map rnode (rows (dataframe s))"
proof -
  have "map rnode (insert_one_for_self_nodes
          (fast_not_isin (rows (dataframe s)) (rows (dataframe t)))
          (rows (fill_column ''_missing_node'' (Num 0) (dataframe s))))
        = map rnode (rows (dataframe s))"
    unfolding fast_not_isin_def fill_column_def
    by (simp add: rnode_insert_one)
  then show ?thesis
    by (simp add: marked_self_table_def fill_column_def)
qed

lemma missing_rows_table_rows:
  "rows (missing_rows_table s t) =
     map (\<lambda>r. fold (\<lambda>j. set_cell j NaN) (all_metrics s t) (set_cell ''_missing_node'' (Num 2) r))
       (other_not_in_self s t)"
  by (simp add: missing_rows_table_def rows_fold_fill fill_column_def)

lemma other_not_in_self_set:
  "set (other_not_in_self s t)
     = {r \<in> set (rows (dataframe t)). rnode r \<notin> rnode ` set (rows (dataframe s))}"
  by (simp add: other_not_in_self_def mask_rows_not_isin)

lemma insert_missing_rows_nodes:
  "rnode ` set (rows (dataframe (insert_missing_rows s t)))
     \<subseteq> rnode ` set (rows (dataframe s)) \<union> rnode ` set (rows (dataframe t))"
proof -
  have "rnode ` set (rows (marked_self_table s t)) = rnode ` set (rows (dataframe s))"
    using rnode_marked_self[of s t] by (metis set_map)
  moreover have "rnode ` set (rows (missing_rows_table s t)) \<subseteq> rnode ` set (rows (dataframe t))"
    by (auto simp: missing_rows_table_rows other_not_in_self_set)
  ultimately show ?thesis
    by (auto simp: insert_missing_rows_def concat_tables_def)
qed

lemma remap_rows_nodes:
  assumes "remap_rows m rs = Inr rs'" and "r' \<in> set rs'"
  shows "(\<exists>k. (k, rnode r') \<in> set m)"
proof -
  obtain r where r: "r \<in> set rs" "r' = r\<lparr>rnode := the (map_of m (rnode r))\<rparr>"
    using remap_rows_D[OF assms(1)] assms(2) by auto
  obtain n where "map_of m (rnode r) = Some n"
    using remap_rows_D[OF assms(1)] r(1) by blast
  then show ?thesis using r(2) by (auto dest: map_of_SomeD)
qed

text \<open>
  Claim C5. After \<^verbatim>\<open>a.unify(b)\<close> both GraphFrames have the same graph object, and
  every node of a row of either table is a node of that graph; when both had the same
  graph object before, nothing has changed. The GraphFrames are well formed before the
  call: the nodes of their rows are nodes of their graphs, and equal graph identities
  mean the same graph. \<^verbatim>\<open>Graph.union\<close> is a parameter, and its dictionary maps into
  the nodes of the merged graph.
\<close>

theorem unify_closure:
  assumes "unify graph_union w a b = Inr (w', a', b')"
    and "gid (graph a) = gid (graph b) \<Longrightarrow> graph a = graph b"
    and "list_all (\<lambda>r. in_graph (nodes w) (graph a) (rnode r)) (rows (dataframe a))"
    and "list_all (\<lambda>r. in_graph (nodes w) (graph b) (rnode r)) (rows (dataframe b))"
    and "gid (graph a) \<noteq> gid (graph b) \<Longrightarrow>
           (case graph_union w (graph a) (graph b) of
              (w1, g, node_map) \<Rightarrow> list_all (\<lambda>(k, v). in_graph (nodes w1) g v) node_map)"
  shows "graph a' = graph b'
         \<and> list_all (\<lambda>r. in_graph (nodes w') (graph a') (rnode r)) (rows (dataframe a'))
         \<and> list_all (\<lambda>r. in_graph (nodes w') (graph b') (rnode r)) (rows (dataframe b'))
         \<and> (gid (graph a) = gid (graph b) \<longrightarrow> w' = w \<and> a' = a \<and> b' = b)"
proof (cases "gid (graph a) = gid (graph b)")
  case True
  then have "w' = w" "a' = a" "b' = b"
    using assms(1) by (auto simp: unify_def)
  then show ?thesis using True assms(2-4) by simp
next
  case False
  obtain w1 g m where u: "graph_union w (graph a) (graph b) = (w1, g, m)"
    by (cases "graph_union w (graph a) (graph b)") auto
  have m: "\<And>k v. (k, v) \<in> set m \<Longrightarrow> in_graph (nodes w1) g v"
    using assms(5)[OF False] u by (auto simp: list_all_iff)
  have un: "unify graph_union w a b =
      (case remap_rows m (rows (dataframe a)) of
         Inl e \<Rightarrow> Inl e
       | Inr srows \<Rightarrow>
           (case remap_rows m (rows (dataframe b)) of
              Inl e \<Rightarrow> Inl e
            | Inr orows \<Rightarrow>
                Inr (w1,
                     (insert_missing_rows (a\<lparr>dataframe := (dataframe a)\<lparr>rows := srows\<rparr>\<rparr>)
                        (b\<lparr>dataframe := (dataframe b)\<lparr>rows := orows\<rparr>\<rparr>))\<lparr>graph := g\<rparr>,
                     b\<lparr>dataframe := (dataframe b)\<lparr>rows := orows\<rparr>, graph := g\<rparr>)))"
    using False u by (simp add: unify_def)
  obtain srows where r1: "remap_rows m (rows (dataframe a)) = Inr srows"
    using assms(1) un by (cases "remap_rows m (rows (dataframe a))") simp_all
  obtain orows where r2: "remap_rows m (rows (dataframe b)) = Inr orows"
    using assms(1) un r1 by (cases "remap_rows m (rows (dataframe b))") simp_all
  have r3: "w' = w1"
    and r4: "a' = (insert_missing_rows (a\<lparr>dataframe := (dataframe a)\<lparr>rows := srows\<rparr>\<rparr>)
                (b\<lparr>dataframe := (dataframe b)\<lparr>rows := orows\<rparr>\<rparr>))\<lparr>graph := g\<rparr>"
    and r5: "b' = b\<lparr>dataframe := (dataframe b)\<lparr>rows := orows\<rparr>, graph := g\<rparr>"
    using assms(1) un r1 r2 by simp_all
  note r = r1 r2 r3 r4 r5
  define s1 where "s1 = a\<lparr>dataframe := (dataframe a)\<lparr>rows := srows\<rparr>\<rparr>"
  define t1 where "t1 = b\<lparr>dataframe := (dataframe b)\<lparr>rows := orows\<rparr>\<rparr>"
  have s_ok: "in_graph (nodes w1) g (rnode r')" if h: "r' \<in> set srows" for r'
  proof -
    obtain k where "(k, rnode r') \<in> set m"
      using remap_rows_nodes[OF r(1) h] by blast
    then show ?thesis by (rule m)
  qed
  have o_ok: "in_graph (nodes w1) g (rnode r')" if h: "r' \<in> set orows" for r'
  proof -
    obtain k where "(k, rnode r') \<in> set m"
      using remap_rows_nodes[OF r(2) h] by blast
    then show ?thesis by (rule m)
  qed
  have da: "dataframe a' = dataframe (insert_missing_rows s1 t1)"
    unfolding r4 s1_def t1_def by simp
  have s1r: "rows (dataframe s1) = srows" and t1r: "rows (dataframe t1) = orows"
    by (simp_all add: s1_def t1_def)
  have sub: "rnode ` set (rows (dataframe a')) \<subseteq> rnode ` set srows \<union> rnode ` set orows"
    using insert_missing_rows_nodes[of s1 t1] unfolding da s1r t1r .
  have a_ok: "in_graph (nodes w1) g (rnode r')" if "r' \<in> set (rows (dataframe a'))" for r'
  proof -
    have "rnode r' \<in> rnode ` set srows \<union> rnode ` set orows"
      using sub that by blast
    then show ?thesis using s_ok o_ok by auto
  qed
  have ga: "graph a' = g" and gb: "graph b' = g"
    by (simp_all add: r(4,5) insert_missing_rows_def)
  have rb: "rows (dataframe b') = orows"
    by (simp add: r(5))
  have c1: "list_all (\<lambda>r. in_graph (nodes w') (graph a') (rnode r)) (rows (dataframe a'))"
    unfolding list_all_iff ga r(3) using a_ok by blast
  have c2: "list_all (\<lambda>r. in_graph (nodes w') (graph b') (rnode r)) (rows (dataframe b'))"
    unfolding list_all_iff gb r(3) rb using o_ok by blast
  show ?thesis
    using False c1 c2 ga gb by simp
qed


theorem unify_closure_witness:
  "unify ex_union ex_squashed_world ex_squashed_gf ex_inc_gf
     = Inr (ex_union_world, ex_unified_self, ex_unified_other)
   \<and> gid (graph ex_squashed_gf) \<noteq> gid (graph ex_inc_gf)
   \<and> list_all (\<lambda>r. in_graph (nodes ex_squashed_world) (graph ex_squashed_gf) (rnode r))
         (rows (dataframe ex_squashed_gf))
   \<and> list_all (\<lambda>r. in_graph (nodes ex_squashed_world) (graph ex_inc_gf) (rnode r))
         (rows (dataframe ex_inc_gf))
   \<and> list_all (\<lambda>(k, v). in_graph (nodes ex_union_world) ex_union_graph v) ex_node_map
   \<and> graph ex_unified_self = graph ex_unified_other
   \<and> list_all (\<lambda>r. in_graph (nodes ex_union_world) (graph ex_unified_self) (rnode r))
         (rows (dataframe ex_unified_self))
   \<and> list_all (\<lambda>r. in_graph (nodes ex_union_world) (graph ex_unified_other) (rnode r))
         (rows (dataframe ex_unified_other))
   \<and> unify ex_union ex_world ex_filtered_gf ex_inc_gf = Inr (ex_world, ex_filtered_gf, ex_inc_gf)
   \<and> graph ex_filtered_gf = graph ex_inc_gf"
proof -
  have u: "unify ex_union ex_squashed_world ex_squashed_gf ex_inc_gf
             = Inr (ex_union_world, ex_unified_self, ex_unified_other)"
    by code_simp
  have d: "gid (graph ex_squashed_gf) \<noteq> gid (graph ex_inc_gf)"
    by code_simp
  have ia: "list_all (\<lambda>r. in_graph (nodes ex_squashed_world) (graph ex_squashed_gf) (rnode r))
              (rows (dataframe ex_squashed_gf))"
    by code_simp
  have ib: "list_all (\<lambda>r. in_graph (nodes ex_squashed_world) (graph ex_inc_gf) (rnode r))
              (rows (dataframe ex_inc_gf))"
    by code_simp
  have m: "list_all (\<lambda>(k, v). in_graph (nodes ex_union_world) ex_union_graph v) ex_node_map"
    by code_simp
  have c: "case ex_union ex_squashed_world (graph ex_squashed_gf) (graph ex_inc_gf) of
             (w1, g, node_map) \<Rightarrow> list_all (\<lambda>(k, v). in_graph (nodes w1) g v) node_map"
    using m by (simp add: ex_union_def)
  have u2: "unify ex_union ex_world ex_filtered_gf ex_inc_gf = Inr (ex_world, ex_filtered_gf, ex_inc_gf)"
    by code_simp
  have e: "graph ex_filtered_gf = graph ex_inc_gf"
    by code_simp
  have ja: "list_all (\<lambda>r. in_graph (nodes ex_world) (graph ex_filtered_gf) (rnode r))
              (rows (dataframe ex_filtered_gf))"
    by code_simp
  have jb: "list_all (\<lambda>r. in_graph (nodes ex_world) (graph ex_inc_gf) (rnode r))
              (rows (dataframe ex_inc_gf))"
    by code_simp
  have p: "gid (graph ex_squashed_gf) = gid (graph ex_inc_gf)
             \<Longrightarrow> graph ex_squashed_gf = graph ex_inc_gf"
    using d by simp
  have r1: "graph ex_unified_self = graph ex_unified_other
         \<and> list_all (\<lambda>r. in_graph (nodes ex_union_world) (graph ex_unified_self) (rnode r))
              (rows (dataframe ex_unified_self))
         \<and> list_all (\<lambda>r. in_graph (nodes ex_union_world) (graph ex_unified_other) (rnode r))
              (rows (dataframe ex_unified_other))
         \<and> (gid (graph ex_squashed_gf) = gid (graph ex_inc_gf) \<longrightarrow>
              ex_union_world = ex_squashed_world \<and> ex_unified_self = ex_squashed_gf
              \<and> ex_unified_other = ex_inc_gf)"
    by (rule unify_closure [OF u p ia ib c])
  have r2: "graph ex_filtered_gf = graph ex_inc_gf
         \<and> list_all (\<lambda>r. in_graph (nodes ex_world) (graph ex_filtered_gf) (rnode r))
              (rows (dataframe ex_filtered_gf))
         \<and> list_all (\<lambda>r. in_graph (nodes ex_world) (graph ex_inc_gf) (rnode r))
              (rows (dataframe ex_inc_gf))
         \<and> (gid (graph ex_filtered_gf) = gid (graph ex_inc_gf) \<longrightarrow>
              ex_world = ex_world \<and> ex_filtered_gf = ex_filtered_gf \<and> ex_inc_gf = ex_inc_gf)"
    by (rule unify_closure [OF u2 e ja jb]) (simp add: e)
  show ?thesis
    using u d ia ib m r1 u2 r2 by (elim conjE) (intro conjI; assumption)
qed

text \<open>
  Claim C6, as amended. When \<open>a\<close> and \<open>b\<close> do not share their graph object, after
  \<^verbatim>\<open>a.unify(b)\<close> every node of the merged graph that has a row in the table of \<open>b\<close>
  and none in the table of \<open>a\<close> has a row in the table of \<open>a\<close> with NaN in every
  column of the union of the metrics and 2 in the column \<^verbatim>\<open>_missing_node\<close> (which is
  not itself a metric).
\<close>

theorem unify_missing_rows:
  assumes "unify graph_union w a b = Inr (w', a', b')"
    and "gid (graph a) \<noteq> gid (graph b)"
    and "''_missing_node'' \<notin> set (all_metrics a b)"
    and "graph_union w (graph a) (graph b) = (w1, g, node_map)"
    and "list_ex (\<lambda>r. map_of node_map (rnode r) = Some n) (rows (dataframe b))"
    and "list_all (\<lambda>r. map_of node_map (rnode r) \<noteq> Some n) (rows (dataframe a))"
  shows "list_ex (\<lambda>r. rnode r = n \<and> cell_at r ''_missing_node'' = Num 2
                     \<and> list_all (\<lambda>j. cell_at r j = NaN) (all_metrics a b))
           (rows (dataframe a'))"
proof -
  obtain srows orows where r:
      "remap_rows node_map (rows (dataframe a)) = Inr srows"
      "remap_rows node_map (rows (dataframe b)) = Inr orows"
      "a' = (insert_missing_rows (a\<lparr>dataframe := (dataframe a)\<lparr>rows := srows\<rparr>\<rparr>)
                (b\<lparr>dataframe := (dataframe b)\<lparr>rows := orows\<rparr>\<rparr>))\<lparr>graph := g\<rparr>"
    using assms(1,2,4) by (auto simp: unify_def split: sum.splits)
  define s1 where "s1 = a\<lparr>dataframe := (dataframe a)\<lparr>rows := srows\<rparr>\<rparr>"
  define t1 where "t1 = b\<lparr>dataframe := (dataframe b)\<lparr>rows := orows\<rparr>\<rparr>"
  have am: "all_metrics s1 t1 = all_metrics a b"
    by (simp add: all_metrics_def s1_def t1_def)
  obtain rb where rb: "rb \<in> set (rows (dataframe b))" "map_of node_map (rnode rb) = Some n"
    using assms(5) by (auto simp: list_ex_iff)
  define r1 where "r1 = rb\<lparr>rnode := n\<rparr>"
  have r1_in: "r1 \<in> set orows"
    using remap_rows_D[OF r(2)] rb by (force simp: r1_def)
  have "n \<notin> rnode ` set srows"
  proof
    assume "n \<in> rnode ` set srows"
    then obtain ra where "ra \<in> set (rows (dataframe a))" "the (map_of node_map (rnode ra)) = n"
      using remap_rows_D[OF r(1)] by auto
    moreover then obtain n' where "map_of node_map (rnode ra) = Some n'"
      using remap_rows_D[OF r(1)] by blast
    ultimately show False using assms(6) by (auto simp: list_all_iff)
  qed
  then have "r1 \<in> set (other_not_in_self s1 t1)"
    using r1_in by (simp add: other_not_in_self_set s1_def t1_def r1_def)
  then have "fold (\<lambda>j. set_cell j NaN) (all_metrics a b) (set_cell ''_missing_node'' (Num 2) r1)
               \<in> set (rows (missing_rows_table s1 t1))"
    by (auto simp: missing_rows_table_rows am)
  then have "fold (\<lambda>j. set_cell j NaN) (all_metrics a b) (set_cell ''_missing_node'' (Num 2) r1)
               \<in> set (rows (dataframe a'))"
    by (simp add: r(3) insert_missing_rows_def concat_tables_def s1_def t1_def)
  moreover have "rnode (fold (\<lambda>j. set_cell j NaN) (all_metrics a b) (set_cell ''_missing_node'' (Num 2) r1)) = n"
    by (simp add: r1_def)
  moreover have "cell_at (fold (\<lambda>j. set_cell j NaN) (all_metrics a b) (set_cell ''_missing_node'' (Num 2) r1))
                   ''_missing_node'' = Num 2"
    using assms(3) by (simp add: cell_at_fold_NaN cell_at_set_cell)
  moreover have "list_all (\<lambda>j. cell_at (fold (\<lambda>j. set_cell j NaN) (all_metrics a b)
                     (set_cell ''_missing_node'' (Num 2) r1)) j = NaN) (all_metrics a b)"
    by (simp add: list_all_iff cell_at_fold_NaN)
  ultimately show ?thesis
    unfolding list_ex_iff by blast
qed


theorem unify_missing_rows_witness:
  "unify ex_union ex_squashed_world ex_squashed_gf ex_inc_gf
     = Inr (ex_union_world, ex_unified_self, ex_unified_other)
   \<and> gid (graph ex_squashed_gf) \<noteq> gid (graph ex_inc_gf)
   \<and> ''_missing_node'' \<notin> set (all_metrics ex_squashed_gf ex_inc_gf)
   \<and> ex_union ex_squashed_world (graph ex_squashed_gf) (graph ex_inc_gf)
       = (ex_union_world, ex_union_graph, ex_node_map)
   \<and> list_ex (\<lambda>r. map_of ex_node_map (rnode r) = Some 7) (rows (dataframe ex_inc_gf))
   \<and> list_all (\<lambda>r. map_of ex_node_map (rnode r) \<noteq> Some 7) (rows (dataframe ex_squashed_gf))
   \<and> list_ex (\<lambda>r. rnode r = 7 \<and> cell_at r ''_missing_node'' = Num 2
                   \<and> list_all (\<lambda>j. cell_at r j = NaN) (all_metrics ex_squashed_gf ex_inc_gf))
         (rows (dataframe ex_unified_self))
   \<and> all_metrics ex_squashed_gf ex_inc_gf = [''time'', ''time (inc)'']"
proof -
  have u: "unify ex_union ex_squashed_world ex_squashed_gf ex_inc_gf
             = Inr (ex_union_world, ex_unified_self, ex_unified_other)"
    by code_simp
  have d: "gid (graph ex_squashed_gf) \<noteq> gid (graph ex_inc_gf)"
    by code_simp
  have n: "''_missing_node'' \<notin> set (all_metrics ex_squashed_gf ex_inc_gf)"
    by code_simp
  have g: "ex_union ex_squashed_world (graph ex_squashed_gf) (graph ex_inc_gf)
             = (ex_union_world, ex_union_graph, ex_node_map)"
    by (simp add: ex_union_def)
  have x: "list_ex (\<lambda>r. map_of ex_node_map (rnode r) = Some 7) (rows (dataframe ex_inc_gf))"
    by code_simp
  have y: "list_all (\<lambda>r. map_of ex_node_map (rnode r) \<noteq> Some 7) (rows (dataframe ex_squashed_gf))"
    by code_simp
  have am: "all_metrics ex_squashed_gf ex_inc_gf = [''time'', ''time (inc)'']"
    by code_simp
  show ?thesis
    using u d n g x y am unify_missing_rows [OF u d n g x y] by simp
qed

text \<open>
  Claim C6 as stated fails when both GraphFrames share their graph object: \<^verbatim>\<open>unify\<close>
  returns at once. Here \<open>a\<close> is the first example filtered to main and bar without a
  squash, and \<open>b\<close> is the first example; foo (address 1) has a row in \<open>b\<close> only, and after
  \<^verbatim>\<open>a.unify(b)\<close> it still has no row in \<open>a\<close>.
\<close>

theorem unify_shared_graph_counterexample:
  "unify ex_union ex_world ex_filtered_gf ex_inc_gf = Inr (ex_world, ex_filtered_gf, ex_inc_gf)
   \<and> gid (graph ex_filtered_gf) = gid (graph ex_inc_gf)
   \<and> has_node (dataframe ex_inc_gf) 1 \<and> \<not> has_node (dataframe ex_filtered_gf) 1"
  by code_simp

subsection \<open>Exclusive and inclusive columns on trees\<close>

lemma children_first_append:
  assumes "children_first st xs" and "children_first st ys"
  shows "children_first st (xs @ ys)"
  unfolding children_first_def
proof (intro allI impI)
  fix i assume i: "i < length (xs @ ys)"
  show "set (kids st ((xs @ ys) ! i)) \<subseteq> set (take i (xs @ ys))"
  proof (cases "i < length xs")
    case True
    then show ?thesis
      using assms(1) by (auto simp: children_first_def nth_append)
  next
    case False
    then have "i - length xs < length ys" using i by simp
    then have "set (kids st (ys ! (i - length xs))) \<subseteq> set (take (i - length xs) ys)"
      using assms(2) by (simp add: children_first_def)
    then show ?thesis using False by (auto simp: nth_append)
  qed
qed

lemma children_first_snoc:
  assumes "children_first st xs" and "set (kids st n) \<subseteq> set xs"
  shows "children_first st (xs @ [n])"
proof -
  have "children_first st [n] \<or> True" by simp
  show ?thesis
    unfolding children_first_def
  proof (intro allI impI)
    fix i assume i: "i < length (xs @ [n])"
    show "set (kids st ((xs @ [n]) ! i)) \<subseteq> set (take i (xs @ [n]))"
    proof (cases "i < length xs")
      case True
      then show ?thesis using assms(1) by (auto simp: children_first_def nth_append)
    next
      case False
      then have "i = length xs" using i by simp
      then show ?thesis using assms(2) by simp
    qed
  qed
qed

lemma traverse_post:
  "traverse_node k st post n s = Some s' \<Longrightarrow> post \<Longrightarrow> \<not> snd (snd s') \<Longrightarrow>
     \<not> snd (snd s) \<and> (\<exists>ext. fst (snd s') = fst (snd s) @ ext \<and> set (fst s') = set (fst s) \<union> set ext
        \<and> distinct ext \<and> set ext \<inter> set (fst s) = {} \<and> n \<in> set ext \<and> children_first st ext)"
  "traverse_list k st post cs s = Some s' \<Longrightarrow> post \<Longrightarrow> \<not> snd (snd s') \<Longrightarrow>
     \<not> snd (snd s) \<and> (\<exists>ext. fst (snd s') = fst (snd s) @ ext \<and> set (fst s') = set (fst s) \<union> set ext
        \<and> distinct ext \<and> set ext \<inter> set (fst s) = {} \<and> set cs \<subseteq> set ext \<and> children_first st ext)"
proof (induction k st post n s and k st post cs s arbitrary: s' and s'
       rule: traverse_node_traverse_list.induct)
  case (1 st post n s)
  then show ?case by simp
next
  case (2 k st post n vis out again)
  from "2.prems" have nv: "n \<notin> set vis"
    by (auto split: if_splits)
  then obtain vis' out' again' where
    t: "traverse_list k st post (kids st n) (n # vis, out, again) = Some (vis', out', again')"
    and s': "s' = (vis', out' @ [n], again')"
    using "2.prems"(1,2) by (auto split: option.splits)
  have na: "\<not> snd (snd (vis', out', again'))" using "2.prems"(3) s' by simp
  have t': "traverse_list k st post (kids st n) (n # vis, if post then out else out @ [n], again)
              = Some (vis', out', again')"
    using t "2.prems"(2) by simp
  from "2.IH"[OF nv t' "2.prems"(2) na] "2.prems"(2) obtain ext where
    e: "\<not> again" "out' = out @ ext" "set vis' = set (n # vis) \<union> set ext" "distinct ext"
       "set ext \<inter> set (n # vis) = {}" "set (kids st n) \<subseteq> set ext" "children_first st ext"
    by auto
  have "children_first st (ext @ [n])"
    using e(7,6) by (rule children_first_snoc)
  then show ?case
    using e s' nv by (intro conjI exI[of _ "ext @ [n]"]) auto
next
  case (3 k st post s)
  then show ?case by (auto simp: children_first_def)
next
  case (4 k st post c cs s)
  from "4.prems"(1) obtain s1 where
    a: "traverse_node k st post c s = Some s1" and b: "traverse_list k st post cs s1 = Some s'"
    by (auto split: option.splits)
  from "4.IH"(2)[OF a b "4.prems"(2,3)] obtain ext2 where
    e2: "\<not> snd (snd s1)" "fst (snd s') = fst (snd s1) @ ext2" "set (fst s') = set (fst s1) \<union> set ext2"
        "distinct ext2" "set ext2 \<inter> set (fst s1) = {}" "set cs \<subseteq> set ext2" "children_first st ext2"
    by auto
  from "4.IH"(1)[OF a "4.prems"(2) e2(1)] obtain ext1 where
    e1: "\<not> snd (snd s)" "fst (snd s1) = fst (snd s) @ ext1" "set (fst s1) = set (fst s) \<union> set ext1"
        "distinct ext1" "set ext1 \<inter> set (fst s) = {}" "c \<in> set ext1" "children_first st ext1"
    by auto
  have "children_first st (ext1 @ ext2)"
    using e1(7) e2(7) by (rule children_first_append)
  then show ?case
    using e1 e2 by (intro conjI exI[of _ "ext1 @ ext2"]) auto
qed

lemma rnode_written [simp]: "rnode (written multi n t v r) = rnode r"
  by (simp add: written_def)

lemma rdims_written [simp]: "rdims (written multi n t v r) = rdims r"
  by (simp add: written_def)

lemma task_key_written [simp]: "task_key multi (written multi' n t v r) c = task_key multi r c"
  by (simp add: task_key_def)

lemma family_rows_map:
  assumes "\<And>r. rnode (g r) = rnode r" and "\<And>r. rdims (g r) = rdims r"
  shows "family_rows multi ns d (map g rs) = map g (family_rows multi ns d rs)"
proof -
  have f: "filter p (map g rs) = map g (filter (\<lambda>r. p (g r)) rs)" for p
    by (simp add: filter_map comp_def)
  show ?thesis
    by (simp add: family_rows_def f assms map_concat comp_def)
qed

lemma write_task_D:
  assumes "write_task multi func n ns t df = Inr df'" and "\<not> multi \<Longrightarrow> fst t = []"
  shows "\<exists>v. func (map (\<lambda>x. cell_at x (snd t)) (family_rows multi ns (fst t) (rows df))) = Inr v
           \<and> df' = df\<lparr>rows := map (written multi n t v) (rows df)\<rparr>"
proof (cases multi)
  case True
  then obtain cs v where
    a: "loc_nodes_dims df ns (fst t) (snd t) = Inr cs" "func cs = Inr v"
       "df' = set_loc_node_dims n (fst t) (snd t) v df"
    using assms(1) by (auto simp: write_task_def sum_into_dims_def split: sum.splits)
  have "cs = map (\<lambda>x. cell_at x (snd t)) (family_rows True ns (fst t) (rows df))"
    using a(1) by (auto simp: loc_nodes_dims_def family_rows_def split: if_splits)
  moreover have "set_loc_node_dims n (fst t) (snd t) v df = df\<lparr>rows := map (written True n t v) (rows df)\<rparr>"
    by (cases t) (auto simp: set_loc_node_dims_def written_def task_key_def)
  ultimately show ?thesis using a True by auto
next
  case False
  then obtain cs v where
    a: "loc_nodes df ns (snd t) = Inr cs" "func cs = Inr v"
       "df' = set_loc_node n (snd t) v df"
    using assms(1) by (auto simp: write_task_def sum_into_def split: sum.splits)
  have "cs = map (\<lambda>x. cell_at x (snd t)) (family_rows False ns (fst t) (rows df))"
    using a(1) by (auto simp: loc_nodes_def family_rows_def map_concat comp_def split: if_splits)
  moreover have "set_loc_node n (snd t) v df = df\<lparr>rows := map (written False n t v) (rows df)\<rparr>"
    using assms(2)[OF False] by (cases t) (auto simp: set_loc_node_def written_def task_key_def)
  ultimately show ?thesis using a False by auto
qed

lemma family_rows_single_dims: "family_rows False ns d rs = family_rows False ns d' rs"
  by (simp add: family_rows_def)

lemma family_cells_written:
  assumes "t' \<noteq> t" and "\<not> multi \<Longrightarrow> fst t = [] \<and> fst t' = []"
  shows "map (\<lambda>x. cell_at x (snd t')) (family_rows multi ns (fst t') (map (written multi n t v) rs))
           = map (\<lambda>x. cell_at x (snd t')) (family_rows multi ns (fst t') rs)"
proof -
  have "cell_at (written multi n t v x) (snd t') = cell_at x (snd t')"
    if "x \<in> set (family_rows multi ns (fst t') rs)" for x
  proof (cases "snd t' = snd t")
    case False
    then show ?thesis by (simp add: written_def cell_at_set_cell)
  next
    case True
    then have ft: "fst t' \<noteq> fst t" using assms(1) by (metis prod.collapse)
    have multi using assms(2) ft by (cases multi) simp_all
    then have "rdims x = fst t'" using that by (auto simp: family_rows_def)
    then have "task_key multi x (snd t) \<noteq> t"
      using ft \<open>multi\<close> by (cases t) (auto simp: task_key_def)
    then show ?thesis by (simp add: written_def)
  qed
  then show ?thesis
    by (simp add: family_rows_map)
qed

lemma write_tasks:
  assumes "foldE (write_task multi func n ns) ts df = Inr df'" and "distinct ts"
    and "\<not> multi \<Longrightarrow> \<forall>t \<in> set ts. fst t = []"
  shows "list_all2 (task_rel multi func n ns (set ts) (rows df)) (rows df) (rows df')
         \<and> columns df' = columns df \<and> index_names df' = index_names df"
  using assms
proof (induction ts arbitrary: df)
  case Nil
  then show ?case
    by (auto simp: task_rel_def list_all2_same)
next
  case (Cons t ts)
  obtain df1 where s: "write_task multi func n ns t df = Inr df1"
      "foldE (write_task multi func n ns) ts df1 = Inr df'"
    using Cons.prems(1) by (auto split: sum.splits)
  have single: "\<not> multi \<Longrightarrow> fst t = []" using Cons.prems(3) by simp
  obtain v where v: "func (map (\<lambda>x. cell_at x (snd t)) (family_rows multi ns (fst t) (rows df))) = Inr v"
      "df1 = df\<lparr>rows := map (written multi n t v) (rows df)\<rparr>"
    using write_task_D[OF s(1) single] by blast
  have ih: "list_all2 (task_rel multi func n ns (set ts) (rows df1)) (rows df1) (rows df')"
      "columns df' = columns df1" "index_names df' = index_names df1"
    using Cons.IH[OF s(2)] Cons.prems(2,3) by auto
  have r1: "rows df1 = map (written multi n t v) (rows df)" using v(2) by simp
  have step: "task_rel multi func n ns (set (t # ts)) (rows df) r r'"
    if rel: "task_rel multi func n ns (set ts) (rows df1) (written multi n t v r) r'" for r r'
    unfolding task_rel_def
  proof (intro conjI allI)
    show "rnode r' = rnode r" "rdims r' = rdims r"
      using rel by (simp_all add: task_rel_def)
    fix c
    have relc: "if rnode r = n \<and> task_key multi r c \<in> set ts
          then func (map (\<lambda>x. cell_at x c) (family_rows multi ns (rdims r) (rows df1))) = Inr (cell_at r' c)
          else cell_at r' c = cell_at (written multi n t v r) c"
      using rel unfolding task_rel_def
      by (elim conjE) (drule spec[of _ c], auto split: if_splits)
    show "if rnode r = n \<and> task_key multi r c \<in> set (t # ts)
          then func (map (\<lambda>x. cell_at x c) (family_rows multi ns (rdims r) (rows df))) = Inr (cell_at r' c)
          else cell_at r' c = cell_at r c"
    proof (cases "rnode r = n \<and> task_key multi r c \<in> set ts")
      case True
      define t' where "t' = task_key multi r c"
      have t't: "t' \<noteq> t" using True Cons.prems(2) by (auto simp: t'_def)
      have sn: "snd t' = c" by (simp add: t'_def task_key_def)
      have fam: "family_rows multi ns (rdims r) rs = family_rows multi ns (fst t') rs" for rs
        by (cases multi) (simp_all add: t'_def task_key_def family_rows_def)
      have sing: "\<not> multi \<Longrightarrow> fst t = [] \<and> fst t' = []"
        using single by (simp add: t'_def task_key_def)
      have "func (map (\<lambda>x. cell_at x c) (family_rows multi ns (rdims r) (rows df1))) = Inr (cell_at r' c)"
        using relc True by simp
      moreover have "map (\<lambda>x. cell_at x c) (family_rows multi ns (rdims r) (rows df1))
                       = map (\<lambda>x. cell_at x c) (family_rows multi ns (rdims r) (rows df))"
        using family_cells_written[OF t't sing, where ns=ns and n=n and v=v and rs="rows df"] by (simp add: r1 fam sn)
      ultimately show ?thesis using True by simp
    next
      case False
      then have keep: "cell_at r' c = cell_at (written multi n t v r) c"
        using relc by simp
      show ?thesis
      proof (cases "rnode r = n \<and> task_key multi r c = t")
        case True
        then have c: "snd t = c" by (auto simp: task_key_def)
        have d: "family_rows multi ns (rdims r) (rows df) = family_rows multi ns (fst t) (rows df)"
          using True by (cases multi) (auto simp: task_key_def family_rows_def)
        have "cell_at r' c = v"
          using keep True c by (simp add: written_def cell_at_set_cell)
        then show ?thesis using True v(1) c d by simp
      next
        case F2: False
        have "cell_at (written multi n t v r) c = cell_at r c"
        proof (cases "snd t = c")
          case True
          then have "\<not> (rnode r = n \<and> task_key multi r (snd t) = t)" using F2 by simp
          then show ?thesis by (auto simp: written_def)
        next
          case False
          then show ?thesis by (simp add: written_def cell_at_set_cell)
        qed
        then show ?thesis using keep False F2 by auto
      qed
    qed
  qed
  have "list_all2 (\<lambda>r r'. task_rel multi func n ns (set ts) (rows df1) (written multi n t v r) r')
          (rows df) (rows df')"
    using ih(1) by (simp add: r1 list_all2_map1)
  then have "list_all2 (task_rel multi func n ns (set (t # ts)) (rows df)) (rows df) (rows df')"
    by (rule list_all2_mono) (rule step)
  then show ?case using ih(2,3) v(2) by simp
qed

lemma foldE_append:
  "foldE f (xs @ ys) s = (case foldE f xs s of Inl e \<Rightarrow> Inl e | Inr s' \<Rightarrow> foldE f ys s')"
  by (induction xs arbitrary: s) (auto split: sum.splits)

lemma foldE_map: "foldE f (map g xs) s = foldE (\<lambda>x. f (g x)) xs s"
  by (induction xs arbitrary: s) (auto split: sum.splits)

lemma foldE_product:
  "foldE (\<lambda>d. foldE (\<lambda>c. f (d, c)) cs) ds s = foldE f (List.product ds cs) s"
  by (induction ds arbitrary: s) (auto simp: foldE_append foldE_map split: sum.splits)

lemma subtree_sum_node_rel:
  assumes "subtree_sum_node st func outs n df = Inr df'" and "distinct outs"
  shows "list_all2 (node_rel (is_multi_index df) func n (kids st n) outs (rows df)) (rows df) (rows df')
         \<and> columns df' = columns df \<and> index_names df' = index_names df"
proof (cases "kids st n = []")
  case True
  then have "df' = df" using assms(1) by (simp add: subtree_sum_node_def)
  then show ?thesis using True by (simp add: node_rel_def list_all2_same)
next
  case False
  define multi where "multi = is_multi_index df"
  define ks where "ks = kids st n"
  obtain ts where ts: "foldE (write_task multi func n (n # ks)) ts df = Inr df'" "distinct ts"
      "\<not> multi \<Longrightarrow> \<forall>t \<in> set ts. fst t = []"
      "\<And>r c. r \<in> set (rows df) \<Longrightarrow> rnode r = n \<Longrightarrow> (task_key multi r c \<in> set ts) = (c \<in> set outs)"
  proof (cases multi)
    case True
    then obtain ds where ds: "node_dims df n outs = Inr ds"
        "foldE (\<lambda>d. foldE (\<lambda>col. sum_into_dims func n (n # ks) d col) outs) ds df = Inr df'"
      using assms(1) False by (auto simp: subtree_sum_node_def multi_def ks_def split: sum.splits)
    have dsv: "ds = remdups (map rdims (filter (\<lambda>r. rnode r = n) (rows df)))"
      using ds(1) by (auto simp: node_dims_def split: if_splits)
    have "foldE (write_task multi func n (n # ks)) (List.product ds outs) df = Inr df'"
      using ds(2) True foldE_product[of "\<lambda>t. sum_into_dims func n (n # ks) (fst t) (snd t)" outs ds df]
      by (simp add: write_task_def[abs_def])
    moreover have "distinct (List.product ds outs)"
      using assms(2) dsv by (simp add: distinct_product)
    moreover have "(task_key multi r c \<in> set (List.product ds outs)) = (c \<in> set outs)"
      if "r \<in> set (rows df)" "rnode r = n" for r c
      using that True dsv by (auto simp: task_key_def)
    ultimately show ?thesis using that True by blast
  next
    case F: False
    then have "foldE (\<lambda>col. sum_into func n (n # ks) col) outs df = Inr df'"
      using assms(1) False by (auto simp: subtree_sum_node_def multi_def ks_def)
    then have "foldE (write_task multi func n (n # ks)) (map (Pair []) outs) df = Inr df'"
      using F by (simp add: foldE_map write_task_def[abs_def])
    moreover have "distinct (map (Pair ([]::int list)) outs)"
      using assms(2) by (simp add: distinct_map inj_on_def)
    moreover have "(task_key multi r c \<in> set (map (Pair []) outs)) = (c \<in> set outs)" for r c
      using F by (auto simp: task_key_def)
    ultimately show ?thesis using that F by auto
  qed
  have wt: "list_all2 (task_rel multi func n (n # ks) (set ts) (rows df)) (rows df) (rows df')"
      "columns df' = columns df" "index_names df' = index_names df"
    using write_tasks[OF ts(1,2,3)] by auto
  have "list_all2 (node_rel multi func n ks outs (rows df)) (rows df) (rows df')"
    using wt(1)
  proof (rule list.rel_mono_strong)
    fix r r'
    assume r: "r \<in> set (rows df)" and rel: "task_rel multi func n (n # ks) (set ts) (rows df) r r'"
    show "node_rel multi func n ks outs (rows df) r r'"
      unfolding node_rel_def
    proof (intro conjI allI)
      show "rnode r' = rnode r" "rdims r' = rdims r"
        using rel by (simp_all add: task_rel_def)
      fix c
      have relc: "if rnode r = n \<and> task_key multi r c \<in> set ts
          then func (map (\<lambda>x. cell_at x c) (family_rows multi (n # ks) (rdims r) (rows df))) = Inr (cell_at r' c)
          else cell_at r' c = cell_at r c"
        using rel unfolding task_rel_def
        by (elim conjE) (drule spec[of _ c], auto split: if_splits)
      show "if rnode r = n \<and> ks \<noteq> [] \<and> c \<in> set outs
            then func (map (\<lambda>x. cell_at x c) (family_rows multi (n # ks) (rdims r) (rows df))) = Inr (cell_at r' c)
            else cell_at r' c = cell_at r c"
        using relc ts(4)[OF r] False by (auto simp: ks_def split: if_splits)
    qed
  qed
  then show ?thesis using wt(2,3) by (simp add: multi_def ks_def)
qed

lemma family_rows_subset: "x \<in> set (family_rows multi ns d rs) \<Longrightarrow> x \<in> set rs \<and> rnode x \<in> set ns"
  by (auto simp: family_rows_def split: if_splits)

lemma list_all2_filter_same:
  assumes "list_all2 R xs ys" and "\<And>x y. R x y \<Longrightarrow> p x = q y"
  shows "list_all2 R (filter p xs) (filter q ys)"
  using assms(1)
proof (induction rule: list_all2_induct)
  case Nil
  then show ?case by simp
next
  case (Cons x xs y ys)
  then show ?case using assms(2)[of x y] by auto
qed

lemma list_all2_family_rows:
  assumes "list_all2 R xs ys" and "\<And>x y. R x y \<Longrightarrow> rnode y = rnode x \<and> rdims y = rdims x"
  shows "list_all2 R (family_rows multi ns d xs) (family_rows multi ns d ys)"
proof (cases multi)
  case True
  then show ?thesis
    using list_all2_filter_same[OF assms(1), of "\<lambda>r. rnode r \<in> set ns \<and> rdims r = d"
        "\<lambda>r. rnode r \<in> set ns \<and> rdims r = d"] assms(2)
    by (simp add: family_rows_def)
next
  case False
  have "list_all2 R (concat (map (\<lambda>n. filter (\<lambda>r. rnode r = n) xs) ns))
          (concat (map (\<lambda>n. filter (\<lambda>r. rnode r = n) ys) ns))"
  proof (induction ns)
    case Nil
    then show ?case by simp
  next
    case (Cons n ns)
    have "list_all2 R (filter (\<lambda>r. rnode r = n) xs) (filter (\<lambda>r. rnode r = n) ys)"
      using list_all2_filter_same[OF assms(1), of "\<lambda>r. rnode r = n" "\<lambda>r. rnode r = n"] assms(2)
      by simp
    then show ?case using Cons by (simp add: list_all2_appendI)
  qed
  then show ?thesis using False by (simp add: family_rows_def)
qed

lemma list_all2_map_eq:
  "list_all2 (\<lambda>x y. f x = g y) xs ys \<Longrightarrow> map f xs = map g ys"
  by (induction rule: list_all2_induct) auto

lemma node_rel_D:
  assumes "node_rel multi func n ks outs rs r r'"
  shows "rnode r' = rnode r" "rdims r' = rdims r"
    "rnode r = n \<and> ks \<noteq> [] \<and> c \<in> set outs \<Longrightarrow>
       func (map (\<lambda>x. cell_at x c) (family_rows multi (n # ks) (rdims r) rs)) = Inr (cell_at r' c)"
    "\<not> (rnode r = n \<and> ks \<noteq> [] \<and> c \<in> set outs) \<Longrightarrow> cell_at r' c = cell_at r c"
proof -
  show "rnode r' = rnode r" "rdims r' = rdims r"
    using assms by (simp_all add: node_rel_def)
  have relc: "if rnode r = n \<and> ks \<noteq> [] \<and> c \<in> set outs
          then func (map (\<lambda>x. cell_at x c) (family_rows multi (n # ks) (rdims r) rs)) = Inr (cell_at r' c)
          else cell_at r' c = cell_at r c"
    using assms unfolding node_rel_def
    by (elim conjE) (drule spec[of _ c], auto split: if_splits)
  show "rnode r = n \<and> ks \<noteq> [] \<and> c \<in> set outs \<Longrightarrow>
       func (map (\<lambda>x. cell_at x c) (family_rows multi (n # ks) (rdims r) rs)) = Inr (cell_at r' c)"
    using relc by simp
  show "\<not> (rnode r = n \<and> ks \<noteq> [] \<and> c \<in> set outs) \<Longrightarrow> cell_at r' c = cell_at r c"
    using relc by simp
qed

lemma list_all2_in_right:
  "list_all2 R xs ys \<Longrightarrow> y \<in> set ys \<Longrightarrow> \<exists>x \<in> set xs. R x y"
  by (induction rule: list_all2_induct) auto

lemma sum_inv_step:
  assumes rel: "list_all2 (node_rel multi func n (kids st n) outs rs) rs rs'"
    and inv: "sum_inv st multi func ec oc D rs"
    and oc: "oc \<in> set outs" and ec: "ec \<notin> set outs"
    and n: "n \<notin> D"
    and kn: "set (kids st n) \<subseteq> D"
    and kD: "\<And>m. m \<in> D \<Longrightarrow> set (kids st m) \<subseteq> D"
  shows "sum_inv st multi func ec oc (insert n D) rs'"
  unfolding sum_inv_def
proof
  fix r' assume r': "r' \<in> set rs'"
  then obtain r where r: "r \<in> set rs" "node_rel multi func n (kids st n) outs rs r r'"
    using list_all2_in_right[OF rel r'] by blast
  note nr = node_rel_D[OF r(2)]
  have keys: "\<And>x y. node_rel multi func n (kids st n) outs rs x y \<Longrightarrow> rnode y = rnode x \<and> rdims y = rdims x"
    by (simp add: node_rel_def)
  have fam: "list_all2 (node_rel multi func n (kids st n) outs rs)
               (family_rows multi ns d rs) (family_rows multi ns d rs')" for ns d
    using list_all2_family_rows[OF rel keys] by simp
  have inv_r: "\<And>x. x \<in> set rs \<Longrightarrow> \<not> (rnode x \<in> D \<and> kids st (rnode x) \<noteq> []) \<Longrightarrow> cell_at x oc = cell_at x ec"
    using inv by (auto simp: sum_inv_def)
  have e_same: "\<And>x y. node_rel multi func n (kids st n) outs rs x y \<Longrightarrow> cell_at y ec = cell_at x ec"
    using node_rel_D(4) ec by blast
  show "if rnode r' \<in> insert n D \<and> kids st (rnode r') \<noteq> []
        then func (map (\<lambda>x. if rnode x = rnode r' then cell_at x ec else cell_at x oc)
                     (family_rows multi (rnode r' # kids st (rnode r')) (rdims r') rs')) = Inr (cell_at r' oc)
        else cell_at r' oc = cell_at r' ec"
  proof (cases "rnode r = n \<and> kids st n \<noteq> []")
    case True
    have v: "func (map (\<lambda>x. cell_at x oc) (family_rows multi (n # kids st n) (rdims r) rs)) = Inr (cell_at r' oc)"
      using nr(3)[of oc] True oc by simp
    have "list_all2 (\<lambda>x y. cell_at x oc = (if rnode y = n then cell_at y ec else cell_at y oc))
            (family_rows multi (n # kids st n) (rdims r) rs)
            (family_rows multi (n # kids st n) (rdims r) rs')"
      using fam
    proof (rule list.rel_mono_strong)
      fix x y
      assume x: "x \<in> set (family_rows multi (n # kids st n) (rdims r) rs)"
        and xy: "node_rel multi func n (kids st n) outs rs x y"
      have xin: "x \<in> set rs" using x family_rows_subset by blast
      note nx = node_rel_D[OF xy]
      show "cell_at x oc = (if rnode y = n then cell_at y ec else cell_at y oc)"
      proof (cases "rnode x = n")
        case T: True
        have "cell_at x oc = cell_at x ec" using inv_r[OF xin] T n by simp
        then show ?thesis using T nx(1) e_same[OF xy] by simp
      next
        case F: False
        then show ?thesis using nx(1) nx(4)[of oc] by simp
      qed
    qed
    then have "map (\<lambda>x. cell_at x oc) (family_rows multi (n # kids st n) (rdims r) rs)
             = map (\<lambda>y. if rnode y = n then cell_at y ec else cell_at y oc)
                 (family_rows multi (n # kids st n) (rdims r) rs')"
      by (rule list_all2_map_eq)
    then show ?thesis using v True nr(1,2) by simp
  next
    case False
    have same: "cell_at r' c = cell_at r c" for c
      using nr(4)[of c] False by auto
    show ?thesis
    proof (cases "rnode r \<in> D \<and> kids st (rnode r) \<noteq> []")
      case T: True
      define m where "m = rnode r"
      have mn: "m \<noteq> n" using T n by (auto simp: m_def)
      have sub: "set (m # kids st m) \<subseteq> D" using T kD by (auto simp: m_def)
      have old: "func (map (\<lambda>x. if rnode x = m then cell_at x ec else cell_at x oc)
                     (family_rows multi (m # kids st m) (rdims r) rs)) = Inr (cell_at r oc)"
        using inv r(1) T by (auto simp: sum_inv_def m_def)
      have "list_all2 (\<lambda>x y. (if rnode x = m then cell_at x ec else cell_at x oc)
                            = (if rnode y = m then cell_at y ec else cell_at y oc))
            (family_rows multi (m # kids st m) (rdims r) rs)
            (family_rows multi (m # kids st m) (rdims r) rs')"
        using fam
      proof (rule list.rel_mono_strong)
        fix x y
        assume x: "x \<in> set (family_rows multi (m # kids st m) (rdims r) rs)"
          and xy: "node_rel multi func n (kids st n) outs rs x y"
        have "rnode x \<in> D" using x family_rows_subset sub by blast
        then have xn: "rnode x \<noteq> n" using n by auto
        note nx = node_rel_D[OF xy]
        show "(if rnode x = m then cell_at x ec else cell_at x oc)
                = (if rnode y = m then cell_at y ec else cell_at y oc)"
          using nx(1) nx(4)[of oc] nx(4)[of ec] xn by simp
      qed
      then have "map (\<lambda>x. if rnode x = m then cell_at x ec else cell_at x oc)
                   (family_rows multi (m # kids st m) (rdims r) rs)
               = map (\<lambda>y. if rnode y = m then cell_at y ec else cell_at y oc)
                   (family_rows multi (m # kids st m) (rdims r) rs')"
        by (rule list_all2_map_eq)
      then show ?thesis using old T nr(1,2) same[of oc] by (simp add: m_def)
    next
      case F: False
      have "cell_at r oc = cell_at r ec" using inv_r[OF r(1) F] .
      then have eq: "cell_at r' oc = cell_at r' ec" using same by simp
      have "\<not> (rnode r' \<in> insert n D \<and> kids st (rnode r') \<noteq> [])"
        using F False nr(1) by auto
      then show ?thesis using eq by auto
    qed
  qed
qed

lemma children_first_prefix:
  assumes "children_first st (xs @ n # ys)"
  shows "set (kids st n) \<subseteq> set xs" and "\<And>m. m \<in> set xs \<Longrightarrow> set (kids st m) \<subseteq> set xs"
proof -
  have h: "\<forall>i < length (xs @ n # ys). set (kids st ((xs @ n # ys) ! i)) \<subseteq> set (take i (xs @ n # ys))"
    using assms by (simp only: children_first_def)
  have "set (kids st ((xs @ n # ys) ! length xs)) \<subseteq> set (take (length xs) (xs @ n # ys))"
    using h[rule_format, of "length xs"] by simp
  then show "set (kids st n) \<subseteq> set xs" by simp
  fix m assume "m \<in> set xs"
  then obtain i where i: "i < length xs" "xs ! i = m" by (auto simp: in_set_conv_nth)
  have "set (kids st ((xs @ n # ys) ! i)) \<subseteq> set (take i (xs @ n # ys))"
    using h[rule_format, of i] i(1) by simp
  then have "set (kids st m) \<subseteq> set (take i xs)" using i by (simp add: nth_append)
  then show "set (kids st m) \<subseteq> set xs" by (meson order_trans set_take_subset)
qed

lemma sum_inv_fold:
  assumes "foldE (subtree_sum_node st func outs) todo df1 = Inr df"
    and "distinct outs" and "oc \<in> set outs" and "ec \<notin> set outs"
    and "distinct (done @ todo)" and "children_first st (done @ todo)"
    and "sum_inv st (is_multi_index df1) func ec oc (set done) (rows df1)"
  shows "sum_inv st (is_multi_index df) func ec oc (set (done @ todo)) (rows df)
         \<and> index_names df = index_names df1 \<and> columns df = columns df1"
  using assms(1,5,6,7)
proof (induction todo arbitrary: "done" df1)
  case Nil
  then show ?case by simp
next
  case (Cons n todo)
  obtain df2 where s: "subtree_sum_node st func outs n df1 = Inr df2"
      "foldE (subtree_sum_node st func outs) todo df2 = Inr df"
    using Cons.prems(1) by (auto split: sum.splits)
  have rel: "list_all2 (node_rel (is_multi_index df1) func n (kids st n) outs (rows df1)) (rows df1) (rows df2)"
    and same: "columns df2 = columns df1" "index_names df2 = index_names df1"
    using subtree_sum_node_rel[OF s(1) assms(2)] by auto
  have mi: "is_multi_index df2 = is_multi_index df1"
    using same(2) by (simp add: is_multi_index_def)
  have n: "n \<notin> set done" using Cons.prems(2) by auto
  note cf = children_first_prefix[OF Cons.prems(3)]
  have "sum_inv st (is_multi_index df1) func ec oc (insert n (set done)) (rows df2)"
    using sum_inv_step[OF rel Cons.prems(4) assms(3,4) n cf(1) cf(2)] by simp
  then have inv2: "sum_inv st (is_multi_index df2) func ec oc (set (done @ [n])) (rows df2)"
    using mi by simp
  have "sum_inv st (is_multi_index df) func ec oc (set ((done @ [n]) @ todo)) (rows df)
         \<and> index_names df = index_names df2 \<and> columns df = columns df2"
    using Cons.IH[OF s(2) _ _ inv2] Cons.prems(2,3) by simp
  then show ?case using same by simp
qed

lemma copy_columns_init:
  assumes "foldE (\<lambda>(col, out). copy_column col out) ps df = Inr df0"
    and "distinct (map snd ps)" and "set (map snd ps) \<inter> set (map fst ps) = {}"
  shows "list_all2 (\<lambda>r r0. rnode r0 = rnode r \<and> rdims r0 = rdims r
                      \<and> (\<forall>c. c \<notin> set (map snd ps) \<longrightarrow> cell_at r0 c = cell_at r c)
                      \<and> (\<forall>p \<in> set ps. cell_at r0 (snd p) = cell_at r (fst p))) (rows df) (rows df0)
         \<and> index_names df0 = index_names df"
  using assms
proof (induction ps arbitrary: df)
  case Nil
  then show ?case by (simp add: list_all2_same)
next
  case (Cons p ps)
  obtain ec oc where p: "p = (ec, oc)" by (cases p)
  obtain df1 where s: "copy_column ec oc df = Inr df1"
      "foldE (\<lambda>(col, out). copy_column col out) ps df1 = Inr df0"
    using Cons.prems(1) p by (auto split: sum.splits)
  have r1: "rows df1 = map (\<lambda>r. set_cell oc (cell_at r ec) r) (rows df)"
    and i1: "index_names df1 = index_names df"
    using s(1) by (auto simp: copy_column_def split: if_splits)
  have ih: "list_all2 (\<lambda>r r0. rnode r0 = rnode r \<and> rdims r0 = rdims r
                      \<and> (\<forall>c. c \<notin> set (map snd ps) \<longrightarrow> cell_at r0 c = cell_at r c)
                      \<and> (\<forall>p \<in> set ps. cell_at r0 (snd p) = cell_at r (fst p))) (rows df1) (rows df0)"
    and i0: "index_names df0 = index_names df1"
    using Cons.IH[OF s(2)] Cons.prems(2,3) by auto
  have oc_new: "oc \<notin> set (map snd ps)" using Cons.prems(2) p by simp
  have ec_oc: "ec \<noteq> oc" using Cons.prems(3) p by auto
  have fst_oc: "\<And>q. q \<in> set ps \<Longrightarrow> fst q \<noteq> oc" using Cons.prems(3) p by auto
  have "list_all2 (\<lambda>r r0. rnode r0 = rnode (set_cell oc (cell_at r ec) r)
                      \<and> rdims r0 = rdims (set_cell oc (cell_at r ec) r)
                      \<and> (\<forall>c. c \<notin> set (map snd ps) \<longrightarrow> cell_at r0 c = cell_at (set_cell oc (cell_at r ec) r) c)
                      \<and> (\<forall>p \<in> set ps. cell_at r0 (snd p) = cell_at (set_cell oc (cell_at r ec) r) (fst p)))
          (rows df) (rows df0)"
    using ih by (simp add: r1 list_all2_map1)
  then have "list_all2 (\<lambda>r r0. rnode r0 = rnode r \<and> rdims r0 = rdims r
                      \<and> (\<forall>c. c \<notin> set (map snd (p # ps)) \<longrightarrow> cell_at r0 c = cell_at r c)
                      \<and> (\<forall>p \<in> set (p # ps). cell_at r0 (snd p) = cell_at r (fst p))) (rows df) (rows df0)"
  proof (rule list_all2_mono)
    fix r r0
    assume a: "rnode r0 = rnode (set_cell oc (cell_at r ec) r)
                      \<and> rdims r0 = rdims (set_cell oc (cell_at r ec) r)
                      \<and> (\<forall>c. c \<notin> set (map snd ps) \<longrightarrow> cell_at r0 c = cell_at (set_cell oc (cell_at r ec) r) c)
                      \<and> (\<forall>p \<in> set ps. cell_at r0 (snd p) = cell_at (set_cell oc (cell_at r ec) r) (fst p))"
    have k: "rnode r0 = rnode r" "rdims r0 = rdims r" using a by simp_all
    have c1: "cell_at r0 c = cell_at r c" if "c \<notin> set (map snd (p # ps))" for c
    proof -
      have "c \<noteq> oc" "c \<notin> set (map snd ps)" using that p by auto
      then show ?thesis using a by (simp add: cell_at_set_cell)
    qed
    have c2: "cell_at r0 (snd q) = cell_at r (fst q)" if "q \<in> set (p # ps)" for q
    proof (cases "q \<in> set ps")
      case True
      then have "cell_at r0 (snd q) = cell_at (set_cell oc (cell_at r ec) r) (fst q)" using a by blast
      then show ?thesis using fst_oc[OF True] by (simp add: cell_at_set_cell)
    next
      case False
      then have q: "q = (ec, oc)" using that p by simp
      have "cell_at r0 oc = cell_at (set_cell oc (cell_at r ec) r) oc" using a oc_new by blast
      then show ?thesis using q by (simp add: cell_at_set_cell)
    qed
    show "rnode r0 = rnode r \<and> rdims r0 = rdims r
                      \<and> (\<forall>c. c \<notin> set (map snd (p # ps)) \<longrightarrow> cell_at r0 c = cell_at r c)
                      \<and> (\<forall>p \<in> set (p # ps). cell_at r0 (snd p) = cell_at r (fst p))"
      using k c1 c2 by blast
  qed
  then show ?case using i0 i1 by simp
qed

lemma init_sum_columns_pairs:
  assumes "init_sum_columns cols (Some outs) df = Inr (outs', df0)"
    and "distinct outs" and "set outs \<inter> set cols = {}"
    and "i < length cols"
  shows "outs' = outs \<and> length outs = length cols \<and> index_names df0 = index_names df
         \<and> (\<forall>r0 \<in> set (rows df0). cell_at r0 (outs ! i) = cell_at r0 (cols ! i))"
proof -
  have f: "foldE (\<lambda>(col, out). copy_column col out) (zip cols outs) df = Inr df0"
    and len: "length cols = length outs" and o: "outs' = outs"
    using assms(1) by (auto simp: init_sum_columns_def split: sum.splits if_splits)
  have ms: "map snd (zip cols outs) = outs" and mf: "map fst (zip cols outs) = cols"
    using len by simp_all
  have rel: "list_all2 (\<lambda>r r0. rnode r0 = rnode r \<and> rdims r0 = rdims r
                      \<and> (\<forall>c. c \<notin> set (map snd (zip cols outs)) \<longrightarrow> cell_at r0 c = cell_at r c)
                      \<and> (\<forall>p \<in> set (zip cols outs). cell_at r0 (snd p) = cell_at r (fst p))) (rows df) (rows df0)"
    and idx: "index_names df0 = index_names df"
    using copy_columns_init[OF f] assms(2,3) ms mf by auto
  have pin: "(cols ! i, outs ! i) \<in> set (zip cols outs)"
    using assms(4) len by (auto simp: in_set_zip)
  have cin: "cols ! i \<notin> set outs" using assms(3,4) by auto
  have "cell_at r0 (outs ! i) = cell_at r0 (cols ! i)" if h: "r0 \<in> set (rows df0)" for r0
  proof -
    obtain r where r: "(\<forall>c. c \<notin> set (map snd (zip cols outs)) \<longrightarrow> cell_at r0 c = cell_at r c)"
        "(\<forall>p \<in> set (zip cols outs). cell_at r0 (snd p) = cell_at r (fst p))"
      using list_all2_in_right[OF rel h] by blast
    have "cell_at r0 (outs ! i) = cell_at r (cols ! i)" using r(2) pin by force
    moreover have "cell_at r0 (cols ! i) = cell_at r (cols ! i)" using r(1) cin ms by simp
    ultimately show ?thesis by simp
  qed
  then show ?thesis using o len idx by simp
qed

lemma traverse_flag:
  "traverse_node k st p n s = Some s' \<Longrightarrow>
     \<exists>out'. traverse_node k st q n (fst s, out2, snd (snd s)) = Some (fst s', out', snd (snd s'))"
  "traverse_list k st p cs s = Some s' \<Longrightarrow>
     \<exists>out'. traverse_list k st q cs (fst s, out2, snd (snd s)) = Some (fst s', out', snd (snd s'))"
proof (induction k st p n s and k st p cs s arbitrary: s' out2 and s' out2
       rule: traverse_node_traverse_list.induct)
  case (1 st post n s)
  then show ?case by simp
next
  case (2 k st post n vis out again)
  show ?case
  proof (cases "n \<in> set vis")
    case True
    then show ?thesis using "2.prems" by auto
  next
    case False
    then obtain s1 where t: "traverse_list k st post (kids st n)
          (n # vis, if post then out else out @ [n], again) = Some s1"
      and s': "fst s' = fst s1" "snd (snd s') = snd (snd s1)"
      using "2.prems" by (auto split: option.splits)
    from "2.IH"[OF False t, of "if q then out2 else out2 @ [n]"] obtain out' where
      "traverse_list k st q (kids st n) (n # vis, if q then out2 else out2 @ [n], again)
         = Some (fst s1, out', snd (snd s1))" by auto
    then show ?thesis using False s' by auto
  qed
next
  case (3 k st post s)
  then show ?case by auto
next
  case (4 k st post c cs s)
  from "4.prems" obtain s1 where
    a: "traverse_node k st post c s = Some s1" and b: "traverse_list k st post cs s1 = Some s'"
    by (auto split: option.splits)
  from "4.IH"(1)[OF a, of out2] obtain o1 where
    a': "traverse_node k st q c (fst s, out2, snd (snd s)) = Some (fst s1, o1, snd (snd s1))" by auto
  from "4.IH"(2)[OF a b, of o1] obtain o2 where
    "traverse_list k st q cs (fst s1, o1, snd (snd s1)) = Some (fst s', o2, snd (snd s'))" by auto
  then show ?case using a' by auto
qed

lemma traverse_out_vis:
  "traverse_node k st p n s = Some s' \<Longrightarrow> set (fst s) = set (fst (snd s)) \<union> S
     \<Longrightarrow> set (fst s') = set (fst (snd s')) \<union> S"
  "traverse_list k st p cs s = Some s' \<Longrightarrow> set (fst s) = set (fst (snd s)) \<union> S
     \<Longrightarrow> set (fst s') = set (fst (snd s')) \<union> S"
proof (induction k st p n s and k st p cs s arbitrary: s' S and s' S
       rule: traverse_node_traverse_list.induct)
  case (1 st post n s)
  then show ?case by simp
next
  case (2 k st post n vis out again)
  show ?case
  proof (cases "n \<in> set vis")
    case True
    then show ?thesis using "2.prems" by auto
  next
    case False
    then obtain s1 where t: "traverse_list k st post (kids st n)
          (n # vis, if post then out else out @ [n], again) = Some s1"
      and s': "s' = (fst s1, (if post then fst (snd s1) @ [n] else fst (snd s1)), snd (snd s1))"
      using "2.prems"(1) by (auto split: option.splits)
    show ?thesis
    proof (cases post)
      case True
      have "set (fst (n # vis, if post then out else out @ [n], again))
              = set (fst (snd (n # vis, if post then out else out @ [n], again))) \<union> insert n S"
        using "2.prems"(2) True by auto
      from "2.IH"[OF False t this] show ?thesis using s' True by auto
    next
      case F: False
      have "set (fst (n # vis, if post then out else out @ [n], again))
              = set (fst (snd (n # vis, if post then out else out @ [n], again))) \<union> S"
        using "2.prems"(2) F by auto
      from "2.IH"[OF False t this] show ?thesis using s' F by auto
    qed
  qed
next
  case (3 k st post s)
  then show ?case by auto
next
  case (4 k st post c cs s)
  from "4.prems"(1) obtain s1 where
    a: "traverse_node k st post c s = Some s1" and b: "traverse_list k st post cs s1 = Some s'"
    by (auto split: option.splits)
  show ?case using "4.IH"(2)[OF a b "4.IH"(1)[OF a "4.prems"(2)]] .
qed

lemma tree_post_order:
  assumes "is_tree st g = Inr True" and "traverse_graph st g True = Inr po"
  shows "distinct po \<and> children_first st po \<and> (\<forall>n. in_graph st g n = (n \<in> set po))"
proof -
  obtain vis pre where pre:
      "traverse_list (depth_bound st) st False (roots g) ([], [], False) = Some (vis, pre, False)"
    using assms(1) by (auto simp: is_tree_def split: if_splits option.splits)
  obtain vis2 ag2 where po:
      "traverse_list (depth_bound st) st True (roots g) ([], [], False) = Some (vis2, po, ag2)"
    using assms(2) by (auto simp: traverse_graph_def split: option.splits)
  from traverse_flag(2)[OF pre, of True "[]"] po have v: "vis2 = vis" "\<not> ag2"
    by auto
  from traverse_post(2)[OF po] v(2) have p: "distinct po" "children_first st po"
    by auto
  from traverse_out_vis(2)[OF po, of "{}"] have "set vis2 = set po" by simp
  moreover from traverse_out_vis(2)[OF pre, of "{}"] have "set vis = set pre" by simp
  moreover have "in_graph st g n = (n \<in> set pre)" for n
    using pre by (simp add: in_graph_def traverse_graph_def)
  ultimately show ?thesis using p v(1) by simp
qed

text \<open>
  Claim C2, as amended. On a GraphFrame whose graph is a tree, after
  \<^verbatim>\<open>generate_exclusive_columns\<close> and \<^verbatim>\<open>update_inclusive_columns\<close> every row of a node
  of the graph satisfies, for every exclusive metric \<open>exc\<close> and the inclusive column
  derived from it: the inclusive value is the \<^verbatim>\<open>sum(min_count=1)\<close> of the exclusive
  values of the rows of the node and of the inclusive values of the rows of its direct
  children (with the same values of the other index levels, when there are any); for a
  node without children it is the exclusive value. The names of the derived inclusive
  columns are pairwise different and none of them names an exclusive metric.
\<close>

theorem inclusive_exclusive_on_trees:
  assumes "is_tree st (graph gf) = Inr True"
    and "generate_exclusive_columns st gf = Inr gf1"
    and "update_inclusive_columns st gf1 = Inr gf2"
    and "distinct (map inc_name (exc_metrics gf1))"
    and "set (map inc_name (exc_metrics gf1)) \<inter> set (exc_metrics gf1) = {}"
    and "r \<in> set (rows (dataframe gf2))" and "in_graph st (graph gf) (rnode r)"
    and "exc \<in> set (exc_metrics gf1)"
  shows "if kids st (rnode r) \<noteq> []
         then sum_min_count1
                (map (\<lambda>x. if rnode x = rnode r then cell_at x exc else cell_at x (inc_name exc))
                   (family_rows (is_multi_index (dataframe gf2)) (rnode r # kids st (rnode r))
                      (rdims r) (rows (dataframe gf2))))
              = Inr (cell_at r (inc_name exc))
         else cell_at r (inc_name exc) = cell_at r exc"
proof -
  define cols where "cols = exc_metrics gf1"
  define outs where "outs = map inc_name cols"
  have g1: "graph gf1 = graph gf"
    using assms(2) by (auto simp: generate_exclusive_columns_def split: sum.splits)
  have ne: "exc_metrics gf1 \<noteq> []" using assms(8) by auto
  obtain self' where ss: "subgraph_sum st (gf1\<lparr>inc_metrics := outs\<rparr>) cols (Some outs) sum_min_count1 = Inr self'"
      and d2: "dataframe gf2 = dataframe self'"
    using assms(3) ne by (auto simp: update_inclusive_columns_def cols_def outs_def split: sum.splits)
  have st: "subtree_sum st (gf1\<lparr>inc_metrics := outs\<rparr>) cols (Some outs) sum_min_count1 = Inr self'"
    using ss assms(1) g1 by (simp add: subgraph_sum_def)
  obtain outs' df0 po df where
    init: "init_sum_columns cols (Some outs) (dataframe gf1) = Inr (outs', df0)"
    and po: "traverse_graph st (graph gf) True = Inr po"
    and fold: "foldE (subtree_sum_node st sum_min_count1 outs') po df0 = Inr df"
    and ds: "dataframe self' = df"
    using st g1 by (auto simp: subtree_sum_def split: sum.splits)
  obtain i where i: "i < length cols" "cols ! i = exc"
    using assms(8) by (auto simp: cols_def in_set_conv_nth)
  have douts: "distinct outs" and disj: "set outs \<inter> set cols = {}"
    using assms(4,5) by (simp_all add: outs_def cols_def)
  from init_sum_columns_pairs[OF init douts disj i(1)]
  have o': "outs' = outs" and cells0: "\<forall>r0 \<in> set (rows df0). cell_at r0 (outs ! i) = cell_at r0 (cols ! i)"
    by auto
  have oi: "outs ! i = inc_name exc" using i by (simp add: outs_def)
  have oin: "inc_name exc \<in> set outs" using assms(8) by (simp add: outs_def cols_def)
  have ein: "exc \<notin> set outs" using disj assms(8) by (auto simp: cols_def)
  have inv0: "sum_inv st (is_multi_index df0) sum_min_count1 exc (inc_name exc) (set []) (rows df0)"
    using cells0 oi i(2) by (simp add: sum_inv_def)
  note tp = tree_post_order[OF assms(1) po]
  have "sum_inv st (is_multi_index df) sum_min_count1 exc (inc_name exc) (set ([] @ po)) (rows df)"
    using sum_inv_fold[OF fold[unfolded o'] douts oin ein _ _ inv0] tp by simp
  then have inv: "sum_inv st (is_multi_index (dataframe gf2)) sum_min_count1 exc (inc_name exc) (set po)
                    (rows (dataframe gf2))"
    using d2 ds by simp
  have rin: "rnode r \<in> set po" using tp assms(7) by simp
  show ?thesis
    using inv assms(6) rin unfolding sum_inv_def by (auto split: if_splits)
qed

theorem inclusive_exclusive_on_trees_witness:
  "is_tree ex_nodes (graph ex_inc_only_gf) = Inr True
   \<and> generate_exclusive_columns ex_nodes ex_inc_only_gf = Inr ex_gen_gf
   \<and> update_inclusive_columns ex_nodes ex_gen_gf = Inr ex_gen_gf
   \<and> distinct (map inc_name (exc_metrics ex_gen_gf))
   \<and> set (map inc_name (exc_metrics ex_gen_gf)) \<inter> set (exc_metrics ex_gen_gf) = {}
   \<and> ex_row 0 [(''time (inc)'', Num 7), (''time'', Num 1)] \<in> set (rows (dataframe ex_gen_gf))
   \<and> in_graph ex_nodes (graph ex_inc_only_gf) 0
   \<and> ''time'' \<in> set (exc_metrics ex_gen_gf)
   \<and> kids ex_nodes 0 = [1, 2]
   \<and> map (\<lambda>x. if rnode x = 0 then cell_at x ''time'' else cell_at x ''time (inc)'')
        (family_rows False [0, 1, 2] [] (rows (dataframe ex_gen_gf))) = [Num 1, Num 4, Num 2]
   \<and> sum_min_count1 [Num 1, Num 4, Num 2] = Inr (Num 7)"
proof -
  let ?r = "ex_row 0 [(''time (inc)'', Num 7), (''time'', Num 1)]"
  have t: "is_tree ex_nodes (graph ex_inc_only_gf) = Inr True" by code_simp
  have g: "generate_exclusive_columns ex_nodes ex_inc_only_gf = Inr ex_gen_gf" by code_simp
  have u: "update_inclusive_columns ex_nodes ex_gen_gf = Inr ex_gen_gf" by code_simp
  have d: "distinct (map inc_name (exc_metrics ex_gen_gf))" by code_simp
  have j: "set (map inc_name (exc_metrics ex_gen_gf)) \<inter> set (exc_metrics ex_gen_gf) = {}"
    by code_simp
  have r: "?r \<in> set (rows (dataframe ex_gen_gf))" by code_simp
  have i: "in_graph ex_nodes (graph ex_inc_only_gf) (rnode ?r)" by code_simp
  have e: "''time'' \<in> set (exc_metrics ex_gen_gf)" by code_simp
  have k: "kids ex_nodes 0 = [1, 2]" by code_simp
  have m: "is_multi_index (dataframe ex_gen_gf) = False" "rnode ?r = 0" "rdims ?r = []"
      "inc_name ''time'' = ''time (inc)''" "cell_at ?r ''time (inc)'' = Num 7"
    by code_simp+
  have f: "map (\<lambda>x. if rnode x = 0 then cell_at x ''time'' else cell_at x ''time (inc)'')
        (family_rows False [0, 1, 2] [] (rows (dataframe ex_gen_gf))) = [Num 1, Num 4, Num 2]"
    by code_simp
  have s: "sum_min_count1 [Num 1, Num 4, Num 2] = Inr (Num 7)"
    using inclusive_exclusive_on_trees [OF t g u d j r i e]
    unfolding m k f by simp
  show ?thesis
    using t g u d j r i e k f s by (simp only: m simp_thms)
qed

text \<open>
  Claim C2 as stated fails in three ways. On a graph that is not a tree
  \<^verbatim>\<open>subgraph_sum\<close> sums every descendant once: on the graph a \<open>\<rightarrow>\<close> b, c; b \<open>\<rightarrow>\<close> d; c \<open>\<rightarrow>\<close> d
  the exclusive times come out as 1 each and the inclusive times as a 4, b 2, c 2, d 1,
  and 4 is not 1 + 2 + 2. On a tree it fails when two exclusive metrics give the same
  inclusive name, because the column is then summed twice for every node (foo gets 7
  and not 1 + 3), and when a derived inclusive name is the name of an exclusive metric,
  because that exclusive column is then overwritten with the inclusive values (foo has
  the exclusive value 4 and the inclusive value 4, and its child baz has 3).
\<close>

theorem inclusive_exclusive_counterexample:
  "(is_tree dia_nodes (graph dia_gf) = Inr False
    \<and> generate_exclusive_columns dia_nodes dia_gf = Inr dia_gen_gf
    \<and> update_inclusive_columns dia_nodes dia_gen_gf = Inr dia_upd_gf
    \<and> loc_scalar (dataframe dia_upd_gf) 0 [] ''time (inc)'' = Inr (Num 4)
    \<and> loc_scalar (dataframe dia_upd_gf) 0 [] ''time'' = Inr (Num 1)
    \<and> map (\<lambda>c. loc_scalar (dataframe dia_upd_gf) c [] ''time (inc)'') (kids dia_nodes 0)
        = [Inr (Num 2), Inr (Num 2)]
    \<and> sum_min_count1 [Num 1, Num 2, Num 2] = Inr (Num 5)
    \<and> Num 5 \<noteq> Num 4)
   \<and> (is_tree ex_nodes (graph clash_gf) = Inr True
    \<and> generate_exclusive_columns ex_nodes clash_gf = Inr clash_gf
    \<and> update_inclusive_columns ex_nodes clash_gf = Inr clash_upd_gf
    \<and> map inc_name (exc_metrics clash_gf) = [''time'', ''time'']
    \<and> loc_scalar (dataframe clash_upd_gf) 1 [] ''time'' = Inr (Num 7)
    \<and> loc_scalar (dataframe clash_upd_gf) 1 [] ''time(exc)'' = Inr (Num 1)
    \<and> map (\<lambda>c. loc_scalar (dataframe clash_upd_gf) c [] ''time'') (kids ex_nodes 1) = [Inr (Num 3)]
    \<and> sum_min_count1 [Num 1, Num 3] = Inr (Num 4)
    \<and> Num 4 \<noteq> Num 7)
   \<and> (is_tree ex_nodes (graph shadow_gf) = Inr True
    \<and> generate_exclusive_columns ex_nodes shadow_gf = Inr shadow_gf
    \<and> update_inclusive_columns ex_nodes shadow_gf = Inr shadow_upd_gf
    \<and> map inc_name (exc_metrics shadow_gf) = [''time'', ''time (inc)'']
    \<and> loc_scalar (dataframe shadow_upd_gf) 1 [] ''time (inc)'' = Inr (Num 4)
    \<and> loc_scalar (dataframe shadow_upd_gf) 1 [] ''time'' = Inr (Num 4)
    \<and> map (\<lambda>c. loc_scalar (dataframe shadow_upd_gf) c [] ''time (inc)'') (kids ex_nodes 1)
        = [Inr (Num 3)]
    \<and> sum_min_count1 [Num 4, Num 3] = Inr (Num 7)
    \<and> Num 7 \<noteq> Num 4)"
  by code_simp

subsection \<open>The merged rows of a squash\<close>

text \<open>
  The sums of \<^verbatim>\<open>update_inclusive_columns\<close> write the derived inclusive columns only:
  every row keeps its index key and its cells in all other columns.
\<close>

lemma unchanged_outside_refl: "unchanged_outside C rs rs"
  by (simp add: unchanged_outside_def list_all2_same)

lemma unchanged_outside_trans:
  "unchanged_outside C rs rs' \<Longrightarrow> unchanged_outside C rs' rs'' \<Longrightarrow> unchanged_outside C rs rs''"
  unfolding unchanged_outside_def list_all2_conv_all_nth
  by (metis (mono_tags, lifting))

lemma unchanged_outside_map:
  assumes "\<And>r. row_key (f r) = row_key r \<and> (\<forall>c. c \<in> C \<or> cell_at (f r) c = cell_at r c)"
  shows "unchanged_outside C rs (map f rs)"
  unfolding unchanged_outside_def list_all2_map2
  using assms by (simp add: list_all2_same)

lemma row_key_set_cell [simp]: "row_key (set_cell c v r) = row_key r"
  by (simp add: row_key_def set_cell_def)

lemma unchanged_set_loc_node:
  "col \<in> C \<Longrightarrow> unchanged_outside C (rows df) (rows (set_loc_node n col v df))"
  unfolding set_loc_node_def
  by (simp, rule unchanged_outside_map) (auto simp: cell_at_set_cell)

lemma unchanged_set_loc_node_dims:
  "col \<in> C \<Longrightarrow> unchanged_outside C (rows df) (rows (set_loc_node_dims n d col v df))"
  unfolding set_loc_node_dims_def
  by (simp, rule unchanged_outside_map) (auto simp: cell_at_set_cell)

lemma unchanged_copy_column:
  "copy_column col out df = Inr df' \<Longrightarrow> out \<in> C \<Longrightarrow> unchanged_outside C (rows df) (rows df')"
  unfolding copy_column_def
  by (auto split: if_splits intro!: unchanged_outside_map simp: cell_at_set_cell)

lemma foldE_unchanged:
  assumes "foldE f xs df = Inr df'"
    and "\<And>x d d'. x \<in> set xs \<Longrightarrow> f x d = Inr d' \<Longrightarrow> unchanged_outside C (rows d) (rows d')"
  shows "unchanged_outside C (rows df) (rows df')"
  using assms
proof (induction xs arbitrary: df)
  case Nil
  then show ?case by (simp add: unchanged_outside_refl)
next
  case (Cons x xs)
  then obtain d1 where d1: "f x df = Inr d1" "foldE f xs d1 = Inr df'"
    by (auto split: sum.splits)
  have "unchanged_outside C (rows df) (rows d1)" using Cons.prems(2)[OF _ d1(1)] by simp
  moreover have "unchanged_outside C (rows d1) (rows df')"
  proof (rule Cons.IH[OF d1(2)])
    fix y d d' assume "y \<in> set xs" "f y d = Inr d'"
    then show "unchanged_outside C (rows d) (rows d')" using Cons.prems(2)[of y d d'] by simp
  qed
  ultimately show ?case by (rule unchanged_outside_trans)
qed

lemma unchanged_init_sum_columns:
  assumes "init_sum_columns cols (Some outs) df = Inr (outs', df')"
  shows "outs' = outs \<and> unchanged_outside (set outs) (rows df) (rows df')"
proof -
  from assms have f: "foldE (\<lambda>(col, out). copy_column col out) (zip cols outs) df = Inr df'"
    and o: "outs' = outs"
    by (auto simp: init_sum_columns_def split: sum.splits if_splits)
  have "unchanged_outside (set outs) (rows df) (rows df')"
    by (rule foldE_unchanged[OF f]) (auto dest: set_zip_rightD intro: unchanged_copy_column)
  then show ?thesis using o by simp
qed

lemma unchanged_sum_into:
  "sum_into func n ns col df = Inr df' \<Longrightarrow> col \<in> C \<Longrightarrow> unchanged_outside C (rows df) (rows df')"
  by (auto simp: sum_into_def split: sum.splits intro: unchanged_set_loc_node)

lemma unchanged_sum_into_dims:
  "sum_into_dims func n ns d col df = Inr df' \<Longrightarrow> col \<in> C
     \<Longrightarrow> unchanged_outside C (rows df) (rows df')"
  by (auto simp: sum_into_dims_def split: sum.splits intro: unchanged_set_loc_node_dims)

lemma unchanged_subtree_sum_node:
  assumes "subtree_sum_node st func outs n df = Inr df'"
  shows "unchanged_outside (set outs) (rows df) (rows df')"
proof (cases "kids st n = []")
  case True
  then show ?thesis using assms by (simp add: subtree_sum_node_def unchanged_outside_refl)
next
  case False
  show ?thesis
  proof (cases "is_multi_index df")
    case True
    then obtain ds where
      f: "foldE (\<lambda>d. foldE (\<lambda>col. sum_into_dims func n (n # kids st n) d col) outs) ds df = Inr df'"
      using assms False by (auto simp: subtree_sum_node_def split: sum.splits)
    show ?thesis
      by (rule foldE_unchanged[OF f], erule foldE_unchanged) (auto intro: unchanged_sum_into_dims)
  next
    case mi: False
    then have f: "foldE (\<lambda>col. sum_into func n (n # kids st n) col) outs df = Inr df'"
      using assms False by (simp add: subtree_sum_node_def)
    show ?thesis
      by (rule foldE_unchanged[OF f]) (auto intro: unchanged_sum_into)
  qed
qed

lemma unchanged_fold_set_loc:
  "set (map fst ps) \<subseteq> C \<Longrightarrow>
     unchanged_outside C (rows df) (rows (fold (\<lambda>(out, v). set_loc_node n out v) ps df))"
proof (induction ps arbitrary: df)
  case Nil
  then show ?case by (simp add: unchanged_outside_refl)
next
  case (Cons p ps)
  obtain out v where p: "p = (out, v)" by (cases p)
  have "unchanged_outside C (rows df) (rows (set_loc_node n out v df))"
    using Cons.prems p by (auto intro: unchanged_set_loc_node)
  moreover have "unchanged_outside C (rows (set_loc_node n out v df))
                   (rows (fold (\<lambda>(out, v). set_loc_node n out v) ps (set_loc_node n out v df)))"
    using Cons.IH[of "set_loc_node n out v df"] Cons.prems by simp
  ultimately show ?case using p by (auto intro: unchanged_outside_trans)
qed

lemma unchanged_subgraph_sum_node:
  assumes "subgraph_sum_node st func cols outs n df = Inr df'"
  shows "unchanged_outside (set outs) (rows df) (rows df')"
proof -
  obtain sub where sub: "traverse_from st n = Inr sub"
    using assms by (auto simp: subgraph_sum_node_def split: sum.splits)
  show ?thesis
  proof (cases "is_multi_index df")
    case True
    then obtain ds where
      f: "foldE (\<lambda>d. foldE (\<lambda>col. sum_into_dims func n sub d col) outs) ds df = Inr df'"
      using assms sub by (auto simp: subgraph_sum_node_def split: sum.splits)
    show ?thesis
      by (rule foldE_unchanged[OF f], erule foldE_unchanged) (auto intro: unchanged_sum_into_dims)
  next
    case False
    then obtain vs where "df' = fold (\<lambda>(out, v). set_loc_node n out v) (zip outs vs) df"
      using assms sub by (auto simp: subgraph_sum_node_def split: sum.splits)
    moreover have "set (map fst (zip outs vs)) \<subseteq> set outs"
      by (auto dest: set_zip_leftD)
    ultimately show ?thesis using unchanged_fold_set_loc by blast
  qed
qed

lemma unchanged_subgraph_sum:
  assumes "subgraph_sum st self cols (Some outs) func = Inr self'"
  shows "unchanged_outside (set outs) (rows (dataframe self)) (rows (dataframe self'))"
proof -
  have tree: "unchanged_outside (set outs) (rows (dataframe self)) (rows (dataframe self'))"
    if s: "subtree_sum st self cols (Some outs) func = Inr self'"
  proof -
    obtain outs' df0 po where i: "init_sum_columns cols (Some outs) (dataframe self) = Inr (outs', df0)"
      and f: "foldE (subtree_sum_node st func outs') po df0 = Inr (dataframe self')"
      using s by (auto simp: subtree_sum_def split: sum.splits)
    from unchanged_init_sum_columns[OF i] have o: "outs' = outs"
      and a: "unchanged_outside (set outs) (rows (dataframe self)) (rows df0)" by simp_all
    have "unchanged_outside (set outs) (rows df0) (rows (dataframe self'))"
      by (rule foldE_unchanged[OF f]) (auto simp: o intro: unchanged_subtree_sum_node)
    with a show ?thesis by (rule unchanged_outside_trans)
  qed
  show ?thesis
  proof (cases "is_tree st (graph self) = Inr True")
    case True
    then show ?thesis using assms tree by (simp add: subgraph_sum_def)
  next
    case False
    then obtain outs' df0 pre where
      i: "init_sum_columns cols (Some outs) (dataframe self) = Inr (outs', df0)"
      and f: "foldE (subgraph_sum_node st func cols outs') pre df0 = Inr (dataframe self')"
      using assms by (auto simp: subgraph_sum_def split: sum.splits bool.splits)
    from unchanged_init_sum_columns[OF i] have o: "outs' = outs"
      and a: "unchanged_outside (set outs) (rows (dataframe self)) (rows df0)" by simp_all
    have "unchanged_outside (set outs) (rows df0) (rows (dataframe self'))"
      by (rule foldE_unchanged[OF f]) (auto simp: o intro: unchanged_subgraph_sum_node)
    with a show ?thesis by (rule unchanged_outside_trans)
  qed
qed

lemma unchanged_update_inclusive_columns:
  assumes "update_inclusive_columns st gf = Inr gf'"
  shows "unchanged_outside (if exc_metrics gf = [] then {} else set (map inc_name (exc_metrics gf)))
           (rows (dataframe gf)) (rows (dataframe gf'))"
proof (cases "exc_metrics gf = []")
  case True
  then show ?thesis using assms by (auto simp: update_inclusive_columns_def unchanged_outside_refl)
next
  case False
  then obtain self' where s: "subgraph_sum st (gf\<lparr>inc_metrics := map inc_name (exc_metrics gf)\<rparr>)
        (exc_metrics gf) (Some (map inc_name (exc_metrics gf))) sum_min_count1 = Inr self'"
    and d: "dataframe gf' = dataframe self'"
    using assms by (auto simp: update_inclusive_columns_def split: sum.splits)
  from unchanged_subgraph_sum[OF s] show ?thesis using False d by simp
qed

lemma unchanged_filter_key:
  assumes "unchanged_outside C rs rs'" and "filter (\<lambda>x. row_key x = k) rs = [r]"
  shows "\<exists>r'. filter (\<lambda>x. row_key x = k) rs' = [r'] \<and> (\<forall>c. c \<in> C \<or> cell_at r' c = cell_at r c)"
proof -
  have "list_all2 (\<lambda>r r'. row_key r' = row_key r \<and> (\<forall>c. c \<in> C \<or> cell_at r' c = cell_at r c)) rs rs'"
    using assms(1) by (simp add: unchanged_outside_def)
  then have "list_all2 (\<lambda>r r'. \<forall>c. c \<in> C \<or> cell_at r' c = cell_at r c)
               (filter (\<lambda>x. row_key x = k) rs) (filter (\<lambda>x. row_key x = k) rs')"
    by (induction rule: list_all2_induct) auto
  then show ?thesis using assms(2) by (auto simp: list_all2_Cons1)
qed

text \<open>
  Claim C3. In every squash, with or without the update of the inclusive columns, the
  aggregation makes one row of every group of rows that land on the same final node
  (with the same values of the other index levels). In a metric column the cell of the
  merged row is the \<^verbatim>\<open>sum(min_count=1)\<close> of the cells of the group, NaN and not 0 when all
  of them are NaN; in any other column it is the cell of the first row of the group, in
  the order of the rows before the aggregation. The GraphFrame made of the merged rows
  is the result, or the receiver of \<^verbatim>\<open>update_inclusive_columns\<close> whose result is the
  result; in the second case the table of the result has the same merged rows, except
  for the inclusive columns that the update computes anew.
\<close>

theorem squash_aggregation:
  assumes "squash graph_normalize w self update_inc_cols = Inr (w', new_gf)"
  shows "\<exists>st g old_to_new merges agg_gf.
           squash_graph graph_normalize w self = Inr (st, g, old_to_new, merges)
         \<and> GraphFrame g (dataframe agg_gf) (exc_metrics self) (inc_metrics self)
             (default_metric self) (metadata self) = Inr agg_gf
         \<and> (if update_inc_cols then update_inclusive_columns st agg_gf = Inr new_gf
            else new_gf = agg_gf)
         \<and> (\<forall>k \<in> set (map row_key (rows (landed_table old_to_new merges (dataframe self)))).
              (\<exists>r. filter (\<lambda>r'. row_key r' = k) (rows (dataframe agg_gf)) = [r]
                \<and> (\<forall>col \<in> set (columns (dataframe self)).
                      if col \<in> set (exc_metrics self @ inc_metrics self)
                      then sum_min_count1 (map (\<lambda>r'. cell_at r' col)
                             (group_rows (landed_table old_to_new merges (dataframe self)) k))
                           = Inr (cell_at r col)
                         \<and> (list_all (\<lambda>r'. cell_at r' col = NaN)
                               (group_rows (landed_table old_to_new merges (dataframe self)) k)
                             \<longrightarrow> cell_at r col = NaN)
                      else cell_at r col
                           = cell_at (hd (group_rows (landed_table old_to_new merges (dataframe self)) k)) col))
            \<and> (\<exists>r. filter (\<lambda>r'. row_key r' = k) (rows (dataframe new_gf)) = [r]
                \<and> (\<forall>col \<in> set (columns (dataframe self)).
                      if update_inc_cols \<and> col \<in> set (map inc_name (exc_metrics self)) then True
                      else if col \<in> set (exc_metrics self @ inc_metrics self)
                      then sum_min_count1 (map (\<lambda>r'. cell_at r' col)
                             (group_rows (landed_table old_to_new merges (dataframe self)) k))
                           = Inr (cell_at r col)
                         \<and> (list_all (\<lambda>r'. cell_at r' col = NaN)
                               (group_rows (landed_table old_to_new merges (dataframe self)) k)
                             \<longrightarrow> cell_at r col = NaN)
                      else cell_at r col
                           = cell_at (hd (group_rows (landed_table old_to_new merges (dataframe self)) k)) col)))"
proof -
  obtain st g old_to_new merges where sg:
      "squash_graph graph_normalize w self = Inr (st, g, old_to_new, merges)"
    using assms by (auto simp: squash_def split: sum.splits)
  define df where "df = landed_table old_to_new merges (dataframe self)"
  define metrics where "metrics = exc_metrics self @ inc_metrics self"
  obtain agg agg_gf where agg: "groupby_agg st metrics df = Inr agg"
    and gf: "GraphFrame g agg (exc_metrics self) (inc_metrics self)
               (default_metric self) (metadata self) = Inr agg_gf"
    and fin: "if update_inc_cols then update_inclusive_columns st agg_gf = Inr new_gf
              else new_gf = agg_gf"
    using assms sg
    by (auto simp: squash_def df_def metrics_def split: sum.splits if_splits)
  have dagg: "dataframe agg_gf = agg" and eagg: "exc_metrics agg_gf = exc_metrics self"
    using gf by (auto simp: GraphFrame_def split: if_splits)
  obtain rs where rs: "mapE (agg_row metrics df) (sorted_keys st df) = Inr rs" "rows agg = rs"
    using agg by (auto simp: groupby_agg_def split: sum.splits)
  have cols: "columns df = columns (dataframe self)"
    by (simp add: df_def landed_table_def remap_nodes_def)
  define C where "C = (if update_inc_cols \<and> exc_metrics self \<noteq> []
                       then set (map inc_name (exc_metrics self)) else {})"
  have un: "unchanged_outside C (rows agg) (rows (dataframe new_gf))"
  proof (cases update_inc_cols)
    case True
    with fin have u: "update_inclusive_columns st agg_gf = Inr new_gf" by simp
    have "unchanged_outside
            (if exc_metrics agg_gf = [] then {} else set (map inc_name (exc_metrics agg_gf)))
            (rows (dataframe agg_gf)) (rows (dataframe new_gf))"
      by (rule unchanged_update_inclusive_columns[OF u])
    then show ?thesis
      unfolding C_def eagg dagg using True by (cases "exc_metrics self = []") simp_all
  next
    case False
    then show ?thesis using fin dagg by (simp add: unchanged_outside_refl)
  qed
  have main: "\<exists>r. filter (\<lambda>r'. row_key r' = k) (rows agg) = [r]
                \<and> (\<forall>col \<in> set (columns (dataframe self)).
                      if col \<in> set metrics
                      then sum_min_count1 (map (\<lambda>r'. cell_at r' col) (group_rows df k)) = Inr (cell_at r col)
                         \<and> (list_all (\<lambda>r'. cell_at r' col = NaN) (group_rows df k) \<longrightarrow> cell_at r col = NaN)
                      else cell_at r col = cell_at (hd (group_rows df k)) col)"
    if k: "k \<in> set (map row_key (rows df))" for k
  proof -
    have kin: "k \<in> set (sorted_keys st df)"
      using k by (simp add: sorted_keys_set)
    obtain r where r: "agg_row metrics df k = Inr r" "filter (\<lambda>b. row_key b = k) rs = [r]"
      using mapE_filter_key[OF rs(1) sorted_keys_distinct kin, of row_key] agg_row_key by blast
    have ne: "group_rows df k \<noteq> []"
      using k by (auto simp: group_rows_def filter_empty_conv)
    have "if col \<in> set metrics
          then sum_min_count1 (map (\<lambda>r'. cell_at r' col) (group_rows df k)) = Inr (cell_at r col)
             \<and> (list_all (\<lambda>r'. cell_at r' col = NaN) (group_rows df k) \<longrightarrow> cell_at r col = NaN)
          else cell_at r col = cell_at (hd (group_rows df k)) col"
      if col: "col \<in> set (columns (dataframe self))" for col
    proof (cases "col \<in> set metrics")
      case True
      have s: "sum_min_count1 (map (\<lambda>r'. cell_at r' col) (group_rows df k)) = Inr (cell_at r col)"
        using agg_row_cell[OF r(1), of col] col cols True by (simp add: agg_cell_def)
      have "cell_at r col = NaN" if "list_all (\<lambda>r'. cell_at r' col = NaN) (group_rows df k)"
      proof -
        have "list_all (\<lambda>c. c = NaN) (map (\<lambda>r'. cell_at r' col) (group_rows df k))"
          using that by (simp add: list_all_iff)
        from sum_min_count1_all_NaN[OF this] s show ?thesis by simp
      qed
      then show ?thesis using True s by simp
    next
      case False
      then show ?thesis
        using agg_row_cell[OF r(1), of col] col cols ne
        by (cases "group_rows df k") (auto simp: agg_cell_def)
    qed
    then show ?thesis using r(2) rs(2) by auto
  qed
  have fin2: "\<exists>r. filter (\<lambda>r'. row_key r' = k) (rows (dataframe new_gf)) = [r]
                \<and> (\<forall>col \<in> set (columns (dataframe self)).
                      if update_inc_cols \<and> col \<in> set (map inc_name (exc_metrics self)) then True
                      else if col \<in> set metrics
                      then sum_min_count1 (map (\<lambda>r'. cell_at r' col) (group_rows df k)) = Inr (cell_at r col)
                         \<and> (list_all (\<lambda>r'. cell_at r' col = NaN) (group_rows df k) \<longrightarrow> cell_at r col = NaN)
                      else cell_at r col = cell_at (hd (group_rows df k)) col)"
    if k: "k \<in> set (map row_key (rows df))" for k
  proof -
    from main[OF k] obtain r where r: "filter (\<lambda>r'. row_key r' = k) (rows agg) = [r]"
      and p: "\<forall>col \<in> set (columns (dataframe self)).
                      if col \<in> set metrics
                      then sum_min_count1 (map (\<lambda>r'. cell_at r' col) (group_rows df k)) = Inr (cell_at r col)
                         \<and> (list_all (\<lambda>r'. cell_at r' col = NaN) (group_rows df k) \<longrightarrow> cell_at r col = NaN)
                      else cell_at r col = cell_at (hd (group_rows df k)) col"
      by blast
    from unchanged_filter_key[OF un r] obtain r' where
      r': "filter (\<lambda>x. row_key x = k) (rows (dataframe new_gf)) = [r']"
      and c: "\<forall>c. c \<in> C \<or> cell_at r' c = cell_at r c" by blast
    have "if update_inc_cols \<and> col \<in> set (map inc_name (exc_metrics self)) then True
          else if col \<in> set metrics
          then sum_min_count1 (map (\<lambda>r'. cell_at r' col) (group_rows df k)) = Inr (cell_at r' col)
             \<and> (list_all (\<lambda>r'. cell_at r' col = NaN) (group_rows df k) \<longrightarrow> cell_at r' col = NaN)
          else cell_at r' col = cell_at (hd (group_rows df k)) col"
      if col: "col \<in> set (columns (dataframe self))" for col
    proof (cases "update_inc_cols \<and> col \<in> set (map inc_name (exc_metrics self))")
      case True
      then show ?thesis by simp
    next
      case False
      then have "col \<notin> C" by (auto simp: C_def)
      then have "cell_at r' col = cell_at r col" using c by blast
      then show ?thesis using p col False by auto
    qed
    then show ?thesis using r' by blast
  qed
  show ?thesis
    using sg gf fin main fin2 dagg unfolding df_def metrics_def by blast
qed

theorem squash_aggregation_witness:
  "squash normalize_graph ex2_world ex2_gf True
     = Inr (\<lparr>nodes = ex2_squashed_nodes, next_gid = 2\<rparr>, ex2_squashed_inc_gf)
   \<and> squash_graph normalize_graph ex2_world ex2_gf
     = Inr (ex2_squashed_nodes, \<lparr>gid = 1, roots = [5]\<rparr>, [(0, 5), (4, 6), (3, 7)], [(6, 7)])
   \<and> map rnode (group_rows (landed_table [(0, 5), (4, 6), (3, 7)] [(6, 7)] (dataframe ex2_gf)) (7, []))
     = [7, 7]
   \<and> (\<exists>r. filter (\<lambda>r'. row_key r' = (7, [])) (rows (dataframe ex2_squashed_inc_gf)) = [r]
          \<and> cell_at r ''time'' = NaN \<and> cell_at r ''calls'' = Num 5 \<and> cell_at r ''file'' = Txt ''b.c'')
   \<and> squash normalize_graph ex2_world ex2_gf False
     = Inr (\<lparr>nodes = ex2_squashed_nodes, next_gid = 2\<rparr>, ex2_squashed_gf)
   \<and> (\<exists>r. filter (\<lambda>r'. row_key r' = (7, [])) (rows (dataframe ex2_squashed_gf)) = [r]
          \<and> cell_at r ''time'' = NaN \<and> cell_at r ''calls'' = Num 5 \<and> cell_at r ''file'' = Txt ''b.c'')
   \<and> (\<exists>st g old_to_new merges agg_gf.
               squash_graph normalize_graph ex2_world ex2_gf = Inr (st, g, old_to_new, merges)
             \<and> GraphFrame g (dataframe agg_gf) (exc_metrics ex2_gf) (inc_metrics ex2_gf)
                 (default_metric ex2_gf) (metadata ex2_gf) = Inr agg_gf
             \<and> (if True then update_inclusive_columns st agg_gf = Inr ex2_squashed_inc_gf
                else ex2_squashed_inc_gf = agg_gf)
             \<and> (\<forall>k \<in> set (map row_key (rows (landed_table old_to_new merges (dataframe ex2_gf)))).
                  (\<exists>r. filter (\<lambda>r'. row_key r' = k) (rows (dataframe agg_gf)) = [r]
                    \<and> (\<forall>col \<in> set (columns (dataframe ex2_gf)).
                          if col \<in> set (exc_metrics ex2_gf @ inc_metrics ex2_gf)
                          then sum_min_count1 (map (\<lambda>r'. cell_at r' col)
                                 (group_rows (landed_table old_to_new merges (dataframe ex2_gf)) k))
                               = Inr (cell_at r col)
                             \<and> (list_all (\<lambda>r'. cell_at r' col = NaN)
                                   (group_rows (landed_table old_to_new merges (dataframe ex2_gf)) k)
                                 \<longrightarrow> cell_at r col = NaN)
                          else cell_at r col
                               = cell_at (hd (group_rows (landed_table old_to_new merges (dataframe ex2_gf)) k)) col))
                \<and> (\<exists>r. filter (\<lambda>r'. row_key r' = k) (rows (dataframe ex2_squashed_inc_gf)) = [r]
                    \<and> (\<forall>col \<in> set (columns (dataframe ex2_gf)).
                          if True \<and> col \<in> set (map inc_name (exc_metrics ex2_gf)) then True
                          else if col \<in> set (exc_metrics ex2_gf @ inc_metrics ex2_gf)
                          then sum_min_count1 (map (\<lambda>r'. cell_at r' col)
                                 (group_rows (landed_table old_to_new merges (dataframe ex2_gf)) k))
                               = Inr (cell_at r col)
                             \<and> (list_all (\<lambda>r'. cell_at r' col = NaN)
                                   (group_rows (landed_table old_to_new merges (dataframe ex2_gf)) k)
                                 \<longrightarrow> cell_at r col = NaN)
                          else cell_at r col
                               = cell_at (hd (group_rows (landed_table old_to_new merges (dataframe ex2_gf)) k)) col))))"
proof -
  have h: "squash normalize_graph ex2_world ex2_gf True
             = Inr (\<lparr>nodes = ex2_squashed_nodes, next_gid = 2\<rparr>, ex2_squashed_inc_gf)"
    by code_simp
  have h': "squash normalize_graph ex2_world ex2_gf False
             = Inr (\<lparr>nodes = ex2_squashed_nodes, next_gid = 2\<rparr>, ex2_squashed_gf)"
    by code_simp
  have g: "squash_graph normalize_graph ex2_world ex2_gf
     = Inr (ex2_squashed_nodes, \<lparr>gid = 1, roots = [5]\<rparr>, [(0, 5), (4, 6), (3, 7)], [(6, 7)])"
    by code_simp
  have l: "map rnode (group_rows (landed_table [(0, 5), (4, 6), (3, 7)] [(6, 7)] (dataframe ex2_gf)) (7, []))
     = [7, 7]"
    by code_simp
  have r: "\<exists>r. filter (\<lambda>r'. row_key r' = (7, [])) (rows (dataframe ex2_squashed_inc_gf)) = [r]
          \<and> cell_at r ''time'' = NaN \<and> cell_at r ''calls'' = Num 5 \<and> cell_at r ''file'' = Txt ''b.c''"
    by (rule exI [of _ "ex_row 7 [(''time'', NaN), (''calls'', Num 5), (''file'', Txt ''b.c''),
                                  (''time (inc)'', NaN), (''calls (inc)'', Num 5)]"])
      code_simp
  have r': "\<exists>r. filter (\<lambda>r'. row_key r' = (7, [])) (rows (dataframe ex2_squashed_gf)) = [r]
          \<and> cell_at r ''time'' = NaN \<and> cell_at r ''calls'' = Num 5 \<and> cell_at r ''file'' = Txt ''b.c''"
    by (rule exI [of _ "ex_row 7 [(''time'', NaN), (''calls'', Num 5), (''file'', Txt ''b.c'')]"])
      code_simp
  show ?thesis
    by (intro conjI h g l r h' r' squash_aggregation [OF h])
qed

subsection \<open>Arithmetic and its operands\<close>

text \<open>
  Claim C8 fails on the code. Let \<open>a\<close> be the first example with its inclusive column and
  \<open>b\<close> the result of \<^verbatim>\<open>a.filter(..., squash=False)\<close> that keeps main and bar; \<open>b\<close> has the
  graph of \<open>a\<close>. In \<^verbatim>\<open>a.add(b)\<close> the copy of \<open>a\<close> shares the column data of \<open>a\<close>,
  \<^verbatim>\<open>unify\<close> returns at once because the graphs are the same, and \<^verbatim>\<open>update\<close> writes the
  sums into the shared data: afterwards the table of \<open>a\<close> itself has the time 2 for main
  and 4 for bar, where it had 1 and 2. The same happens in \<^verbatim>\<open>a.sub(b)\<close> and \<^verbatim>\<open>a.mul(b)\<close>,
  and the returned GraphFrame refers to the buffers of \<open>a\<close>.
\<close>

theorem add_changes_operand:
  "read_gf ex_bufs ex_a = ex_inc_gf
   \<and> read_gf ex_bufs ex_b = ex_filtered_gf
   \<and> filter_gf normalize_graph no_match ex_world ex_inc_gf (Callable main_or_bar) False True 1 []
       = Inr (ex_world, ex_inc_gf, ex_filtered_gf)
   \<and> ex_bufs = [[Num 1, Num 1, Num 2, Num 3], [Num 7, Num 4, Num 2, Num 3],
                [Num 1, Num 2], [Num 7, Num 2]]
   \<and> add_obj ex_union ex_world ex_bufs ex_a ex_b
       = Inr (ex_world,
              [[Num 2, Num 1, Num 4, Num 3], [Num 14, Num 4, Num 4, Num 3],
               [Num 1, Num 2], [Num 7, Num 2]], ex_a)
   \<and> loc_scalar (dataframe (read_gf ex_bufs ex_a)) 0 [] ''time'' = Inr (Num 1)
   \<and> loc_scalar (dataframe (read_gf [[Num 2, Num 1, Num 4, Num 3], [Num 14, Num 4, Num 4, Num 3],
                                      [Num 1, Num 2], [Num 7, Num 2]] ex_a)) 0 [] ''time''
       = Inr (Num 2)
   \<and> read_gf [[Num 2, Num 1, Num 4, Num 3], [Num 14, Num 4, Num 4, Num 3],
              [Num 1, Num 2], [Num 7, Num 2]] ex_a \<noteq> read_gf ex_bufs ex_a
   \<and> sub_obj ex_union ex_world ex_bufs ex_a ex_b
       = Inr (ex_world,
              [[Num 0, Num 1, Num 0, Num 3], [Num 0, Num 4, Num 0, Num 3],
               [Num 1, Num 2], [Num 7, Num 2]], ex_a)
   \<and> mul_obj ex_union ex_world ex_bufs ex_a ex_b
       = Inr (ex_world,
              [[Num 1, Num 1, Num 4, Num 3], [Num 49, Num 4, Num 4, Num 3],
               [Num 1, Num 2], [Num 7, Num 2]], ex_a)"
  by code_simp

end
